(* ===== verification/Dhcp_Prelude.thy ===== *)
theory Dhcp_Prelude
  imports Main "HOL-Library.Word"
begin

text \<open>
  Shared vocabulary of the development: the collections that carry the component
  proofs, the result type of fallible Go functions, the generic lemmas on lists,
  maps and results, and the interfaces (locales) more than one component provides:
  \<^item> \<open>text_codec\<close>: a printer with a parser that inverts it (addresses, numbers);
  \<^item> \<open>stepper\<close>: an operation on a state that keeps an invariant, lifted to runs;
  \<^item> \<open>invariant_system\<close>: a step relation with an invariant, lifted to reachable states;
  \<^item> \<open>address_book\<close>: a store that binds owners to addresses, one owner for each address.
\<close>

named_theorems go_defs \<open>definitions of the Go standard library model\<close>
named_theorems heap_simps \<open>reading and writing the store of leases\<close>
named_theorems op_simps \<open>what the operations leave unchanged\<close>

section \<open>Results of fallible functions\<close>

text \<open>
  A Go function that returns \<open>(T, error)\<close> returns \<open>Inr v\<close> when the error is nil and
  \<open>Inl e\<close> otherwise. The sequencing \<open>if err != nil { return err }\<close> is \<open>andthen\<close>.
\<close>

type_synonym ('e, 'a) result = "'e + 'a"

definition andthen :: "('e, 'a) result \<Rightarrow> ('a \<Rightarrow> ('e, 'b) result) \<Rightarrow> ('e, 'b) result" where
  "andthen r f = (case r of Inl e \<Rightarrow> Inl e | Inr v \<Rightarrow> f v)"

definition is_ok :: "('e, 'a) result \<Rightarrow> bool" where
  "is_ok r = (case r of Inl _ \<Rightarrow> False | Inr _ \<Rightarrow> True)"

section \<open>Iterating over Go maps\<close>

text \<open>
  Go visits the entries of a map in an order it does not specify. An operation that
  ranges over a map takes the order as an argument, a list of the keys; a theorem holds
  for every order, that is for every list that visits each key once.
\<close>

definition visits :: "'k list \<Rightarrow> ('k \<rightharpoonup> 'v) \<Rightarrow> bool" where
  "visits ord m \<longleftrightarrow> distinct ord \<and> set ord = dom m"

definition in_order :: "'k list \<Rightarrow> ('k \<rightharpoonup> 'v) \<Rightarrow> 'v list" where
  "in_order ord m = map (\<lambda>k. the (m k)) ord"

section \<open>Panics\<close>

text \<open>A call that returns a value, or one that dereferences a nil pointer or writes to a nil map.\<close>

datatype 'a outcome = Returns 'a | Panics

section \<open>Interfaces shared by the components\<close>

text \<open>A printer and a parser that reads back what was printed.\<close>

locale text_codec =
  fixes show_text :: "'a \<Rightarrow> string"
    and read_text :: "string \<Rightarrow> ('e, 'a) result"
  assumes read_show: "read_text (show_text x) = Inr x"
begin

lemma show_inj: "show_text x = show_text y \<longleftrightarrow> x = y"
  by (metis read_show sum.inject(2))

lemma show_inj_on: "inj_on show_text S"
  by (rule inj_onI) (simp add: show_inj)

lemma read_surj: "\<exists>s. read_text s = Inr x"
  using read_show by blast

end

text \<open>
  A family of operations on a state. If each one keeps the invariant, so does every
  run of them, in whatever order the environment issues them.
\<close>

locale stepper =
  fixes step :: "'op \<Rightarrow> 's \<Rightarrow> 's"
    and inv :: "'s \<Rightarrow> bool"
    and valid :: "'op \<Rightarrow> bool"
  assumes step_inv: "inv s \<Longrightarrow> valid x \<Longrightarrow> inv (step x s)"
begin

lemma run_inv: "inv s \<Longrightarrow> list_all valid xs \<Longrightarrow> inv (fold step xs s)"
  by (induction xs arbitrary: s) (simp_all add: step_inv)

lemma run_keeps:
  assumes "\<And>s x. inv s \<Longrightarrow> valid x \<Longrightarrow> P s \<Longrightarrow> P (step x s)"
  shows "inv s \<Longrightarrow> list_all valid xs \<Longrightarrow> P s \<Longrightarrow> P (fold step xs s)"
  by (induction xs arbitrary: s) (simp_all add: step_inv assms)

end

text \<open>
  The same for a step relation: an invariant that every step keeps holds in every
  reachable state. A stepper is one, with the valid operations as its steps.
\<close>

locale invariant_system =
  fixes trans :: "'s \<Rightarrow> 's \<Rightarrow> bool"
    and inv :: "'s \<Rightarrow> bool"
  assumes trans_inv: "inv s \<Longrightarrow> trans s s' \<Longrightarrow> inv s'"
begin

lemma reach_inv: "trans\<^sup>*\<^sup>* s s' \<Longrightarrow> inv s \<Longrightarrow> inv s'"
  by (induction rule: rtranclp_induct) (simp_all add: trans_inv)

lemma reach_keeps:
  assumes "trans\<^sup>*\<^sup>* s s'" "inv s" "P s" "\<And>u v. inv u \<Longrightarrow> trans u v \<Longrightarrow> P u \<Longrightarrow> P v"
  shows "P s'"
  using assms(1)
proof (induction rule: rtranclp_induct)
  case (step u v)
  then show ?case using assms(4) reach_inv [OF step(1) assms(2)] by blast
qed (rule assms(3))

end

sublocale stepper \<subseteq> runs: invariant_system "\<lambda>s s'. \<exists>x. valid x \<and> s' = step x s" inv
  by unfold_locales (auto simp: step_inv)

text \<open>
  An address book: who holds which address. A client relies on a store that binds the
  owner of an entry to its address, takes the address from a previous holder and leaves
  every other binding alone. \<open>admits\<close> is the caller's side of the contract.
\<close>

definition rebind :: "'m \<Rightarrow> 'a \<Rightarrow> ('m \<rightharpoonup> 'a) \<Rightarrow> ('m \<rightharpoonup> 'a)" where
  "rebind m a b = (\<lambda>k. if k = m then Some a else if b k = Some a then None else b k)"

definition exclusive :: "('m \<rightharpoonup> 'a) \<Rightarrow> bool" where
  "exclusive b \<longleftrightarrow> (\<forall>k k' a. b k = Some a \<longrightarrow> b k' = Some a \<longrightarrow> k = k')"

lemma exclusive_rebind: "exclusive b \<Longrightarrow> exclusive (rebind m a b)"
  by (auto simp: exclusive_def rebind_def)

locale address_book =
  fixes invar :: "'s \<Rightarrow> bool"
    and book :: "'s \<Rightarrow> 'm \<rightharpoonup> 'a"
    and admits :: "'l \<Rightarrow> 's \<Rightarrow> bool"
    and put :: "'l \<Rightarrow> 's \<Rightarrow> 's"
    and owner :: "'l \<Rightarrow> 'm"
    and address :: "'l \<Rightarrow> 'a"
  assumes invar_put: "invar s \<Longrightarrow> admits l s \<Longrightarrow> invar (put l s)"
    and book_put: "invar s \<Longrightarrow> admits l s \<Longrightarrow> book (put l s) = rebind (owner l) (address l) (book s)"
    and book_exclusive: "invar s \<Longrightarrow> exclusive (book s)"
begin

lemma put_owner: "invar s \<Longrightarrow> admits l s \<Longrightarrow> book (put l s) (owner l) = Some (address l)"
  by (simp add: book_put rebind_def)

lemma put_keeps:
  "invar s \<Longrightarrow> admits l s \<Longrightarrow> book s m = Some a \<Longrightarrow> m \<noteq> owner l \<Longrightarrow> a \<noteq> address l
   \<Longrightarrow> book (put l s) m = Some a"
  by (simp add: book_put rebind_def)

lemma put_evicts:
  "invar s \<Longrightarrow> admits l s \<Longrightarrow> book s m = Some (address l) \<Longrightarrow> m \<noteq> owner l \<Longrightarrow> book (put l s) m = None"
  by (simp add: book_put rebind_def)

lemma no_sharing: "invar s \<Longrightarrow> book s m = Some a \<Longrightarrow> book s m' = Some a \<Longrightarrow> m = m'"
  using book_exclusive by (auto simp: exclusive_def)

end

section \<open>Generic lemmas\<close>

lemma andthen_simps [simp]:
  "andthen (Inl e) f = Inl e"
  "andthen (Inr v) f = f v"
  by (simp_all add: andthen_def)

lemma andthen_eq_Inr: "andthen r f = Inr w \<longleftrightarrow> (\<exists>v. r = Inr v \<and> f v = Inr w)"
  by (cases r) simp_all

lemma is_ok_simps [simp]:
  "\<not> is_ok (Inl e)"
  "is_ok (Inr v)"
  by (simp_all add: is_ok_def)

lemma map_upd_other: "k \<noteq> k' \<Longrightarrow> (m(k \<mapsto> v)) k' = m k'"
  by simp

lemma map_del_Some: "(m(k := None)) j = Some v \<longleftrightarrow> j \<noteq> k \<and> m j = Some v"
  by simp

lemma option_eqI: "(\<And>v. x = Some v \<longleftrightarrow> y = Some v) \<Longrightarrow> x = y"
  by (cases x; cases y) auto

end
