(* ===== verification/Go_Std.thy ===== *)
theory Go_Std
  imports Dhcp_Prelude
begin

unbundle bit_operations_syntax

text \<open>
  The part of the Go standard library that the program uses, as total functions:
  \<^item> \<^verbatim>\<open>strings.Split\<close> with a one-character separator;
  \<^item> \<^verbatim>\<open>strconv.ParseUint\<close> and \<^verbatim>\<open>strconv.ParseInt\<close> in base 10, with their two errors;
  \<^item> \<^verbatim>\<open>fmt\<close>'s decimal verb on a non-negative integer;
  \<^item> \<^verbatim>\<open>net.IP\<close> (a byte slice that may be nil), its \<^verbatim>\<open>Equal\<close>, \<^verbatim>\<open>To4\<close> and \<^verbatim>\<open>String\<close>,
    \<^verbatim>\<open>net.ParseIP\<close>, \<^verbatim>\<open>net.CIDRMask\<close>, \<^verbatim>\<open>IPNet.Contains\<close> and \<^verbatim>\<open>HardwareAddr.String\<close>,
    as of the Go release \<^verbatim>\<open>go.mod\<close> names (1.17);
  \<^item> \<^verbatim>\<open>time.Time\<close> as the nanoseconds since the zero time and \<^verbatim>\<open>time.Duration\<close> as a
    64-bit signed integer.
  Strings are byte strings, as in Go.
\<close>

section \<open>strings and strconv\<close>

type_synonym byte = "8 word"

fun Split :: "char \<Rightarrow> string \<Rightarrow> string list" where
  "Split c [] = [[]]"
| "Split c (x # xs) =
     (if x = c then [] # Split c xs
      else (case Split c xs of [] \<Rightarrow> [[x]] | y # ys \<Rightarrow> (x # y) # ys))"

fun Join :: "string \<Rightarrow> string list \<Rightarrow> string" where
  "Join sep [] = []"
| "Join sep [x] = x"
| "Join sep (x # y # ys) = x @ sep @ Join sep (y # ys)"

definition digit_val :: "char \<Rightarrow> nat option" where
  "digit_val c = (let n = of_char c :: nat in if 48 \<le> n \<and> n \<le> 57 then Some (n - 48) else None)"

definition digit_char :: "nat \<Rightarrow> char" where
  "digit_char d = char_of (48 + d)"

datatype num_error = ErrSyntax | ErrRange

fun ParseUint_loop :: "nat \<Rightarrow> nat \<Rightarrow> string \<Rightarrow> (num_error, nat) result" where
  "ParseUint_loop maxVal n [] = Inr n"
| "ParseUint_loop maxVal n (c # cs) =
     (case digit_val c of
        None \<Rightarrow> Inl ErrSyntax
      | Some d \<Rightarrow>
          if 10 * n + d > maxVal then Inl ErrRange
          else ParseUint_loop maxVal (10 * n + d) cs)"

definition ParseUint :: "string \<Rightarrow> nat \<Rightarrow> (num_error, nat) result" where
  "ParseUint s bitSize =
     (if s = [] then Inl ErrSyntax else ParseUint_loop (2 ^ bitSize - 1) 0 s)"

definition ParseInt_signed :: "bool \<Rightarrow> string \<Rightarrow> nat \<Rightarrow> (num_error, int) result" where
  "ParseInt_signed neg s bitSize =
     (case ParseUint s bitSize of
        Inl ErrSyntax \<Rightarrow> Inl ErrSyntax
      | Inl ErrRange \<Rightarrow> Inl ErrRange
      | Inr un \<Rightarrow>
          let cutoff = 2 ^ (bitSize - 1) in
          if \<not> neg \<and> un \<ge> cutoff then Inl ErrRange
          else if neg \<and> un > cutoff then Inl ErrRange
          else Inr (if neg then - int un else int un))"

definition ParseInt :: "string \<Rightarrow> nat \<Rightarrow> (num_error, int) result" where
  "ParseInt s bitSize =
     (case s of
        [] \<Rightarrow> Inl ErrSyntax
      | c # cs \<Rightarrow>
          if c = CHR ''+'' then ParseInt_signed False cs bitSize
          else if c = CHR ''-'' then ParseInt_signed True cs bitSize
          else ParseInt_signed False s bitSize)"

fun dec :: "nat \<Rightarrow> string" where
  "dec n = (if n < 10 then [digit_char n] else dec (n div 10) @ [digit_char (n mod 10)])"

declare dec.simps [simp del]

definition hex_char :: "nat \<Rightarrow> char" where
  "hex_char d = (if d < 10 then char_of (48 + d) else char_of (87 + d))"

fun hex :: "nat \<Rightarrow> string" where
  "hex n = (if n < 16 then [hex_char n] else hex (n div 16) @ [hex_char (n mod 16)])"

declare hex.simps [simp del]

definition hex_byte :: "byte \<Rightarrow> string" where
  "hex_byte b = [hex_char (unat b div 16), hex_char (unat b mod 16)]"

section \<open>net.IP\<close>

text \<open>\<open>None\<close> is the nil slice; its length is 0, like that of the empty slice.\<close>

type_synonym net_IP = "byte list option"

definition ip_bytes :: "net_IP \<Rightarrow> byte list" where
  "ip_bytes ip = (case ip of None \<Rightarrow> [] | Some bs \<Rightarrow> bs)"

definition v4InV6Prefix :: "byte list" where
  "v4InV6Prefix = [0, 0, 0, 0, 0, 0, 0, 0, 0, 0, 255, 255]"

definition net_IPv4 :: "byte \<Rightarrow> byte \<Rightarrow> byte \<Rightarrow> byte \<Rightarrow> net_IP" where
  "net_IPv4 a b c d = Some (v4InV6Prefix @ [a, b, c, d])"

definition IPv4zero :: net_IP where
  "IPv4zero = net_IPv4 0 0 0 0"

definition IP_Equal :: "net_IP \<Rightarrow> net_IP \<Rightarrow> bool" where
  "IP_Equal ip x =
     (let a = ip_bytes ip; b = ip_bytes x in
      if length a = length b then a = b
      else if length a = 4 \<and> length b = 16 then take 12 b = v4InV6Prefix \<and> a = drop 12 b
      else if length a = 16 \<and> length b = 4 then take 12 a = v4InV6Prefix \<and> drop 12 a = b
      else False)"

definition To4 :: "net_IP \<Rightarrow> net_IP" where
  "To4 ip =
     (let a = ip_bytes ip in
      if length a = 4 then ip
      else if length a = 16 \<and> take 12 a = v4InV6Prefix then Some (drop 12 a)
      else None)"

definition dotted :: "byte list \<Rightarrow> string" where
  "dotted bs = Join ''.'' (map (\<lambda>b. dec (unat b)) bs)"

fun ip_groups :: "byte list \<Rightarrow> nat list" where
  "ip_groups (a # b # bs) = (256 * unat a + unat b) # ip_groups bs"
| "ip_groups _ = []"

text \<open>The leftmost longest run of zero groups, as its start and its length.\<close>

fun zero_run :: "nat \<Rightarrow> nat list \<Rightarrow> nat \<times> nat \<Rightarrow> nat \<times> nat" where
  "zero_run i [] best = best"
| "zero_run i (g # gs) (e, n) =
     (let m = length (takeWhile (\<lambda>x. x = 0) (g # gs)) in
      zero_run (Suc i) gs (if m > n then (i, m) else (e, n)))"

definition ipv6_string :: "byte list \<Rightarrow> string" where
  "ipv6_string bs =
     (let gs = ip_groups bs; (e, n) = zero_run 0 gs (0, 0) in
      if n \<ge> 2
      then Join '':'' (map hex (take e gs)) @ ''::'' @ Join '':'' (map hex (drop (e + n) gs))
      else Join '':'' (map hex gs))"

definition IP_String :: "net_IP \<Rightarrow> string" where
  "IP_String ip =
     (let a = ip_bytes ip in
      if a = [] then ''<nil>''
      else if length (ip_bytes (To4 ip)) = 4 then dotted (ip_bytes (To4 ip))
      else if length a \<noteq> 16 then ''?'' @ concat (map hex_byte a)
      else ipv6_string a)"

section \<open>net.ParseIP\<close>

definition is_digit :: "char \<Rightarrow> bool" where
  "is_digit c = (digit_val c \<noteq> None)"

fun dec_value :: "nat \<Rightarrow> string \<Rightarrow> nat" where
  "dec_value n [] = n"
| "dec_value n (c # cs) = dec_value (10 * n + the (digit_val c)) cs"

text \<open>One octet: its value and the rest of the text. A leading zero is refused.\<close>

definition parse_octet :: "string \<Rightarrow> (byte \<times> string) option" where
  "parse_octet s =
     (let ds = takeWhile is_digit s; n = dec_value 0 ds in
      if ds = [] \<or> n > 255 then None
      else if length ds > 1 \<and> hd ds = CHR ''0'' then None
      else Some (of_nat n, dropWhile is_digit s))"

fun parse_dotted :: "nat \<Rightarrow> string \<Rightarrow> byte list option" where
  "parse_dotted 0 s = (if s = [] then Some [] else None)"
| "parse_dotted (Suc k) s =
     (case s of
        [] \<Rightarrow> None
      | c # cs \<Rightarrow>
          if c \<noteq> CHR ''.'' then None
          else (case parse_octet cs of
                  None \<Rightarrow> None
                | Some (b, rest) \<Rightarrow> map_option ((#) b) (parse_dotted k rest)))"

definition parse_ipv4_text :: "string \<Rightarrow> byte list option" where
  "parse_ipv4_text s =
     (case parse_octet s of
        None \<Rightarrow> None
      | Some (b, rest) \<Rightarrow> map_option ((#) b) (parse_dotted 3 rest))"

definition hex_val :: "char \<Rightarrow> nat option" where
  "hex_val c =
     (let n = of_char c :: nat in
      if 48 \<le> n \<and> n \<le> 57 then Some (n - 48)
      else if 97 \<le> n \<and> n \<le> 102 then Some (n - 87)
      else if 65 \<le> n \<and> n \<le> 70 then Some (n - 55)
      else None)"

fun hex_value :: "nat \<Rightarrow> string \<Rightarrow> nat" where
  "hex_value n [] = n"
| "hex_value n (c # cs) = hex_value (16 * n + the (hex_val c)) cs"

definition split_group :: "nat \<Rightarrow> byte list" where
  "split_group n = [of_nat (n div 256), of_nat (n mod 256)]"

text \<open>
  The loop of \<^verbatim>\<open>parseIPv6\<close>: \<open>bs\<close> are the bytes read so far, \<open>ell\<close> the position of the
  ellipsis. The result is the bytes, the ellipsis and the unread text. The fuel is the
  number of 16-bit groups that still fit, so the loop ends when the address is full.
\<close>

fun parse_ipv6_loop ::
  "nat \<Rightarrow> byte list \<Rightarrow> nat option \<Rightarrow> string \<Rightarrow> (byte list \<times> nat option \<times> string) option" where
  "parse_ipv6_loop 0 bs ell s = Some (bs, ell, s)"
| "parse_ipv6_loop (Suc k) bs ell s =
     (let ds = takeWhile (\<lambda>c. hex_val c \<noteq> None) s; n = hex_value 0 ds;
          rest = dropWhile (\<lambda>c. hex_val c \<noteq> None) s in
      if ds = [] \<or> n > 65535 then None
      else if rest \<noteq> [] \<and> hd rest = CHR ''.'' then
        (if ell = None \<and> length bs \<noteq> 12 then None
         else if length bs + 4 > 16 then None
         else (case parse_ipv4_text s of
                 None \<Rightarrow> None
               | Some v4 \<Rightarrow> Some (bs @ v4, ell, [])))
      else
        (let bs' = bs @ split_group n in
         case rest of
           [] \<Rightarrow> Some (bs', ell, [])
         | c # cs \<Rightarrow>
             if c \<noteq> CHR '':'' \<or> cs = [] then None
             else if hd cs = CHR '':'' then
               (if ell \<noteq> None then None
                else if tl cs = [] then Some (bs', Some (length bs'), [])
                else parse_ipv6_loop k bs' (Some (length bs')) (tl cs))
             else parse_ipv6_loop k bs' ell cs))"

definition parse_ipv6_finish :: "byte list \<times> nat option \<times> string \<Rightarrow> byte list option" where
  "parse_ipv6_finish r =
     (case r of (bs, ell, s) \<Rightarrow>
        if s \<noteq> [] then None
        else if length bs < 16 then
          (case ell of
             None \<Rightarrow> None
           | Some e \<Rightarrow> Some (take e bs @ replicate (16 - length bs) 0 @ drop e bs))
        else if ell \<noteq> None then None
        else Some bs)"

definition parse_ipv6_text :: "string \<Rightarrow> byte list option" where
  "parse_ipv6_text s =
     (if take 2 s = ''::'' then
        (if drop 2 s = [] then Some (replicate 16 0)
         else Option.bind (parse_ipv6_loop 8 [] (Some 0) (drop 2 s)) parse_ipv6_finish)
      else Option.bind (parse_ipv6_loop 8 [] None s) parse_ipv6_finish)"

text \<open>The first \<open>.\<close> or \<open>:\<close> of the text decides between the two forms.\<close>

definition ParseIP :: "string \<Rightarrow> net_IP" where
  "ParseIP s =
     (case dropWhile (\<lambda>c. c \<noteq> CHR ''.'' \<and> c \<noteq> CHR '':'') s of
        [] \<Rightarrow> None
      | c # _ \<Rightarrow>
          if c = CHR ''.'' then map_option (\<lambda>bs. v4InV6Prefix @ bs) (parse_ipv4_text s)
          else parse_ipv6_text s)"

section \<open>Masks, networks and hardware addresses\<close>

type_synonym net_IPMask = "byte list option"

fun mask_bytes :: "nat \<Rightarrow> nat \<Rightarrow> byte list" where
  "mask_bytes 0 n = []"
| "mask_bytes (Suc l) n =
     (if n \<ge> 8 then 255 # mask_bytes l (n - 8) else NOT (drop_bit n 255) # mask_bytes l 0)"

definition CIDRMask :: "int \<Rightarrow> nat \<Rightarrow> net_IPMask" where
  "CIDRMask ones bits =
     (if bits \<noteq> 32 \<and> bits \<noteq> 128 then None
      else if ones < 0 \<or> ones > int bits then None
      else Some (mask_bytes (bits div 8) (nat ones)))"

record IPNet =
  IPNet_IP :: net_IP
  IPNet_Mask :: net_IPMask

definition networkNumberAndMask :: "IPNet \<Rightarrow> byte list \<times> byte list" where
  "networkNumberAndMask n =
     (let ip = (if To4 (IPNet_IP n) \<noteq> None then ip_bytes (To4 (IPNet_IP n)) else ip_bytes (IPNet_IP n));
          m = ip_bytes (IPNet_Mask n) in
      if To4 (IPNet_IP n) = None \<and> length ip \<noteq> 16 then ([], [])
      else if length m = 4 then (if length ip \<noteq> 4 then ([], []) else (ip, m))
      else if length m = 16 then (if length ip = 4 then (ip, drop 12 m) else (ip, m))
      else ([], []))"

definition IPNet_Contains :: "IPNet \<Rightarrow> net_IP \<Rightarrow> bool" where
  "IPNet_Contains n ip =
     (let (nn, m) = networkNumberAndMask n;
          x = (if To4 ip \<noteq> None then ip_bytes (To4 ip) else ip_bytes ip) in
      length x = length nn \<and> map2 (AND) nn m = map2 (AND) x m)"

definition HardwareAddr_String :: "byte list \<Rightarrow> string" where
  "HardwareAddr_String a = Join '':'' (map hex_byte a)"

section \<open>time\<close>

text \<open>A time is the nanoseconds since the zero value of \<^verbatim>\<open>time.Time\<close>.\<close>

type_synonym go_time = int

definition int64 :: "int \<Rightarrow> int" where
  "int64 x = (x + 2 ^ 63) mod 2 ^ 64 - 2 ^ 63"

definition Second :: int where
  "Second = 1000000000"

section \<open>Decimal text\<close>

lemma digit_val_char [simp]: "d < 10 \<Longrightarrow> digit_val (digit_char d) = Some d"
  by (simp add: digit_val_def digit_char_def)

lemma is_digit_char [simp]: "d < 10 \<Longrightarrow> is_digit (digit_char d)"
  by (simp add: is_digit_def)

lemma not_digit_sep [simp]: "\<not> is_digit (CHR ''.'')" "\<not> is_digit (CHR '':'')"
  by (simp_all add: is_digit_def digit_val_def)

lemma dec_nonempty [simp]: "dec n \<noteq> []"
  by (subst dec.simps) simp

lemma dec_digits: "c \<in> set (dec n) \<Longrightarrow> is_digit c"
proof (induction n rule: dec.induct)
  case (1 n)
  then show ?case by (subst (asm) (2) dec.simps) (auto split: if_splits)
qed

lemma dec_no_sep [simp]: "CHR ''.'' \<notin> set (dec n)" "CHR '':'' \<notin> set (dec n)"
  using dec_digits not_digit_sep by blast+

lemma ParseUint_loop_append:
  "ParseUint_loop M n (xs @ ys) = andthen (ParseUint_loop M n xs) (\<lambda>k. ParseUint_loop M k ys)"
  by (induction M n xs rule: ParseUint_loop.induct) (auto split: option.splits)

lemma ParseUint_loop_dec: "n \<le> M \<Longrightarrow> ParseUint_loop M 0 (dec n) = Inr n"
proof (induction n rule: dec.induct)
  case (1 n)
  show ?case
  proof (cases "n < 10")
    case True
    with "1.prems" show ?thesis by (subst dec.simps) simp
  next
    case False
    with "1.prems" have "ParseUint_loop M 0 (dec (n div 10)) = Inr (n div 10)"
      by (intro "1.IH") auto
    with False "1.prems" show ?thesis
      by (subst dec.simps) (simp add: ParseUint_loop_append)
  qed
qed

lemma ParseUint_dec: "n < 2 ^ k \<Longrightarrow> ParseUint (dec n) k = Inr n"
  by (simp add: ParseUint_def ParseUint_loop_dec)

lemma ParseUint_loop_bound: "ParseUint_loop M n s = Inr v \<Longrightarrow> n \<le> M \<Longrightarrow> v \<le> M"
  by (induction M n s rule: ParseUint_loop.induct) (auto split: option.splits if_splits)

lemma ParseUint_bound: "ParseUint s k = Inr v \<Longrightarrow> v < 2 ^ k"
proof -
  assume "ParseUint s k = Inr v"
  then have "v \<le> 2 ^ k - 1"
    by (auto simp: ParseUint_def split: if_splits dest: ParseUint_loop_bound)
  moreover have "(0::nat) < 2 ^ k" by simp
  ultimately show ?thesis by linarith
qed

lemma ParseInt_signed_bound:
  assumes "ParseInt_signed b t k = Inr v"
  shows "- (2 ^ (k - 1)) \<le> v \<and> v < 2 ^ (k - 1)"
proof -
  from assms obtain un where un: "\<not> (\<not> b \<and> 2 ^ (k - 1) \<le> un)" "\<not> (b \<and> 2 ^ (k - 1) < un)"
    "v = (if b then - int un else int un)"
    by (auto simp: ParseInt_signed_def Let_def split: sum.splits num_error.splits if_splits)
  define c where "c = (2 :: nat) ^ (k - 1)"
  have c: "(2 :: int) ^ (k - 1) = int c" "0 < c"
    by (simp_all add: c_def)
  show ?thesis
    using un unfolding c c_def [symmetric] by (cases b) (use c(2) in auto)
qed

lemma ParseInt_bound:
  "ParseInt s k = Inr v \<Longrightarrow> - (2 ^ (k - 1)) \<le> v \<and> v < 2 ^ (k - 1)"
  using ParseInt_signed_bound
  by (fastforce simp: ParseInt_def split: list.splits if_splits)

lemma ParseInt_dec_signed: "ParseInt (dec n) k = ParseInt_signed False (dec n) k"
proof -
  have "\<not> is_digit (CHR ''+'')" "\<not> is_digit (CHR ''-'')"
    by (simp_all add: is_digit_def digit_val_def)
  then have "hd (dec n) \<noteq> CHR ''+''" "hd (dec n) \<noteq> CHR ''-''"
    using dec_digits [of "hd (dec n)" n] by (metis dec_nonempty hd_in_set)+
  then show ?thesis
    by (auto simp: ParseInt_def split: list.split)
qed

lemma ParseInt_dec:
  assumes "n < 2 ^ (k - 1)" "0 < k"
  shows "ParseInt (dec n) k = Inr (int n)"
proof -
  have "(2::nat) ^ (k - 1) \<le> 2 ^ k"
    by (simp add: power_increasing)
  with assms(1) have "n < 2 ^ k" by linarith
  then have "ParseUint (dec n) k = Inr n" by (rule ParseUint_dec)
  then show ?thesis
    using assms(1) by (simp add: ParseInt_dec_signed ParseInt_signed_def)
qed

lemma ParseInt_dec_range:
  "2 ^ (k - 1) \<le> n \<Longrightarrow> n < 2 ^ k \<Longrightarrow> ParseInt (dec n) k = Inl ErrRange"
  by (simp add: ParseInt_dec_signed ParseInt_signed_def ParseUint_dec)

lemma dec_value_append: "dec_value n (xs @ ys) = dec_value (dec_value n xs) ys"
  by (induction n xs rule: dec_value.induct) simp_all

lemma dec_value_dec [simp]: "dec_value 0 (dec n) = n"
proof (induction n rule: dec.induct)
  case (1 n)
  then show ?case by (subst dec.simps) (auto simp: dec_value_append)
qed

lemma dec_no_leading_zero: "1 < length (dec n) \<Longrightarrow> hd (dec n) \<noteq> CHR ''0''"
proof (induction n rule: dec.induct)
  case (1 n)
  show ?case
  proof (cases "n < 100")
    case True
    moreover have "n div 10 < 10" using True by simp
    moreover have "10 \<le> n" using "1.prems" by (subst (asm) dec.simps) (simp split: if_splits)
    ultimately have "dec n = [digit_char (n div 10), digit_char (n mod 10)]" "0 < n div 10"
      by (subst dec.simps, subst dec.simps, simp_all add: div_greater_zero_iff)
    moreover have "digit_char d \<noteq> CHR ''0''" if "0 < d" "d < 10" for d
      using digit_val_char [OF that(2)] that(1) by (auto simp: digit_val_def)
    ultimately show ?thesis using \<open>n div 10 < 10\<close> by simp
  next
    case False
    then have "1 < length (dec (n div 10))"
      by (subst dec.simps) auto
    with "1.IH" False have "hd (dec (n div 10)) \<noteq> CHR ''0''" by simp
    with False show ?thesis by (subst dec.simps) simp
  qed
qed

section \<open>Dotted text\<close>

lemma Split_nonempty [simp]: "Split c s \<noteq> []"
  by (induction s) (auto split: list.splits)

lemma Split_append:
  "c \<notin> set xs \<Longrightarrow> Split c (xs @ c # ys) = xs # Split c ys"
  by (induction xs) auto

lemma Split_single: "c \<notin> set xs \<Longrightarrow> Split c xs = [xs]"
  by (induction xs) auto

lemma Split_Join:
  "xs \<noteq> [] \<Longrightarrow> \<forall>x \<in> set xs. c \<notin> set x \<Longrightarrow> Split c (Join [c] xs) = xs"
  by (induction "[c]" xs rule: Join.induct) (auto simp: Split_append Split_single)

lemma Join_Cons_Cons: "Join sep ((x # y) # ys) = x # Join sep (y # ys)"
  by (cases ys) simp_all

lemma Join_Nil_Cons: "ys \<noteq> [] \<Longrightarrow> Join sep ([] # ys) = sep @ Join sep ys"
  by (cases ys) simp_all

lemma Join_Split: "Join [c] (Split c s) = s"
  by (induction s) (auto simp: Join_Nil_Cons Join_Cons_Cons split: list.splits)

lemma takeWhile_dec:
  "rest = [] \<or> \<not> is_digit (hd rest) \<Longrightarrow> takeWhile is_digit (dec n @ rest) = dec n"
  by (cases rest) (auto simp: takeWhile_append dec_digits)

lemma dropWhile_dec:
  "rest = [] \<or> \<not> is_digit (hd rest) \<Longrightarrow> dropWhile is_digit (dec n @ rest) = rest"
  by (cases rest) (auto simp: dropWhile_append dec_digits)

lemma unat_byte_le: "unat (b :: byte) \<le> 255"
  using unsigned_less [of b, where ?'a = nat] by simp

lemma unat_byte_less: "unat (b :: byte) < 256"
  using unat_byte_le [of b] by simp

lemma parse_octet_dec:
  "rest = [] \<or> \<not> is_digit (hd rest) \<Longrightarrow> parse_octet (dec (unat b) @ rest) = Some (b, rest)"
  using unat_byte_le [of b] dec_no_leading_zero [of "unat b"]
  by (auto simp: parse_octet_def takeWhile_dec dropWhile_dec Let_def)

lemma parse_ipv4_text_dotted: "parse_ipv4_text (dotted [a, b, c, d]) = Some [a, b, c, d]"
  using parse_octet_dec [of "[]" d]
  by (simp add: parse_ipv4_text_def dotted_def parse_octet_dec eval_nat_numeral)

lemma ParseIP_dotted: "ParseIP (dotted [a, b, c, d]) = net_IPv4 a b c d"
proof -
  have "dropWhile (\<lambda>c. c \<noteq> CHR ''.'' \<and> c \<noteq> CHR '':'') (dotted [a, b, c, d]) =
      CHR ''.'' # dec (unat b) @ ''.'' @ dec (unat c) @ ''.'' @ dec (unat d)"
    unfolding dotted_def using dec_no_sep [of "unat a"]
    by (subst list.map, subst list.map, subst Join.simps, subst dropWhile_append2) auto
  then show ?thesis
    by (simp add: ParseIP_def parse_ipv4_text_dotted net_IPv4_def)
qed

lemma ParseIP_no_separator:
  "CHR ''.'' \<notin> set s \<Longrightarrow> CHR '':'' \<notin> set s \<Longrightarrow> ParseIP s = None"
proof -
  assume "CHR ''.'' \<notin> set s" "CHR '':'' \<notin> set s"
  then have "dropWhile (\<lambda>c. c \<noteq> CHR ''.'' \<and> c \<noteq> CHR '':'') s = []"
    by auto
  then show ?thesis unfolding ParseIP_def by (simp only: list.case)
qed

lemma length_v4InV6Prefix [simp]: "length v4InV6Prefix = 12"
  by (simp add: v4InV6Prefix_def)

lemma byte_less: "unat (b :: byte) < 256"
  using unsigned_less [of b, where ?'a = nat] by simp

lemma To4_net_IPv4 [simp]: "To4 (net_IPv4 a b c d) = Some [a, b, c, d]"
  by (simp add: To4_def net_IPv4_def ip_bytes_def)

lemma To4_four [simp]: "length bs = 4 \<Longrightarrow> To4 (Some bs) = Some bs"
  by (simp add: To4_def ip_bytes_def)

lemma To4_nil [simp]: "To4 None = None"
  by (simp add: To4_def ip_bytes_def)

lemma length_To4: "To4 ip = Some bs \<Longrightarrow> length bs = 4"
  by (auto simp: To4_def ip_bytes_def Let_def split: if_splits option.splits)

lemma IP_String_net_IPv4: "IP_String (net_IPv4 a b c d) = dotted [a, b, c, d]"
  by (simp add: IP_String_def Let_def ip_bytes_def net_IPv4_def [symmetric])
    (simp add: net_IPv4_def)

lemma IP_String_four: "length bs = 4 \<Longrightarrow> IP_String (Some bs) = dotted bs"
  by (auto simp: IP_String_def Let_def ip_bytes_def)

lemma IP_String_To4: "To4 ip = Some bs \<Longrightarrow> IP_String ip = dotted bs"
  using length_To4 [of ip bs]
  by (auto simp: IP_String_def Let_def ip_bytes_def split: option.splits)
    (auto simp: To4_def ip_bytes_def split: if_splits)

lemma dotted_inj:
  assumes "length bs = 4" "length cs = 4" "dotted bs = dotted cs"
  shows "bs = cs"
proof -
  from assms(1,2) obtain a b c d e f g h where "bs = [a, b, c, d]" "cs = [e, f, g, h]"
    by (auto simp: eval_nat_numeral length_Suc_conv)
  then show ?thesis using assms(3) parse_ipv4_text_dotted by (metis option.inject)
qed

text \<open>Two addresses that have an IPv4 form print alike exactly when they are Equal.\<close>

lemma To4_form:
  "To4 z = Some zs \<Longrightarrow> ip_bytes z = zs \<or> ip_bytes z = v4InV6Prefix @ zs"
  by (auto simp: To4_def ip_bytes_def Let_def split: if_splits option.splits)
    (metis append_take_drop_id)

lemma IP_Equal_To4:
  assumes "To4 x = Some bs" "To4 y = Some cs"
  shows "IP_Equal x y \<longleftrightarrow> bs = cs"
proof -
  have len: "length bs = 4" "length cs = 4"
    using assms by (simp_all add: length_To4)
  consider "ip_bytes x = bs" "ip_bytes y = cs" | "ip_bytes x = v4InV6Prefix @ bs" "ip_bytes y = cs"
    | "ip_bytes x = bs" "ip_bytes y = v4InV6Prefix @ cs"
    | "ip_bytes x = v4InV6Prefix @ bs" "ip_bytes y = v4InV6Prefix @ cs"
    using To4_form assms by blast
  then show ?thesis
    by cases (simp_all add: IP_Equal_def Let_def len)
qed

lemma IP_Equal_String:
  "To4 x = Some bs \<Longrightarrow> To4 y = Some cs \<Longrightarrow> IP_Equal x y \<longleftrightarrow> IP_String x = IP_String y"
  using IP_Equal_To4 IP_String_To4 dotted_inj length_To4 by metis

lemma IP_Equal_refl [simp]: "IP_Equal x x"
  by (simp add: IP_Equal_def Let_def)

lemma length_mask_bytes [simp]: "length (mask_bytes l n) = l"
  by (induction l n rule: mask_bytes.induct) simp_all

end
