(* ===== verification/Dhcp_IPv4.thy ===== *)
theory Dhcp_IPv4
  imports Go_Std
begin

unbundle bit_operations_syntax

text \<open>
  \<^verbatim>\<open>dhcp/ipv4.go\<close>: the 32-bit address type of the pools, its parser, its printer and
  its increment. The printer and the parser form a \<open>text_codec\<close>; the printed form is
  also read by \<^verbatim>\<open>net.ParseIP\<close>, which is how the pool's addresses become \<^verbatim>\<open>net.IP\<close>
  values and how they come back as keys of the lease cache.
\<close>

section \<open>Definitions\<close>

type_synonym IPv4 = "32 word"

datatype ipv4_error = InvalidIPv4 string | NumError num_error

definition parse_bits :: "string \<Rightarrow> (ipv4_error, 64 word) result" where
  "parse_bits s = map_sum NumError of_nat (ParseUint s 8)"

definition ParseIPv4 :: "string \<Rightarrow> (ipv4_error, IPv4) result" where
  "ParseIPv4 s =
     (let bits = Split (CHR ''.'') s in
      if length bits \<noteq> 4 then Inl (InvalidIPv4 s)
      else
        andthen (parse_bits (bits ! 0)) (\<lambda>n0.
        let ip = 0xff000000 AND (ucast (push_bit 24 n0) :: IPv4) in
        andthen (parse_bits (bits ! 1)) (\<lambda>n1.
        let ip = ip OR (0xff0000 AND ucast (push_bit 16 n1)) in
        andthen (parse_bits (bits ! 2)) (\<lambda>n2.
        let ip = ip OR (0xff00 AND ucast (push_bit 8 n2)) in
        andthen (parse_bits (bits ! 3)) (\<lambda>n3.
        let ip = ip OR (0xff AND ucast n3) in
        Inr ip)))))"

definition IPv4_String :: "IPv4 \<Rightarrow> string" where
  "IPv4_String i =
     dec (unat (drop_bit 24 i AND 0xff)) @ ''.'' @
     dec (unat (drop_bit 16 i AND 0xff)) @ ''.'' @
     dec (unat (drop_bit 8 i AND 0xff)) @ ''.'' @
     dec (unat (i AND 0xff))"

definition IPv4_Inc :: "IPv4 \<Rightarrow> IPv4" where
  "IPv4_Inc i = i + 1"

definition IPv4_Next :: "IPv4 \<Rightarrow> IPv4" where
  "IPv4_Next i = i + 1"

text \<open>The four bytes of an address, most significant first.\<close>

definition octets :: "IPv4 \<Rightarrow> byte list" where
  "octets i = [ucast (drop_bit 24 i), ucast (drop_bit 16 i), ucast (drop_bit 8 i), ucast i]"

definition of_octets :: "nat \<Rightarrow> nat \<Rightarrow> nat \<Rightarrow> nat \<Rightarrow> IPv4" where
  "of_octets a b c d = of_nat (16777216 * a + 65536 * b + 256 * c + d)"

text \<open>The \<^verbatim>\<open>net.IP\<close> value of an address, in the 16-byte form the Go library gives it.\<close>

definition ip_of :: "IPv4 \<Rightarrow> net_IP" where
  "ip_of i = Some (v4InV6Prefix @ octets i)"

section \<open>Lemmas\<close>

lemma and_255: "(x :: 'a :: len word) AND 0xff = take_bit 8 x"
  by (simp add: take_bit_eq_mask mask_numeral)

lemma unat_and_255: "unat ((x :: IPv4) AND 0xff) = unat (ucast x :: byte)"
  by (simp add: and_255 unsigned_ucast_eq unsigned_take_bit_eq)

lemma IPv4_String_dotted: "IPv4_String i = dotted (octets i)"
  by (simp add: IPv4_String_def dotted_def octets_def unat_and_255)

lemma length_octets [simp]: "length (octets i) = 4"
  by (simp add: octets_def)

lemma parse_bits_dec: "parse_bits (dec (unat (b :: byte))) = Inr (ucast b)"
  using unsigned_less [of b, where ?'a = nat]
  by (simp add: parse_bits_def ParseUint_dec)

lemma Split_IPv4_String:
  "Split (CHR ''.'') (dotted [a, b, c, d]) = map (\<lambda>x. dec (unat x)) [a, b, c, d]"
  unfolding dotted_def by (rule Split_Join) auto

lemma assemble_octets:
  "((0xff000000 AND (ucast (push_bit 24 (ucast (ucast (drop_bit 24 i) :: byte) :: 64 word)) :: IPv4)
   OR 0xff0000 AND ucast (push_bit 16 (ucast (ucast (drop_bit 16 i) :: byte) :: 64 word)))
   OR 0xff00 AND ucast (push_bit 8 (ucast (ucast (drop_bit 8 i) :: byte) :: 64 word)))
   OR 0xff AND ucast (ucast (ucast i :: byte) :: 64 word) = i"
proof -
  have m: "(0xff000000 :: IPv4) = push_bit 24 (mask 8)" "(0xff0000 :: IPv4) = push_bit 16 (mask 8)"
    "(0xff00 :: IPv4) = push_bit 8 (mask 8)" "(0xff :: IPv4) = mask 8"
    by (simp_all add: mask_numeral)
  show ?thesis
    unfolding m
  proof (rule bit_word_eqI)
    fix n assume "n < LENGTH(32)"
    then consider "n < 8" | "8 \<le> n" "n < 16" | "16 \<le> n" "n < 24" | "24 \<le> n" "n < 32"
      by fastforce
    then show "bit (((push_bit 24 (mask 8) AND (ucast (push_bit 24 (ucast (ucast (drop_bit 24 i) :: byte) :: 64 word)) :: IPv4)
       OR push_bit 16 (mask 8) AND ucast (push_bit 16 (ucast (ucast (drop_bit 16 i) :: byte) :: 64 word)))
       OR push_bit 8 (mask 8) AND ucast (push_bit 8 (ucast (ucast (drop_bit 8 i) :: byte) :: 64 word)))
       OR mask 8 AND ucast (ucast (ucast i :: byte) :: 64 word)) n = bit i n"
      by cases (auto simp: bit_simps)
  qed
qed

lemma ParseIPv4_String: "ParseIPv4 (IPv4_String i) = Inr i"
  using assemble_octets [of i]
  by (simp add: IPv4_String_dotted octets_def ParseIPv4_def Split_IPv4_String Let_def parse_bits_dec)

interpretation ip4: text_codec IPv4_String ParseIPv4
  by unfold_locales (rule ParseIPv4_String)

lemma unat_byte_of: "unat (ucast (drop_bit k (i :: IPv4)) :: byte) = unat i div 2 ^ k mod 256"
proof -
  have "unat (ucast (drop_bit k i) :: byte) = take_bit 8 (drop_bit k (unat i))"
    by (simp add: unsigned_ucast_eq unat_drop_bit_eq)
  then show ?thesis by (simp add: take_bit_eq_mod drop_bit_eq_div)
qed

lemma octets_of_octets:
  assumes "a < 256" "b < 256" "c < 256" "d < 256"
  shows "octets (of_octets a b c d) = [of_nat a, of_nat b, of_nat c, of_nat d]"
proof -
  define N where "N = 16777216 * a + 65536 * b + 256 * c + d"
  have "N < 2 ^ 32"
    using assms by (simp add: N_def)
  then have u: "unat (of_octets a b c d) = N"
    unfolding of_octets_def N_def [symmetric] by (subst unsigned_of_nat) (simp add: take_bit_nat_eq_self)
  have byte: "(ucast (drop_bit k (of_octets a b c d)) :: byte) = of_nat (N div 2 ^ k mod 256)" for k
    using unat_byte_of [of k "of_octets a b c d"] unfolding u by (metis of_nat_unat ucast_id)
  have "N div 2 ^ 24 = a" "N div 2 ^ 16 = 256 * a + b" "N div 2 ^ 8 = 256 * (256 * a + b) + c"
    "N = 256 * (65536 * a + 256 * b + c) + d"
    using assms unfolding N_def by (auto intro!: div_nat_eqI)
  moreover have "(256 * q + r) mod 256 = r" if "r < 256" for q r :: nat
    using that by simp
  ultimately have "N div 2 ^ 24 mod 256 = a" "N div 2 ^ 16 mod 256 = b" "N div 2 ^ 8 mod 256 = c" "N mod 256 = d"
    using assms by (metis mod_less, metis+)
  then show ?thesis
    using byte [of 24] byte [of 16] byte [of 8] byte [of 0] by (simp add: octets_def)
qed

lemma parse_bits_Inr:
  "parse_bits s = Inr w \<longleftrightarrow> (\<exists>n < 256. ParseUint s 8 = Inr n \<and> w = of_nat n)"
  using ParseUint_bound [of s 8]
  by (cases "ParseUint s 8") (auto simp: parse_bits_def)

lemma ucast64_byte: "n < 256 \<Longrightarrow> (ucast (of_nat n :: byte) :: 64 word) = of_nat n"
proof -
  assume "n < 256"
  then have "unat (of_nat n :: byte) = n"
    by (simp add: unsigned_of_nat take_bit_nat_eq_self)
  then show ?thesis by (metis of_nat_unat)
qed

text \<open>The value the parser assembles from four octets, in the order of its shifts.\<close>

lemma assemble_of_octets:
  assumes "a < 256" "b < 256" "c < 256" "d < 256"
  shows "((0xff000000 AND (ucast (push_bit 24 (of_nat a :: 64 word)) :: IPv4)
     OR 0xff0000 AND ucast (push_bit 16 (of_nat b :: 64 word)))
     OR 0xff00 AND ucast (push_bit 8 (of_nat c :: 64 word)))
     OR 0xff AND ucast (of_nat d :: 64 word) = of_octets a b c d"
  using assemble_octets [of "of_octets a b c d"] octets_of_octets [OF assms] assms
  by (simp add: octets_def ucast64_byte)

lemma ParseIPv4_Inr:
  "ParseIPv4 s = Inr i \<longleftrightarrow>
     (\<exists>a b c d na nb nc nd. Split (CHR ''.'') s = [a, b, c, d] \<and>
        ParseUint a 8 = Inr na \<and> ParseUint b 8 = Inr nb \<and>
        ParseUint c 8 = Inr nc \<and> ParseUint d 8 = Inr nd \<and>
        i = of_octets na nb nc nd)"  (is "?L \<longleftrightarrow> ?R")
proof
  assume L: ?L
  then have "length (Split (CHR ''.'') s) = 4"
    by (auto simp: ParseIPv4_def Let_def split: if_splits)
  then obtain a b c d where sp: "Split (CHR ''.'') s = [a, b, c, d]"
    by (auto simp: eval_nat_numeral length_Suc_conv)
  with L show ?R
    by (fastforce simp: ParseIPv4_def Let_def andthen_eq_Inr parse_bits_Inr assemble_of_octets)
next
  assume ?R
  then obtain a b c d na nb nc nd where sp: "Split (CHR ''.'') s = [a, b, c, d]"
    and p: "ParseUint a 8 = Inr na" "ParseUint b 8 = Inr nb" "ParseUint c 8 = Inr nc" "ParseUint d 8 = Inr nd"
    and i: "i = of_octets na nb nc nd" by blast
  from p have lt: "na < 256" "nb < 256" "nc < 256" "nd < 256"
    by (auto dest: ParseUint_bound)
  show ?L
    using sp p by (simp add: ParseIPv4_def parse_bits_def Let_def assemble_of_octets lt i)
qed

section \<open>Pool addresses as net.IP values\<close>

lemma ip_of_net_IPv4:
  "ip_of i = net_IPv4 (ucast (drop_bit 24 i)) (ucast (drop_bit 16 i)) (ucast (drop_bit 8 i)) (ucast i)"
  by (simp add: ip_of_def net_IPv4_def octets_def)

lemma ParseIP_IPv4_String [simp]: "ParseIP (IPv4_String i) = ip_of i"
  by (simp add: IPv4_String_dotted octets_def ParseIP_dotted ip_of_net_IPv4)

lemma To4_ip_of [simp]: "To4 (ip_of i) = Some (octets i)"
  by (simp add: ip_of_net_IPv4 octets_def)

lemma IP_String_ip_of [simp]: "IP_String (ip_of i) = IPv4_String i"
  by (simp add: IP_String_To4 IPv4_String_dotted)

lemma octets_inj: "octets i = octets j \<longleftrightarrow> i = j"
  using ip4.show_inj by (metis IPv4_String_dotted)

lemma ip_of_inj [simp]: "ip_of i = ip_of j \<longleftrightarrow> i = j"
  by (simp add: ip_of_def octets_inj)

lemma ip_of_not_nil [simp]: "ip_of i \<noteq> None"
  by (simp add: ip_of_def)

lemma IPv4zero_ip_of: "IPv4zero = ip_of 0"
  by (simp add: IPv4zero_def ip_of_net_IPv4)

lemma IP_Equal_ip_of [simp]: "IP_Equal (ip_of i) (ip_of j) \<longleftrightarrow> i = j"
  by (simp add: IP_Equal_To4 octets_inj)

lemma four_octets: "length bs = 4 \<Longrightarrow> \<exists>i. bs = octets i"
proof -
  assume "length bs = 4"
  then obtain a b c d where bs: "bs = [a, b, c, d]"
    by (auto simp: eval_nat_numeral length_Suc_conv)
  have "bs = octets (of_octets (unat a) (unat b) (unat c) (unat d))"
    by (subst octets_of_octets) (simp_all add: bs unat_byte_less)
  then show ?thesis by blast
qed

text \<open>Every address with an IPv4 form prints as a pool address does.\<close>

lemma To4_IPv4: "To4 ip = Some bs \<Longrightarrow> \<exists>i. bs = octets i \<and> IP_String ip = IPv4_String i"
  using four_octets IP_String_To4 IPv4_String_dotted length_To4 by metis

section \<open>Properties\<close>

text \<open>C30: printing an address and parsing the text gives the address back, and different addresses
  have different texts, so that the text can serve as its key in the lease cache.\<close>

theorem ipv4_text_roundtrip: "ParseIPv4 (IPv4_String i) = Inr i \<and> (IPv4_String i = IPv4_String j \<longleftrightarrow> i = j)"
  by (simp add: ip4.read_show ip4.show_inj)

end
