(* ===== verification/Dhcp_Api.thy ===== *)
theory Dhcp_Api
  imports Dhcp_IPv4
begin

text \<open>
  \<^verbatim>\<open>dhcp/api.go\<close>: the data of the server. The structs are records with the fields of
  the source, prefixed by the struct. A \<^verbatim>\<open>*Lease\<close> is an index into the store of leases
  (\<open>lease_heap\<close>): the cache of a subnet holds the same pointer under the address and
  under the hardware address, the handlers write through it, and the responses carry
  it, so the aliasing is part of the model. A \<^verbatim>\<open>*Subnet\<close> is held by the server's map
  only and is named by its key. Mutexes are not data: each operation is one atomic step.

  The package \<^verbatim>\<open>insomniacslk/dhcp/dhcpv4\<close> is not part of the repository. Of its packet
  the record \<open>DHCPv4\<close> keeps the fields the source names, and the functions of the
  package that the source calls are the fields of \<open>dhcpv4_lib\<close>, a parameter of every
  definition that uses them.
\<close>

section \<open>Structs\<close>

record DhcpOption =
  opt_ID :: byte
  opt_Type :: string
  opt_Value :: string

type_synonym SubnetAddrPrefix = string

type_synonym interfaceName = string

record Host =
  host_Subnet :: string
  host_MAC :: string
  host_IP :: net_IP
  host_Gateway :: net_IP
  host_ServerHostName :: string
  host_BootFileName :: string
  host_DNS :: "string list"
  host_Options :: "DhcpOption list"
  host_LeaseTime :: int
  host_HostName :: string

record Lease =
  lease_Subnet :: SubnetAddrPrefix
  lease_MAC :: string
  lease_IP :: net_IP
  lease_NetMask :: string
  lease_Gateway :: net_IP
  lease_ServerHostName :: string
  lease_BootFileName :: string
  lease_DNS :: "string list"
  lease_Options :: "DhcpOption list"
  lease_LeaseTime :: int
  lease_HostName :: string
  lease_ServerId :: net_IP
  lease_LastUpdate :: go_time
  lease_AckSent :: bool

type_synonym lref = nat

type_synonym lease_heap = "Lease list"

record Subnet =
  sn_Subnet :: SubnetAddrPrefix
  sn_RangeFrom :: string
  sn_RangeTo :: string
  sn_Gateway :: string
  sn_DNS :: "string list"
  sn_Options :: "DhcpOption list"
  sn_LeaseTime :: int
  sn_ServerHostName :: string
  sn_BootFileName :: string
  sn_iPFrom :: IPv4
  sn_iPTo :: IPv4
  sn_ipNet :: IPNet
  sn_currentIP :: IPv4
  sn_leaseCache :: "string \<rightharpoonup> lref"
  sn_netMask :: string
  sn_serverIPAddress :: net_IP

record Listen =
  listen_Name :: string
  listen_Interface :: string
  listen_Addr :: string

definition Listen_ToString :: "Listen \<Rightarrow> string" where
  "Listen_ToString l =
     (let ifname = (if listen_Interface l \<noteq> [] then listen_Interface l else ''*'');
          laddr = (if listen_Addr l \<noteq> [] then listen_Addr l else ''*'')
      in ifname @ '':'' @ laddr)"

section \<open>The dhcpv4 package\<close>

datatype MessageType =
  MessageTypeDiscover | MessageTypeOffer | MessageTypeRequest | MessageTypeAck | MessageTypeOther nat

record DHCPv4 =
  OpCode :: byte
  ClientHWAddr :: "byte list"
  GatewayIPAddr :: net_IP
  YourIPAddr :: net_IP
  ServerIPAddr :: net_IP
  BootFileName :: string
  ServerHostName :: string
  Options :: "byte \<rightharpoonup> byte list"

text \<open>The options the source hands to \<^verbatim>\<open>UpdateOption\<close>, by the constructor it calls.\<close>

datatype OptionValue =
  OptString string | OptIP net_IP | OptionGeneric "byte list"

datatype pkt_option =
  GenericOption byte OptionValue
| OptSubnetMask net_IPMask
| OptIPAddressLeaseTime int
| OptDNS "net_IP list"
| OptMessageType MessageType

record dhcpv4_lib =
  lib_MessageType :: "DHCPv4 \<Rightarrow> MessageType"
  lib_RequestedIPAddress :: "DHCPv4 \<Rightarrow> net_IP"
  lib_ServerIdentifier :: "DHCPv4 \<Rightarrow> net_IP"
  lib_NewReplyFromRequest :: "DHCPv4 \<Rightarrow> (string, DHCPv4 option) result"
  lib_UpdateOption :: "pkt_option \<Rightarrow> DHCPv4 \<Rightarrow> DHCPv4"

section \<open>Requests and responses\<close>

type_synonym socket_id = nat

record Request =
  req_DHCPv4 :: DHCPv4
  req_Src :: string
  req_InterfaceName :: interfaceName
  req_Dst :: net_IP
  req_socket :: socket_id

record Response =
  resp_Request :: Request
  resp_Response :: DHCPv4
  resp_Lease :: "lref option"

section \<open>Errors of package dhcp\<close>

datatype dhcp_error =
  ErrIPv4 ipv4_error
| ErrFromGtTo
| ErrInvalidSubnet string
| ErrNum num_error
| ErrListenExists string
| ErrListenAddress string
| ErrSocket string
| ErrOverlap string string
| ErrSubnetNotFound string
| ErrNoSubnetForLease SubnetAddrPrefix
| ErrNoSubnetForLeaseIP net_IP
| ErrNoSubnetForHost net_IP string
| ErrHostNotFound net_IP string
| ErrUnknownListen string
| ErrUnknownServerId string
| ErrUnknownSubnet string net_IP interfaceName
| ErrUnknownPacketType MessageType
| ErrNilLease
| ErrReply string
| ErrNoReply
| ErrUnknownOptionType string
| ErrNoSaveCallback
| ErrLocalAddresses string

end
