(* ===== verification/Dhcp_Subnet.thy ===== *)
theory Dhcp_Subnet
  imports Dhcp_Api
begin

text \<open>
  \<^verbatim>\<open>dhcp/subnet.go\<close> and the lease helpers of \<^verbatim>\<open>dhcp/util.go\<close>: a subnet with its pool
  of addresses and its lease cache.
\<close>

section \<open>Definitions\<close>

definition defaultLeaseTime :: int where
  "defaultLeaseTime = 14400"

definition Subnet_Contains :: "Subnet \<Rightarrow> net_IP \<Rightarrow> bool" where
  "Subnet_Contains s ip = IPNet_Contains (sn_ipNet s) ip"

text \<open>
  \<^verbatim>\<open>InitializeSubnet\<close> ranges over a map: \<open>addrs\<close> are its values in the order the
  iteration visits them, so the last visited address inside the network wins.
\<close>

definition pick_server_address :: "Subnet \<Rightarrow> net_IP list list \<Rightarrow> Subnet" where
  "pick_server_address s addrs =
     fold (\<lambda>as s. fold (\<lambda>a s. if Subnet_Contains s a then s\<lparr>sn_serverIPAddress := a\<rparr> else s) as s)
       addrs s"

definition InitializeSubnet :: "Subnet \<Rightarrow> net_IP list list \<Rightarrow> (dhcp_error, Subnet) result" where
  "InitializeSubnet subnet addrs =
     andthen (map_sum ErrIPv4 id (ParseIPv4 (sn_RangeFrom subnet))) (\<lambda>from.
     andthen (map_sum ErrIPv4 id (ParseIPv4 (sn_RangeTo subnet))) (\<lambda>to.
     if from > to then Inl ErrFromGtTo
     else
       let subnet = subnet\<lparr>sn_iPFrom := from, sn_iPTo := to, sn_leaseCache := Map.empty\<rparr>;
           subnet = (if sn_LeaseTime subnet = 0 then subnet\<lparr>sn_LeaseTime := defaultLeaseTime\<rparr> else subnet);
           sn = Split (CHR ''/'') (sn_Subnet subnet)
       in if length sn \<noteq> 2 then Inl (ErrInvalidSubnet (sn_Subnet subnet))
          else
            andthen (map_sum ErrNum id (ParseInt (sn ! 1) 8)) (\<lambda>prefixLength.
            let ipAddr = ParseIP (sn ! 0);
                ipMask = CIDRMask prefixLength 32;
                subnet = subnet\<lparr>sn_ipNet := \<lparr>IPNet_IP = ipAddr, IPNet_Mask = ipMask\<rparr>,
                                sn_netMask := IP_String ipMask\<rparr>
            in Inr (pick_server_address subnet addrs))))"

definition incrementCurrentIP :: "Subnet \<Rightarrow> Subnet" where
  "incrementCurrentIP s =
     (let s = s\<lparr>sn_currentIP := IPv4_Inc (sn_currentIP s)\<rparr> in
      if sn_currentIP s > sn_iPTo s then s\<lparr>sn_currentIP := sn_iPFrom s\<rparr> else s)"

definition Subnet_AddLease :: "lease_heap \<Rightarrow> Subnet \<Rightarrow> lref \<Rightarrow> Subnet" where
  "Subnet_AddLease h s l =
     (let ip = IP_String (lease_IP (h ! l));
          cache = (case sn_leaseCache s ip of
                     Some old \<Rightarrow> (sn_leaseCache s)(lease_MAC (h ! old) := None)
                   | None \<Rightarrow> sn_leaseCache s)
      in s\<lparr>sn_leaseCache := cache(ip \<mapsto> l, lease_MAC (h ! l) \<mapsto> l)\<rparr>)"

definition Subnet_DeleteHost :: "Subnet \<Rightarrow> Host \<Rightarrow> Subnet" where
  "Subnet_DeleteHost s host =
     s\<lparr>sn_leaseCache := (sn_leaseCache s)(host_MAC host := None, IP_String (host_IP host) := None)\<rparr>"

definition host_lease :: "Subnet \<Rightarrow> Host \<Rightarrow> Lease" where
  "host_lease s h =
     \<lparr>lease_Subnet = [], lease_MAC = host_MAC h, lease_IP = host_IP h, lease_NetMask = sn_netMask s,
      lease_Gateway = host_Gateway h, lease_ServerHostName = host_ServerHostName h,
      lease_BootFileName = host_BootFileName h, lease_DNS = host_DNS h,
      lease_Options = host_Options h, lease_LeaseTime = host_LeaseTime h,
      lease_HostName = host_HostName h, lease_ServerId = None, lease_LastUpdate = 0,
      lease_AckSent = False\<rparr>"

definition Subnet_AddHost :: "lease_heap \<Rightarrow> Subnet \<Rightarrow> Host \<Rightarrow> lease_heap \<times> Subnet" where
  "Subnet_AddHost h s host =
     (let h' = h @ [host_lease s host] in (h', Subnet_AddLease h' s (length h)))"

definition isAddressZero :: "net_IP \<Rightarrow> bool" where
  "isAddressZero ip \<longleftrightarrow> ip = None \<or> IP_Equal ip IPv4zero"

definition Lease_IsExpired :: "Lease \<Rightarrow> bool" where
  "Lease_IsExpired l = False"

definition NewLease :: "Subnet \<Rightarrow> go_time \<Rightarrow> string \<Rightarrow> net_IP \<Rightarrow> Lease" where
  "NewLease s now mac ip =
     \<lparr>lease_Subnet = sn_Subnet s, lease_MAC = mac, lease_IP = ip, lease_NetMask = sn_netMask s,
      lease_Gateway = ParseIP (sn_Gateway s), lease_ServerHostName = sn_ServerHostName s,
      lease_BootFileName = sn_BootFileName s, lease_DNS = sn_DNS s,
      lease_Options = sn_Options s, lease_LeaseTime = sn_LeaseTime s,
      lease_HostName = [], lease_ServerId = sn_serverIPAddress s, lease_LastUpdate = now,
      lease_AckSent = False\<rparr>"

text \<open>
  The loop that looks for an address. \<open>None\<close> would be a loop that never returns. The
  loop keeps in \<open>oldest\<close> the expired lease with the oldest update it has met.
\<close>

definition older_lease :: "lease_heap \<Rightarrow> go_time \<Rightarrow> lref option \<Rightarrow> lref \<Rightarrow> lref option" where
  "older_lease h expiredTime oldest r =
     (if lease_LastUpdate (h ! r) < expiredTime then
        (case oldest of
           None \<Rightarrow> Some r
         | Some q \<Rightarrow> if lease_LastUpdate (h ! q) > lease_LastUpdate (h ! r) then Some r else oldest)
      else oldest)"

partial_function (option) pool_loop ::
  "string \<Rightarrow> go_time \<Rightarrow> IPv4 \<Rightarrow> go_time \<Rightarrow> lease_heap \<Rightarrow> Subnet \<Rightarrow> lref option
   \<Rightarrow> (lease_heap \<times> Subnet \<times> lref option) option" where
  "pool_loop mac now firstIp expiredTime h s oldest =
     (case sn_leaseCache s (IPv4_String (sn_currentIP s)) of
        None \<Rightarrow>
          (let h' = h @ [NewLease s now mac (ParseIP (IPv4_String (sn_currentIP s)))]
           in Some (h', Subnet_AddLease h' s (length h), Some (length h)))
      | Some r \<Rightarrow>
          (let oldest' = older_lease h expiredTime oldest r;
               s' = incrementCurrentIP s
           in if firstIp = sn_currentIP s' then Some (h, s', oldest')
              else pool_loop mac now firstIp expiredTime h s' oldest'))"

text \<open>
  \<open>t\<close> is the reading of the clock for the expiry, \<open>now\<close> the one of \<^verbatim>\<open>NewLease\<close>. The
  result is the store, the subnet and the lease (\<open>None\<close> for the nil pointer).
\<close>

definition expired_before :: "go_time \<Rightarrow> int \<Rightarrow> go_time" where
  "expired_before t leaseTime = t + int64 (- Second * leaseTime)"

definition advance_pool :: "Subnet \<Rightarrow> Subnet" where
  "advance_pool s =
     (if sn_currentIP s = 0 then s\<lparr>sn_currentIP := sn_iPFrom s\<rparr> else incrementCurrentIP s)"

definition GetLeaseForRequest ::
  "dhcpv4_lib \<Rightarrow> go_time \<Rightarrow> go_time \<Rightarrow> lease_heap \<Rightarrow> Subnet \<Rightarrow> DHCPv4
   \<Rightarrow> (lease_heap \<times> Subnet \<times> lref option) option" where
  "GetLeaseForRequest lib t now h s req =
     (let mac = HardwareAddr_String (ClientHWAddr req);
          requestedAddress = lib_RequestedIPAddress lib req
      in case sn_leaseCache s mac of
           Some l \<Rightarrow>
             if \<not> isAddressZero requestedAddress \<and> \<not> IP_Equal requestedAddress (lease_IP (h ! l))
             then Some (h, s, None)
             else Some (h, s, Some l)
         | None \<Rightarrow>
             if \<not> isAddressZero requestedAddress then
               (case sn_leaseCache s (IP_String requestedAddress) of
                  Some l \<Rightarrow>
                    if Lease_IsExpired (h ! l) then
                      (let h' = h @ [NewLease s now mac requestedAddress]
                       in Some (h', Subnet_AddLease h' s (length h), Some (length h)))
                    else Some (h, s, None)
                | None \<Rightarrow> Some (h @ [NewLease s now mac requestedAddress], s, Some (length h)))
             else
               (let s' = advance_pool s
                in pool_loop mac now (sn_currentIP s') (expired_before t (sn_LeaseTime s')) h s' None))"

definition Subnet_DeleteLease :: "Subnet \<Rightarrow> Lease \<Rightarrow> Subnet" where
  "Subnet_DeleteLease s l =
     s\<lparr>sn_leaseCache := (sn_leaseCache s)(lease_MAC l := None, IP_String (lease_IP l) := None)\<rparr>"

definition isOverlap :: "Subnet \<Rightarrow> Subnet \<Rightarrow> bool" where
  "isOverlap s1 s2 \<longleftrightarrow> sn_Subnet s1 = sn_Subnet s2"

lemma NewLease_simps [simp]:
  "lease_MAC (NewLease s now mac ip) = mac"
  "lease_IP (NewLease s now mac ip) = ip"
  "lease_LastUpdate (NewLease s now mac ip) = now"
  by (simp_all add: NewLease_def)

end
