(* ===== verification/Dhcp_Server.thy ===== *)
theory Dhcp_Server
  imports Dhcp_Subnet
begin

text \<open>
  \<^verbatim>\<open>dhcp/server.go\<close>, \<^verbatim>\<open>GetLocalAddresses\<close> of \<^verbatim>\<open>dhcp/util.go\<close> and the constructor of
  \<^verbatim>\<open>dhcp/request_processor.go\<close>: the server's state and its operations. Every operation
  returns the new state and the error. The socket factory, the interfaces of the host and
  the dhcpv4 package are parameters; \<open>ord\<close> is the order in which a map is visited.
\<close>

section \<open>State\<close>

type_synonym LocalIPAddresses = "interfaceName \<rightharpoonup> net_IP list"

type_synonym SocketFactory = "string \<Rightarrow> string \<Rightarrow> (string, socket_id) result"

text \<open>
  Of the struct \<^verbatim>\<open>RequestProcessor\<close> the server reads the socket; the name is that of its logger.
  Its request channel, its server and its callback are those of the pipeline in the theory
  \<open>Dhcp_Processor\<close>.
\<close>

record RequestProcessor =
  rp_socket :: socket_id
  rp_name :: string

record Server =
  srv_listeners :: "string \<rightharpoonup> RequestProcessor"
  srv_subnets :: "SubnetAddrPrefix \<rightharpoonup> Subnet"
  srv_localIpAddresses :: LocalIPAddresses
  srv_serverIds :: "string \<rightharpoonup> bool"
  srv_socketFactory :: SocketFactory
  srv_leases :: lease_heap
  srv_closed :: "socket_id list"

text \<open>\<open>srv_leases\<close> is the store behind the lease pointers and \<open>srv_closed\<close> the sockets closed so far.\<close>

section \<open>GetLocalAddresses\<close>

definition add_local_address ::
  "interfaceName \<Rightarrow> string \<Rightarrow> LocalIPAddresses \<Rightarrow> LocalIPAddresses" where
  "add_local_address name addr rv =
     (let ifs = (case rv name of None \<Rightarrow> [] | Some ips \<Rightarrow> ips);
          a = Split (CHR ''/'') addr ! 0
      in if CHR '':'' \<in> set a then rv else rv(name \<mapsto> ifs @ [ParseIP a]))"

fun local_addresses_loop ::
  "(interfaceName \<times> (string, string list) result) list \<Rightarrow> LocalIPAddresses \<Rightarrow> (string, LocalIPAddresses) result" where
  "local_addresses_loop [] rv = Inr rv"
| "local_addresses_loop ((name, addrs) # ifs) rv =
     andthen addrs (\<lambda>as. local_addresses_loop ifs (fold (add_local_address name) as rv))"

definition GetLocalAddresses ::
  "(string, (interfaceName \<times> (string, string list) result) list) result \<Rightarrow> (string, LocalIPAddresses) result" where
  "GetLocalAddresses interfaces = andthen interfaces (\<lambda>ifs. local_addresses_loop ifs Map.empty)"

section \<open>NewServer\<close>

record ServerConfig =
  cfg_SocketFactory :: "SocketFactory option"
  cfg_LocalAddressesGetter :: "(string, LocalIPAddresses) result option"
  cfg_HasLogger :: bool
  cfg_HasCallbackSaveLeases :: bool

datatype new_server = ExitFatal | NewServerResult "Server option" "dhcp_error option"

definition server_ids :: "net_IP list list \<Rightarrow> (string \<rightharpoonup> bool)" where
  "server_ids ipss = fold (\<lambda>ips m. fold (\<lambda>ip m. m(IP_String ip \<mapsto> True)) ips m) ipss Map.empty"

text \<open>
  \<open>udp\<close> and \<open>getter\<close> are the defaults \<^verbatim>\<open>NewUDPSocket\<close> and \<^verbatim>\<open>GetLocalAddresses\<close>; a failing
  getter gives a server without local addresses together with the error.
\<close>

definition NewServer ::
  "SocketFactory \<Rightarrow> (string, LocalIPAddresses) result \<Rightarrow> interfaceName list \<Rightarrow> ServerConfig \<Rightarrow> new_server" where
  "NewServer udp getter ord c =
     (let factory = (case cfg_SocketFactory c of None \<Rightarrow> udp | Some f \<Rightarrow> f);
          addrs = (case cfg_LocalAddressesGetter c of None \<Rightarrow> getter | Some g \<Rightarrow> g)
      in if \<not> cfg_HasCallbackSaveLeases c then NewServerResult None (Some ErrNoSaveCallback)
         else if \<not> cfg_HasLogger c then ExitFatal
         else
           let (local, err) = (case addrs of Inl e \<Rightarrow> (Map.empty, Some (ErrLocalAddresses e)) | Inr m \<Rightarrow> (m, None))
           in NewServerResult
                (Some \<lparr>srv_listeners = Map.empty, srv_subnets = Map.empty, srv_localIpAddresses = local,
                   srv_serverIds = server_ids (in_order ord local), srv_socketFactory = factory,
                   srv_leases = [], srv_closed = []\<rparr>) err)"

section \<open>Listeners\<close>

definition NewRequestProcessor :: "Listen \<Rightarrow> SocketFactory \<Rightarrow> (dhcp_error, RequestProcessor) result" where
  "NewRequestProcessor listen factory =
     andthen (map_sum ErrSocket id (factory (listen_Addr listen) (listen_Interface listen))) (\<lambda>socket.
     Inr \<lparr>rp_socket = socket, rp_name = ''listener['' @ Listen_ToString listen @ '']''\<rparr>)"

definition Server_AddListen :: "Server \<Rightarrow> Listen \<Rightarrow> Server \<times> dhcp_error option" where
  "Server_AddListen srv listen =
     (if srv_listeners srv (listen_Name listen) \<noteq> None then (srv, Some (ErrListenExists (listen_Name listen)))
      else case NewRequestProcessor listen (srv_socketFactory srv) of
             Inl e \<Rightarrow> (srv, Some e)
           | Inr rp \<Rightarrow> (srv\<lparr>srv_listeners := (srv_listeners srv)(listen_Name listen \<mapsto> rp)\<rparr>, None))"

definition Server_DeleteListen :: "Server \<Rightarrow> string \<Rightarrow> Server \<times> dhcp_error option" where
  "Server_DeleteListen srv name =
     (case srv_listeners srv name of
        None \<Rightarrow> (srv, Some (ErrUnknownListen name))
      | Some rp \<Rightarrow>
          (srv\<lparr>srv_closed := srv_closed srv @ [rp_socket rp],
               srv_listeners := (srv_listeners srv)(name := None)\<rparr>, None))"

definition Server_Close :: "string list \<Rightarrow> Server \<Rightarrow> Server" where
  "Server_Close ord srv =
     srv\<lparr>srv_closed := srv_closed srv @ map rp_socket (in_order ord (srv_listeners srv))\<rparr>"

section \<open>Subnets, leases and hosts\<close>

definition set_subnet :: "SubnetAddrPrefix \<Rightarrow> lease_heap \<times> Subnet \<Rightarrow> Server \<Rightarrow> Server" where
  "set_subnet k st srv = srv\<lparr>srv_subnets := (srv_subnets srv)(k \<mapsto> snd st), srv_leases := fst st\<rparr>"

definition Server_AddSubnet ::
  "interfaceName list \<Rightarrow> SubnetAddrPrefix list \<Rightarrow> Server \<Rightarrow> Subnet \<Rightarrow> Server \<times> dhcp_error option" where
  "Server_AddSubnet ordL ordS srv subnet =
     (case InitializeSubnet subnet (in_order ordL (srv_localIpAddresses srv)) of
        Inl e \<Rightarrow> (srv, Some e)
      | Inr sn \<Rightarrow>
          (case find (\<lambda>k. isOverlap (the (srv_subnets srv k)) sn) ordS of
             Some k \<Rightarrow> (srv, Some (ErrOverlap (sn_Subnet (the (srv_subnets srv k))) (sn_Subnet sn)))
           | None \<Rightarrow> (srv\<lparr>srv_subnets := (srv_subnets srv)(sn_Subnet sn \<mapsto> sn)\<rparr>, None)))"

definition Server_DeleteSubnet :: "Server \<Rightarrow> SubnetAddrPrefix \<Rightarrow> Server \<times> dhcp_error option" where
  "Server_DeleteSubnet srv subnet =
     (if srv_subnets srv subnet = None then (srv, Some (ErrSubnetNotFound subnet))
      else (srv\<lparr>srv_subnets := (srv_subnets srv)(subnet := None)\<rparr>, None))"

definition Server_AddLease :: "Server \<Rightarrow> lref \<Rightarrow> Server \<times> dhcp_error option" where
  "Server_AddLease srv l =
     (case srv_subnets srv (lease_Subnet (srv_leases srv ! l)) of
        None \<Rightarrow> (srv, Some (ErrNoSubnetForLease (lease_Subnet (srv_leases srv ! l))))
      | Some sn \<Rightarrow>
          (set_subnet (lease_Subnet (srv_leases srv ! l))
             (srv_leases srv, Subnet_AddLease (srv_leases srv) sn l) srv, None))"

text \<open>The first subnet in the order of the iteration that contains the address, by its key.\<close>

definition getSubnetForIp :: "SubnetAddrPrefix list \<Rightarrow> Server \<Rightarrow> net_IP \<Rightarrow> SubnetAddrPrefix option" where
  "getSubnetForIp ord srv ip = find (\<lambda>k. Subnet_Contains (the (srv_subnets srv k)) ip) ord"

definition Server_DeleteLease :: "SubnetAddrPrefix list \<Rightarrow> Server \<Rightarrow> Lease \<Rightarrow> Server \<times> dhcp_error option" where
  "Server_DeleteLease ord srv lease =
     (case getSubnetForIp ord srv (lease_IP lease) of
        None \<Rightarrow> (srv, Some (ErrNoSubnetForLeaseIP (lease_IP lease)))
      | Some k \<Rightarrow>
          (set_subnet k (srv_leases srv, Subnet_DeleteLease (the (srv_subnets srv k)) lease) srv, None))"

definition Server_AddHost :: "SubnetAddrPrefix list \<Rightarrow> Server \<Rightarrow> Host \<Rightarrow> Server \<times> dhcp_error option" where
  "Server_AddHost ord srv host =
     (case find (\<lambda>k. IPNet_Contains (sn_ipNet (the (srv_subnets srv k))) (host_IP host)) ord of
        Some k \<Rightarrow> (set_subnet k (Subnet_AddHost (srv_leases srv) (the (srv_subnets srv k)) host) srv, None)
      | None \<Rightarrow> (srv, Some (ErrNoSubnetForHost (host_IP host) (host_MAC host))))"

definition Server_DeleteHost :: "SubnetAddrPrefix list \<Rightarrow> Server \<Rightarrow> Host \<Rightarrow> Server \<times> dhcp_error option" where
  "Server_DeleteHost ord srv host =
     (case find (\<lambda>k. IPNet_Contains (sn_ipNet (the (srv_subnets srv k))) (host_IP host)) ord of
        Some k \<Rightarrow> (set_subnet k (srv_leases srv, Subnet_DeleteHost (the (srv_subnets srv k)) host) srv, None)
      | None \<Rightarrow> (srv, Some (ErrHostNotFound (host_IP host) (host_MAC host))))"

definition Server_GetLease :: "Server \<Rightarrow> SubnetAddrPrefix \<Rightarrow> string \<Rightarrow> lref option" where
  "Server_GetLease srv subnet mac =
     (case srv_subnets srv subnet of None \<Rightarrow> None | Some sn \<Rightarrow> sn_leaseCache sn mac)"

section \<open>Choosing the subnet of a request\<close>

text \<open>Each call of \<^verbatim>\<open>getSubnetForIp\<close> visits the subnets in an order of its own.\<close>

definition getSubnet :: "(net_IP \<Rightarrow> SubnetAddrPrefix list) \<Rightarrow> Server \<Rightarrow> Request \<Rightarrow> SubnetAddrPrefix option" where
  "getSubnet ords srv req =
     (let gw = GatewayIPAddr (req_DHCPv4 req) in
      if gw = None \<or> IP_Equal gw IPv4zero then
        (case srv_localIpAddresses srv (req_InterfaceName req) of
           None \<Rightarrow> None
         | Some ips \<Rightarrow>
             (case find (\<lambda>ip. getSubnetForIp (ords ip) srv ip \<noteq> None) ips of
                None \<Rightarrow> None
              | Some ip \<Rightarrow> getSubnetForIp (ords ip) srv ip))
      else getSubnetForIp (ords gw) srv gw)"

section \<open>Building the response\<close>

text \<open>The options of the lease; only the type \<^verbatim>\<open>string\<close> is known.\<close>

fun add_lease_options ::
  "dhcpv4_lib \<Rightarrow> DhcpOption list \<Rightarrow> DHCPv4 \<Rightarrow> (dhcp_error, DHCPv4) result" where
  "add_lease_options lib [] resp = Inr resp"
| "add_lease_options lib (x # xs) resp =
     (if opt_Type x = ''string''
      then add_lease_options lib xs (lib_UpdateOption lib (GenericOption (opt_ID x) (OptString (opt_Value x))) resp)
      else Inl (ErrUnknownOptionType (opt_Type x)))"

definition standard_options :: "Lease \<Rightarrow> pkt_option list" where
  "standard_options lease =
     [OptSubnetMask (To4 (ParseIP (lease_NetMask lease))),
      OptIPAddressLeaseTime (int64 (lease_LeaseTime lease * Second)),
      GenericOption 3 (OptIP (lease_Gateway lease)),
      OptDNS (map (\<lambda>dns. To4 (ParseIP dns)) (lease_DNS lease)),
      GenericOption 54 (OptIP (lease_ServerId lease)),
      GenericOption 43 (OptionGeneric [49, 50, 51])]"

text \<open>
  The packet part of \<^verbatim>\<open>getResponse\<close>, after the lease was found and the reply made.
  \<open>Inr None\<close> is the return of nil without an error for a message type it does not know.
\<close>

definition fill_response ::
  "dhcpv4_lib \<Rightarrow> MessageType \<Rightarrow> net_IP \<Rightarrow> Lease \<Rightarrow> DHCPv4 \<Rightarrow> (dhcp_error, DHCPv4 option) result" where
  "fill_response lib mt serverIP lease resp =
     (let resp = resp\<lparr>YourIPAddr := lease_IP lease, ServerIPAddr := serverIP\<rparr> in
      andthen (add_lease_options lib (lease_Options lease) resp) (\<lambda>resp.
      let resp = resp\<lparr>BootFileName := lease_BootFileName lease, ServerHostName := lease_ServerHostName lease\<rparr>;
          resp = fold (lib_UpdateOption lib) (standard_options lease) resp
      in case mt of
           MessageTypeRequest \<Rightarrow> Inr (Some (lib_UpdateOption lib (OptMessageType MessageTypeAck) resp))
         | MessageTypeDiscover \<Rightarrow> Inr (Some (lib_UpdateOption lib (OptMessageType MessageTypeOffer) resp))
         | _ \<Rightarrow> Inr None))"

text \<open>
  \<open>None\<close> would be a search that never returns. The result is the new state and the
  triple of the source: the reply, the lease and the error.
\<close>

definition getResponse ::
  "dhcpv4_lib \<Rightarrow> go_time \<Rightarrow> go_time \<Rightarrow> Server \<Rightarrow> Request \<Rightarrow> SubnetAddrPrefix
   \<Rightarrow> (Server \<times> DHCPv4 option \<times> lref option \<times> dhcp_error option) option" where
  "getResponse lib t now srv req k =
     (case GetLeaseForRequest lib t now (srv_leases srv) (the (srv_subnets srv k)) (req_DHCPv4 req) of
        None \<Rightarrow> None
      | Some (h, sn, None) \<Rightarrow> Some (set_subnet k (h, sn) srv, None, None, Some ErrNilLease)
      | Some (h, sn, Some l) \<Rightarrow>
          (let srv1 = set_subnet k (h, sn) srv in
           case lib_NewReplyFromRequest lib (req_DHCPv4 req) of
             Inl e \<Rightarrow> Some (srv1, None, Some l, Some (ErrReply e))
           | Inr None \<Rightarrow> Some (srv1, None, Some l, Some ErrNoReply)
           | Inr (Some resp) \<Rightarrow>
               (let lease = (h ! l)\<lparr>lease_ServerId := sn_serverIPAddress sn\<rparr>;
                    srv2 = srv1\<lparr>srv_leases := h[l := lease]\<rparr>
                in case fill_response lib (lib_MessageType lib (req_DHCPv4 req)) (sn_serverIPAddress sn) lease resp of
                     Inl e \<Rightarrow> Some (srv2, None, None, Some e)
                   | Inr None \<Rightarrow> Some (srv2, None, None, None)
                   | Inr (Some resp) \<Rightarrow> Some (srv2, Some resp, Some l, None))))"

definition GetResponse ::
  "dhcpv4_lib \<Rightarrow> (net_IP \<Rightarrow> SubnetAddrPrefix list) \<Rightarrow> go_time \<Rightarrow> go_time \<Rightarrow> Server \<Rightarrow> Request
   \<Rightarrow> (Server \<times> (dhcp_error, Response) result) outcome option" where
  "GetResponse lib ords t now srv req =
     (let p = req_DHCPv4 req; sid = lib_ServerIdentifier lib p in
      if sid \<noteq> None \<and> \<not> IP_Equal sid IPv4zero \<and> srv_serverIds srv (IP_String sid) = None
      then Some (Returns (srv, Inl (ErrUnknownServerId (IP_String sid))))
      else case getSubnet ords srv req of
        None \<Rightarrow> Some (Returns (srv, Inl (ErrUnknownSubnet (req_Src req) (GatewayIPAddr p) (req_InterfaceName req))))
      | Some k \<Rightarrow>
          (if lib_MessageType lib p = MessageTypeDiscover \<or> lib_MessageType lib p = MessageTypeRequest then
             (case getResponse lib t now srv req k of
                None \<Rightarrow> None
              | Some (srv', _, _, Some e) \<Rightarrow> Some (Returns (srv', Inl e))
              | Some (srv', Some resp, Some l, None) \<Rightarrow>
                  (let serverIP = sn_serverIPAddress (the (srv_subnets srv' k));
                       srv'' = srv'\<lparr>srv_leases := (srv_leases srv')[l := (srv_leases srv' ! l)\<lparr>lease_ServerId := serverIP\<rparr>]\<rparr>
                   in Some (Returns (srv'', Inr \<lparr>resp_Request = req, resp_Response = resp, resp_Lease = Some l\<rparr>)))
              | Some (_, _, _, None) \<Rightarrow> Some Panics)
           else Some (Returns (srv, Inl (ErrUnknownPacketType (lib_MessageType lib p))))))"

end
