(* ===== verification/K8s_Types.thy ===== *)
theory K8s_Types
  imports Dhcp_Server
begin

text \<open>
  \<^verbatim>\<open>api/v1alpha1\<close>: the Kubernetes objects and their translation to the data of the
  server. Of the object metadata the source uses the namespace and the name. The
  reconcilers work on values, so the records here are the values of the objects; the objects
  as Go lays them out, with their metadata, list types, owner references and deep copies,
  are in the theory \<open>K8s_DeepCopy\<close>.
\<close>

record ApiOption =
  aopt_ID :: byte
  aopt_Type :: string
  aopt_Value :: string

record ApiLease =
  alease_IP :: string
  alease_UpdatedAt :: go_time

type_synonym ObjectKey = "string \<times> string"

record DHCPHostSpec =
  hspec_Subnet :: string
  hspec_MAC :: string
  hspec_IP :: string
  hspec_Gateway :: string
  hspec_HostName :: string
  hspec_DNS :: "string list"
  hspec_Options :: "ApiOption list"
  hspec_ServerHostName :: string
  hspec_BootFileName :: string
  hspec_LeaseTime :: int

record DHCPHost =
  host_Key :: ObjectKey
  host_Spec :: DHCPHostSpec

record DHCPServerSpec =
  vspec_ListenInterface :: string
  vspec_ListenAddress :: string
  vspec_ReuseAddr :: bool

record DHCPServerStatus =
  vstat_ErrorMessage :: string
  vstat_LastUpdate :: go_time

record DHCPServer =
  server_Key :: ObjectKey
  server_Spec :: DHCPServerSpec
  server_Status :: DHCPServerStatus

record DHCPSubnetSpec =
  sspec_Subnet :: string
  sspec_RangeFrom :: string
  sspec_RangeTo :: string
  sspec_Gateway :: string
  sspec_DNS :: "string list"
  sspec_Options :: "ApiOption list"
  sspec_ServerHostName :: string
  sspec_BootFileName :: string
  sspec_LeaseTime :: int

record DHCPSubnetStatus =
  sstat_ErrorMessage :: string
  sstat_Leases :: "(string \<rightharpoonup> ApiLease) option"

record DHCPSubnet =
  subnet_Key :: ObjectKey
  subnet_Spec :: DHCPSubnetSpec
  subnet_Status :: DHCPSubnetStatus

text \<open>The loop that appends the options of a specification one by one.\<close>

definition to_option :: "ApiOption \<Rightarrow> DhcpOption" where
  "to_option x = \<lparr>opt_ID = aopt_ID x, opt_Type = aopt_Type x, opt_Value = aopt_Value x\<rparr>"

definition to_options :: "ApiOption list \<Rightarrow> DhcpOption list" where
  "to_options xs = foldl (\<lambda>ys x. ys @ [to_option x]) [] xs"

definition ToDHCPHost :: "DHCPHost \<Rightarrow> Host" where
  "ToDHCPHost s =
     (let spec = host_Spec s in
      \<lparr>host_Subnet = [], host_MAC = hspec_MAC spec, host_IP = ParseIP (hspec_IP spec),
       host_Gateway = ParseIP (hspec_Gateway spec), host_ServerHostName = hspec_ServerHostName spec,
       host_BootFileName = hspec_BootFileName spec, host_DNS = hspec_DNS spec,
       host_Options = to_options (hspec_Options spec), host_LeaseTime = hspec_LeaseTime spec,
       host_HostName = hspec_HostName spec\<rparr>)"

definition ToListen :: "DHCPServer \<Rightarrow> Listen" where
  "ToListen s =
     \<lparr>listen_Name = snd (server_Key s), listen_Interface = vspec_ListenInterface (server_Spec s),
      listen_Addr = vspec_ListenAddress (server_Spec s)\<rparr>"

definition ToSubnet :: "DHCPSubnet \<Rightarrow> Subnet" where
  "ToSubnet s =
     (let spec = subnet_Spec s in
      \<lparr>sn_Subnet = sspec_Subnet spec, sn_RangeFrom = sspec_RangeFrom spec, sn_RangeTo = sspec_RangeTo spec,
       sn_Gateway = sspec_Gateway spec, sn_DNS = sspec_DNS spec, sn_Options = to_options (sspec_Options spec),
       sn_LeaseTime = sspec_LeaseTime spec, sn_ServerHostName = sspec_ServerHostName spec,
       sn_BootFileName = sspec_BootFileName spec, sn_iPFrom = 0, sn_iPTo = 0,
       sn_ipNet = \<lparr>IPNet_IP = None, IPNet_Mask = None\<rparr>, sn_currentIP = 0, sn_leaseCache = Map.empty,
       sn_netMask = [], sn_serverIPAddress = None\<rparr>)"

lemma to_options_map: "to_options xs = map to_option xs"
proof -
  have "foldl (\<lambda>ys x. ys @ [to_option x]) acc xs = acc @ map to_option xs" for acc
    by (induction xs arbitrary: acc) simp_all
  then show ?thesis by (simp add: to_options_def)
qed

lemma ToSubnet_simps [simp]:
  "sn_Subnet (ToSubnet s) = sspec_Subnet (subnet_Spec s)"
  "sn_currentIP (ToSubnet s) = 0"
  by (simp_all add: ToSubnet_def Let_def)

lemma ToDHCPHost_simps [simp]:
  "host_MAC (ToDHCPHost s) = hspec_MAC (host_Spec s)"
  "host_IP (ToDHCPHost s) = ParseIP (hspec_IP (host_Spec s))"
  by (simp_all add: ToDHCPHost_def Let_def)

end
