(* ===== verification/K8s_Cache.thy ===== *)
theory K8s_Cache
  imports K8s_Types
begin

text \<open>
  \<^verbatim>\<open>controllers/storage.go\<close>: the cache of objects whose owners are not yet known. The map
  of known leases is nil in a new cache (\<open>None\<close>): reading it finds nothing, writing to
  it panics.
\<close>

record ObjectsCache =
  oc_knownSubnets :: "SubnetAddrPrefix \<rightharpoonup> Subnet"
  oc_unknownHosts :: "SubnetAddrPrefix \<rightharpoonup> DHCPHost list"
  oc_knownListens :: "string \<rightharpoonup> DHCPServer"
  oc_knownLeases :: "(string \<rightharpoonup> bool) option"

definition NewObjectsCache :: ObjectsCache where
  "NewObjectsCache =
     \<lparr>oc_knownSubnets = Map.empty, oc_unknownHosts = Map.empty, oc_knownListens = Map.empty, oc_knownLeases = None\<rparr>"

definition Cache_AddLease :: "ObjectsCache \<Rightarrow> string \<Rightarrow> ObjectsCache outcome" where
  "Cache_AddLease s mac =
     (case oc_knownLeases s of
        None \<Rightarrow> Panics
      | Some m \<Rightarrow> Returns (s\<lparr>oc_knownLeases := Some (m(mac \<mapsto> True))\<rparr>))"

definition Cache_HasLease :: "ObjectsCache \<Rightarrow> string \<Rightarrow> bool" where
  "Cache_HasLease s mac =
     (case oc_knownLeases s of None \<Rightarrow> False | Some m \<Rightarrow> (case m mac of None \<Rightarrow> False | Some b \<Rightarrow> b))"

definition AddHostIfNotKnown :: "ObjectsCache \<Rightarrow> DHCPHost \<Rightarrow> ObjectsCache \<times> bool" where
  "AddHostIfNotKnown s host =
     (let subnetName = hspec_Subnet (host_Spec host) in
      if oc_knownSubnets s subnetName = None then
        (case oc_unknownHosts s subnetName of
           None \<Rightarrow> (s\<lparr>oc_unknownHosts := (oc_unknownHosts s)(subnetName \<mapsto> [host])\<rparr>, True)
         | Some hosts \<Rightarrow> (s\<lparr>oc_unknownHosts := (oc_unknownHosts s)(subnetName \<mapsto> hosts @ [host])\<rparr>, True))
      else (s, False))"

definition AddSubnetIfNotKnown :: "ObjectsCache \<Rightarrow> Subnet \<Rightarrow> ObjectsCache \<times> bool" where
  "AddSubnetIfNotKnown s subnet =
     (if oc_knownSubnets s (sn_Subnet subnet) \<noteq> None then (s, False)
      else (s\<lparr>oc_knownSubnets := (oc_knownSubnets s)(sn_Subnet subnet \<mapsto> subnet)\<rparr>, True))"

definition PopUnknownHosts :: "ObjectsCache \<Rightarrow> SubnetAddrPrefix \<Rightarrow> ObjectsCache \<times> DHCPHost list" where
  "PopUnknownHosts s subnet =
     (s\<lparr>oc_unknownHosts := (oc_unknownHosts s)(subnet := None)\<rparr>,
      case oc_unknownHosts s subnet of None \<Rightarrow> [] | Some hosts \<Rightarrow> hosts)"

section \<open>The hosts that wait for their subnet\<close>

text \<open>
  The queue of a subnet as an abstract interface: hosts wait until the subnet is known
  and are then taken once, all of them, in the order of their arrival.
\<close>

locale waiting_room =
  fixes waiting :: "'s \<Rightarrow> 'k \<Rightarrow> 'h list"
    and known :: "'s \<Rightarrow> 'k \<Rightarrow> bool"
    and home :: "'h \<Rightarrow> 'k"
    and arrive :: "'h \<Rightarrow> 's \<Rightarrow> 's"
    and take_all :: "'k \<Rightarrow> 's \<Rightarrow> 's"
  assumes arrive_waits: "\<not> known s (home h) \<Longrightarrow>
      waiting (arrive h s) k = (if k = home h then waiting s k @ [h] else waiting s k)"
    and arrive_known: "known s (home h) \<Longrightarrow> arrive h s = s"
    and arrive_keeps: "known (arrive h s) k = known s k"
    and take_all_waiting: "waiting (take_all j s) k = (if k = j then [] else waiting s k)"
begin

lemma arrivals_wait:
  "\<not> known s k \<Longrightarrow> waiting (fold arrive hs s) k = waiting s k @ filter (\<lambda>h. home h = k) hs"
proof (induction hs arbitrary: s)
  case (Cons h hs)
  show ?case
    using Cons by (cases "known s (home h)") (auto simp: arrive_keeps arrive_waits arrive_known)
qed simp

lemma taken_once: "waiting (take_all k (take_all k s)) k = []"
  by (simp add: take_all_waiting)

end

definition waiting_hosts :: "ObjectsCache \<Rightarrow> SubnetAddrPrefix \<Rightarrow> DHCPHost list" where
  "waiting_hosts s k = snd (PopUnknownHosts s k)"

definition subnet_known :: "ObjectsCache \<Rightarrow> SubnetAddrPrefix \<Rightarrow> bool" where
  "subnet_known s k \<longleftrightarrow> oc_knownSubnets s k \<noteq> None"

interpretation unknown_hosts: waiting_room waiting_hosts subnet_known "\<lambda>h. hspec_Subnet (host_Spec h)"
  "\<lambda>h s. fst (AddHostIfNotKnown s h)" "\<lambda>k s. fst (PopUnknownHosts s k)"
  by unfold_locales
    (auto simp: waiting_hosts_def subnet_known_def PopUnknownHosts_def AddHostIfNotKnown_def Let_def split: option.splits)

text \<open>C31: hosts that arrive before their subnet wait for it: taking the hosts of a subnet that is not
  known yet returns all the hosts that arrived for it, in the order of their arrival, and
  leaves none behind.\<close>

theorem hosts_wait_for_their_subnet:
  assumes "oc_knownSubnets s k = None"
  shows "snd (PopUnknownHosts (fold (\<lambda>h s. fst (AddHostIfNotKnown s h)) hs s) k) =
      snd (PopUnknownHosts s k) @ filter (\<lambda>h. hspec_Subnet (host_Spec h) = k) hs \<and>
    snd (PopUnknownHosts (fst (PopUnknownHosts s k)) k) = []"
proof -
  have "\<not> subnet_known s k" using assms by (simp add: subnet_known_def)
  from unknown_hosts.arrivals_wait [OF this, of hs] show ?thesis
    by (simp add: waiting_hosts_def) (simp add: PopUnknownHosts_def)
qed

definition sample_k8s_host :: DHCPHost where
  "sample_k8s_host = \<lparr>host_Key = (''default'', ''pxe''),
     host_Spec = \<lparr>hspec_Subnet = ''10.1.1.0/24'', hspec_MAC = ''00:00:00:00:00:09'', hspec_IP = ''10.1.1.2'', hspec_Gateway = [],
       hspec_HostName = ''pxe'', hspec_DNS = [], hspec_Options = [], hspec_ServerHostName = [],
       hspec_BootFileName = [], hspec_LeaseTime = 60\<rparr>\<rparr>"

theorem hosts_wait_for_their_subnet_witness:
  "snd (PopUnknownHosts (fst (AddHostIfNotKnown NewObjectsCache sample_k8s_host)) ''10.1.1.0/24'') = [sample_k8s_host]"
  using hosts_wait_for_their_subnet [of NewObjectsCache "''10.1.1.0/24''" "[sample_k8s_host]"]
  by (simp add: NewObjectsCache_def PopUnknownHosts_def sample_k8s_host_def)

end
