(* ===== verification/Dhcp_Pool.thy ===== *)
theory Dhcp_Pool
  imports Dhcp_Subnet
begin

text \<open>
  The search for an address in \<^verbatim>\<open>GetLeaseForRequest\<close>: the loop of the source returns for
  every subnet whose cursor is where the code leaves it, and its result is that of a scan
  of the ring of pool addresses, once around from the cursor.
\<close>

section \<open>The ring of pool addresses\<close>

text \<open>
  Specification of the search: the addresses form a ring from \<open>ring_lo\<close> to the end of
  the range. The ring starts at the beginning of the range, except for a range that
  ends at 255.255.255.255, where the increment wraps to 0.0.0.0 before it is compared.
\<close>

definition ring_lo :: "Subnet \<Rightarrow> IPv4" where
  "ring_lo s = (if sn_iPTo s = -1 then 0 else sn_iPFrom s)"

definition ring_next :: "Subnet \<Rightarrow> IPv4 \<Rightarrow> IPv4" where
  "ring_next s c = (if c + 1 > sn_iPTo s then sn_iPFrom s else c + 1)"

definition ring_size :: "Subnet \<Rightarrow> nat" where
  "ring_size s = unat (sn_iPTo s) - unat (ring_lo s) + 1"

definition in_ring :: "Subnet \<Rightarrow> IPv4 \<Rightarrow> bool" where
  "in_ring s c \<longleftrightarrow> ring_lo s \<le> c \<and> c \<le> sn_iPTo s"

definition pool_ok :: "Subnet \<Rightarrow> bool" where
  "pool_ok s \<longleftrightarrow> sn_iPFrom s \<le> sn_iPTo s \<and> (sn_currentIP s = 0 \<or> in_ring s (sn_currentIP s))"

text \<open>The addresses the loop visits from \<open>c\<close> on, once around the ring.\<close>

definition ring_from :: "Subnet \<Rightarrow> IPv4 \<Rightarrow> IPv4 list" where
  "ring_from s c = map (\<lambda>k. (ring_next s ^^ k) c) [0..<ring_size s]"

datatype pool_pick = Free IPv4 | Exhausted "lref option"

fun pool_scan :: "lease_heap \<Rightarrow> Subnet \<Rightarrow> go_time \<Rightarrow> lref option \<Rightarrow> IPv4 list \<Rightarrow> pool_pick" where
  "pool_scan h s expiredTime oldest [] = Exhausted oldest"
| "pool_scan h s expiredTime oldest (ip # ips) =
     (case sn_leaseCache s (IPv4_String ip) of
        None \<Rightarrow> Free ip
      | Some r \<Rightarrow> pool_scan h s expiredTime (older_lease h expiredTime oldest r) ips)"

lemma increment_eq: "incrementCurrentIP s = s\<lparr>sn_currentIP := ring_next s (sn_currentIP s)\<rparr>"
  by (simp add: incrementCurrentIP_def ring_next_def IPv4_Inc_def Let_def)

lemma unat_Suc_word: "(c :: IPv4) \<noteq> -1 \<Longrightarrow> unat (c + 1) = Suc (unat c)"
  by (metis add.commute add_eq_0_iff unatSuc)

lemma ring_next_eq:
  "c \<le> sn_iPTo s \<Longrightarrow> ring_next s c = (if c = sn_iPTo s then ring_lo s else c + 1)"
proof -
  assume c: "c \<le> sn_iPTo s"
  have "c + 1 > sn_iPTo s \<longleftrightarrow> c = sn_iPTo s \<and> c \<noteq> -1"
  proof (cases "c = -1")
    case False
    with c show ?thesis
      by (auto simp: word_less_nat_alt word_le_nat_alt unat_Suc_word word_unat_eq_iff)
  qed simp
  then show ?thesis by (auto simp: ring_next_def ring_lo_def)
qed

lemma ring_lo_le: "sn_iPFrom s \<le> sn_iPTo s \<Longrightarrow> ring_lo s \<le> sn_iPTo s"
  by (simp add: ring_lo_def)

lemma in_ring_unat:
  "in_ring s c \<longleftrightarrow> unat (ring_lo s) \<le> unat c \<and> unat c \<le> unat (sn_iPTo s)"
  by (simp add: in_ring_def word_le_nat_alt)

lemma unat_ring_next:
  assumes "in_ring s c"
  shows "unat (ring_next s c) = unat (ring_lo s) + (unat c - unat (ring_lo s) + 1) mod ring_size s"
proof (cases "c = sn_iPTo s")
  case True
  with assms show ?thesis
    by (simp add: ring_next_eq in_ring_def ring_size_def)
next
  case False
  with assms have "unat c < unat (sn_iPTo s)"
    by (auto simp: in_ring_unat word_unat_eq_iff)
  moreover from this have "c \<noteq> -1"
    by (metis leD word_le_nat_alt word_order.extremum)
  ultimately show ?thesis
    using assms False
    by (auto simp: ring_next_eq in_ring_unat ring_size_def unat_Suc_word word_le_nat_alt)
qed

lemma in_ring_next: "in_ring s c \<Longrightarrow> in_ring s (ring_next s c)"
proof -
  assume c: "in_ring s c"
  define m where "m = (unat c - unat (ring_lo s) + 1) mod ring_size s"
  have "m < ring_size s"
    by (simp add: ring_size_def m_def)
  moreover have "unat (ring_next s c) = unat (ring_lo s) + m"
    using unat_ring_next [OF c] by (simp only: m_def)
  ultimately show ?thesis
    using c by (auto simp: in_ring_unat ring_size_def)
qed

lemma in_ring_iter: "in_ring s c \<Longrightarrow> in_ring s ((ring_next s ^^ k) c)"
  by (induction k) (simp_all add: in_ring_next)

lemma unat_ring_iter:
  assumes "in_ring s c"
  shows "unat ((ring_next s ^^ k) c) =
    unat (ring_lo s) + (unat c - unat (ring_lo s) + k) mod ring_size s"
proof (induction k)
  case 0
  with assms show ?case by (auto simp: in_ring_unat ring_size_def)
next
  case (Suc k)
  show ?case
    using unat_ring_next [OF in_ring_iter [OF assms, of k]] Suc
    by (simp add: mod_Suc_eq)
qed

lemma ring_iter_full: "in_ring s c \<Longrightarrow> (ring_next s ^^ ring_size s) c = c"
  using unat_ring_iter [of s c "ring_size s"] unat_ring_iter [of s c 0]
  by (simp add: word_unat_eq_iff)

lemma ring_iter_neq:
  assumes "in_ring s c" "0 < k" "k < ring_size s"
  shows "(ring_next s ^^ k) c \<noteq> c"
proof
  assume "(ring_next s ^^ k) c = c"
  then have "(unat c - unat (ring_lo s) + k) mod ring_size s = (unat c - unat (ring_lo s)) mod ring_size s"
    using unat_ring_iter [OF assms(1), of k] unat_ring_iter [OF assms(1), of 0] by simp
  then have "ring_size s dvd k"
    using mod_eq_dvd_iff_nat [of "unat c - unat (ring_lo s)" "unat c - unat (ring_lo s) + k"] by simp
  with assms(2,3) show False
    by (auto dest: dvd_imp_le)
qed

lemma set_ring_from: "in_ring s c \<Longrightarrow> set (ring_from s c) = {ring_lo s .. sn_iPTo s}"
proof
  assume c: "in_ring s c"
  show "set (ring_from s c) \<subseteq> {ring_lo s .. sn_iPTo s}"
    using in_ring_iter [OF c] by (auto simp: ring_from_def in_ring_def)
  show "{ring_lo s .. sn_iPTo s} \<subseteq> set (ring_from s c)"
  proof
    fix x assume "x \<in> {ring_lo s .. sn_iPTo s}"
    then have x: "in_ring s x" by (simp add: in_ring_def)
    define d e n where "d = unat c - unat (ring_lo s)" and "e = unat x - unat (ring_lo s)"
      and "n = ring_size s"
    have "d < n" "e < n"
      using c x by (auto simp: d_def e_def n_def in_ring_unat ring_size_def)
    define k where "k = (e + (n - d)) mod n"
    have "k < n" using \<open>d < n\<close> by (simp add: k_def)
    have "(d + k) mod n = e"
      using \<open>d < n\<close> \<open>e < n\<close> by (simp add: k_def mod_add_right_eq)
    then have "unat ((ring_next s ^^ k) c) = unat x"
      using unat_ring_iter [OF c, of k] x by (simp add: d_def e_def n_def in_ring_unat)
    then have "(ring_next s ^^ k) c = x" by (simp add: word_unat_eq_iff)
    with \<open>k < n\<close> show "x \<in> set (ring_from s c)"
      by (auto simp: ring_from_def n_def)
  qed
qed

section \<open>The search loop is the scan of the ring\<close>

lemma ring_next_cong [simp]:
  "ring_next (s\<lparr>sn_currentIP := c\<rparr>) = ring_next s"
  "ring_size (s\<lparr>sn_currentIP := c\<rparr>) = ring_size s"
  "ring_lo (s\<lparr>sn_currentIP := c\<rparr>) = ring_lo s"
  "in_ring (s\<lparr>sn_currentIP := c\<rparr>) = in_ring s"
  by (simp_all add: ring_next_def ring_size_def ring_lo_def in_ring_def fun_eq_iff)

definition pool_result ::
  "string \<Rightarrow> go_time \<Rightarrow> lease_heap \<Rightarrow> Subnet \<Rightarrow> IPv4 \<Rightarrow> pool_pick \<Rightarrow> lease_heap \<times> Subnet \<times> lref option" where
  "pool_result mac now h s first p =
     (case p of
        Free ip \<Rightarrow>
          (let s' = s\<lparr>sn_currentIP := ip\<rparr>; h' = h @ [NewLease s' now mac (ip_of ip)]
           in (h', Subnet_AddLease h' s' (length h), Some (length h)))
      | Exhausted q \<Rightarrow> (h, s\<lparr>sn_currentIP := first\<rparr>, q))"

lemma pool_loop_scan:
  assumes "in_ring s first" "j < ring_size s" "sn_currentIP s = (ring_next s ^^ j) first"
  shows "pool_loop mac now first t h s oldest =
    Some (pool_result mac now h s first
      (pool_scan h s t oldest (map (\<lambda>k. (ring_next s ^^ k) first) [j..<ring_size s])))"
  using assms
proof (induction "ring_size s - j" arbitrary: j s oldest)
  case (Suc d)
  define ip where "ip = sn_currentIP s"
  define s' where "s' = incrementCurrentIP s"
  have cur: "sn_currentIP s' = (ring_next s ^^ Suc j) first"
    using Suc.prems(3) by (simp add: s'_def increment_eq)
  have list: "map (\<lambda>k. (ring_next s ^^ k) first) [j..<ring_size s] =
      ip # map (\<lambda>k. (ring_next s ^^ k) first) [Suc j..<ring_size s]"
    using Suc.prems(2,3) by (simp add: upt_conv_Cons ip_def)
  show ?case
  proof (cases "sn_leaseCache s (IPv4_String ip)")
    case None
    then show ?thesis
      unfolding list by (subst pool_loop.simps) (simp add: ip_def pool_result_def Let_def)
  next
    case (Some r)
    define old where "old = older_lease h t oldest r"
    have scan: "pool_scan h s t oldest (map (\<lambda>k. (ring_next s ^^ k) first) [j..<ring_size s]) =
        pool_scan h s t old (map (\<lambda>k. (ring_next s ^^ k) first) [Suc j..<ring_size s])"
      unfolding list using Some by (simp add: old_def)
    have unfold: "pool_loop mac now first t h s oldest =
        (if first = sn_currentIP s' then Some (h, s', old) else pool_loop mac now first t h s' old)"
      using Some by (subst pool_loop.simps) (simp add: ip_def s'_def old_def Let_def)
    show ?thesis
    proof (cases "Suc j = ring_size s")
      case True
      then have "sn_currentIP s' = first"
        using cur ring_iter_full [OF Suc.prems(1)] by simp
      with True show ?thesis
        unfolding unfold scan by (simp add: pool_result_def s'_def increment_eq)
    next
      case False
      with Suc.prems(2) have j: "Suc j < ring_size s" by simp
      then have "first \<noteq> sn_currentIP s'"
        unfolding cur using ring_iter_neq [OF Suc.prems(1), of "Suc j"] by simp
      moreover have "pool_loop mac now first t h s' old = Some (pool_result mac now h s' first
          (pool_scan h s' t old (map (\<lambda>k. (ring_next s' ^^ k) first) [Suc j..<ring_size s'])))"
        using Suc.hyps(2) Suc.prems(1) j cur
        by (intro Suc.hyps(1)) (simp_all add: s'_def increment_eq)
      moreover have "pool_scan h s' t old xs = pool_scan h s t old xs" for xs
        by (induction xs arbitrary: old) (simp_all add: s'_def increment_eq split: option.split)
      moreover have "pool_result mac now h s' first p = pool_result mac now h s first p" for p
        by (simp add: pool_result_def s'_def increment_eq split: pool_pick.split)
      ultimately show ?thesis
        unfolding unfold scan by (simp add: s'_def increment_eq)
    qed
  qed
qed simp

corollary pool_loop_ring:
  "in_ring s (sn_currentIP s) \<Longrightarrow>
   pool_loop mac now (sn_currentIP s) t h s oldest =
     Some (pool_result mac now h s (sn_currentIP s) (pool_scan h s t oldest (ring_from s (sn_currentIP s))))"
  using pool_loop_scan [of s "sn_currentIP s" 0] by (simp add: ring_from_def ring_size_def)

section \<open>What the scan finds\<close>

lemma pool_scan_Free:
  "pool_scan h s t oldest ips = Free ip \<Longrightarrow>
   \<exists>xs ys. ips = xs @ ip # ys \<and> sn_leaseCache s (IPv4_String ip) = None \<and>
     (\<forall>x \<in> set xs. sn_leaseCache s (IPv4_String x) \<noteq> None)"
proof (induction h s t oldest ips rule: pool_scan.induct)
  case (2 h s t oldest i ips)
  show ?case
  proof (cases "sn_leaseCache s (IPv4_String i)")
    case None
    with "2.prems" show ?thesis by (intro exI [of _ "[]"] exI [of _ ips]) auto
  next
    case (Some r)
    with "2.prems" "2.IH" [OF Some] obtain xs ys where "ips = xs @ ip # ys"
      "sn_leaseCache s (IPv4_String ip) = None" "\<forall>x \<in> set xs. sn_leaseCache s (IPv4_String x) \<noteq> None"
      by auto
    with Some show ?thesis by (intro exI [of _ "i # xs"] exI [of _ ys]) auto
  qed
qed simp

lemma pool_scan_Exhausted:
  "pool_scan h s t oldest ips = Exhausted q \<Longrightarrow>
   (\<forall>x \<in> set ips. sn_leaseCache s (IPv4_String x) \<noteq> None) \<and>
   q = fold (\<lambda>x q. older_lease h t q (the (sn_leaseCache s (IPv4_String x)))) ips oldest"
  by (induction h s t oldest ips rule: pool_scan.induct) (auto split: option.splits)

lemma pool_scan_free_iff:
  "(\<exists>ip. pool_scan h s t oldest ips = Free ip) \<longleftrightarrow> (\<exists>x \<in> set ips. sn_leaseCache s (IPv4_String x) = None)"
  by (cases "pool_scan h s t oldest ips") (fastforce dest: pool_scan_Free pool_scan_Exhausted)+

definition expired_ref :: "lease_heap \<Rightarrow> go_time \<Rightarrow> lref \<Rightarrow> bool" where
  "expired_ref h t r \<longleftrightarrow> lease_LastUpdate (h ! r) < t"

text \<open>The fold over the leased addresses keeps the least recently updated expired lease.\<close>

definition oldest_of :: "lease_heap \<Rightarrow> go_time \<Rightarrow> lref set \<Rightarrow> lref option \<Rightarrow> bool" where
  "oldest_of h t R q =
     (case q of
        None \<Rightarrow> (\<forall>r \<in> R. \<not> expired_ref h t r)
      | Some r \<Rightarrow> r \<in> R \<and> expired_ref h t r \<and>
          (\<forall>r' \<in> R. expired_ref h t r' \<longrightarrow> lease_LastUpdate (h ! r) \<le> lease_LastUpdate (h ! r')))"

lemma older_lease_oldest_of:
  "oldest_of h t R q \<Longrightarrow> oldest_of h t (insert r R) (older_lease h t q r)"
  by (auto simp: oldest_of_def older_lease_def expired_ref_def split: option.splits)

lemma fold_oldest_of:
  "oldest_of h t R q \<Longrightarrow> oldest_of h t (f ` set xs \<union> R) (fold (\<lambda>x q. older_lease h t q (f x)) xs q)"
proof (induction xs arbitrary: R q)
  case (Cons x xs)
  have "oldest_of h t (f ` set xs \<union> insert (f x) R) (fold (\<lambda>x q. older_lease h t q (f x)) xs (older_lease h t q (f x)))"
    by (intro Cons.IH older_lease_oldest_of Cons.prems)
  then show ?case by simp
qed simp

lemma pool_scan_oldest:
  assumes "pool_scan h s t None ips = Exhausted q"
  shows "oldest_of h t ((\<lambda>x. the (sn_leaseCache s (IPv4_String x))) ` set ips) q"
  using fold_oldest_of [of h t "{}" None "\<lambda>x. the (sn_leaseCache s (IPv4_String x))" ips]
    pool_scan_Exhausted [OF assms] by (simp add: oldest_of_def)

section \<open>The pool invariant\<close>

lemma advance_in_ring: "pool_ok s \<Longrightarrow> in_ring (advance_pool s) (sn_currentIP (advance_pool s))"
  by (auto simp: pool_ok_def advance_pool_def increment_eq in_ring_next)
    (auto simp: in_ring_def ring_lo_def)

lemma advance_same [op_simps]:
  "sn_leaseCache (advance_pool s) = sn_leaseCache s"
  "sn_iPFrom (advance_pool s) = sn_iPFrom s"
  "sn_iPTo (advance_pool s) = sn_iPTo s"
  "sn_LeaseTime (advance_pool s) = sn_LeaseTime s"
  by (simp_all add: advance_pool_def increment_eq)

lemma AddLease_same [op_simps]:
  "sn_iPFrom (Subnet_AddLease h s l) = sn_iPFrom s"
  "sn_iPTo (Subnet_AddLease h s l) = sn_iPTo s"
  "sn_currentIP (Subnet_AddLease h s l) = sn_currentIP s"
  "sn_Subnet (Subnet_AddLease h s l) = sn_Subnet s"
  by (simp_all add: Subnet_AddLease_def Let_def split: option.split)

section \<open>Bounds\<close>

text \<open>C29: the increment keeps the cursor inside the configured range and visits its addresses in
  order, starting again after the last one; only a range that ends at 255.255.255.255
  wraps to 0.0.0.0, outside of the range, because the comparison comes after the increment.\<close>

theorem cursor_stays_in_range:
  assumes "sn_iPFrom s \<le> sn_currentIP s" "sn_currentIP s \<le> sn_iPTo s"
  shows "sn_currentIP (incrementCurrentIP s) =
      (if sn_currentIP s < sn_iPTo s then sn_currentIP s + 1 else if sn_iPTo s = -1 then 0 else sn_iPFrom s) \<and>
    (sn_iPTo s \<noteq> -1 \<longrightarrow> sn_iPFrom s \<le> sn_currentIP (incrementCurrentIP s) \<and> sn_currentIP (incrementCurrentIP s) \<le> sn_iPTo s)"
proof -
  have eq: "sn_currentIP (incrementCurrentIP s) =
      (if sn_currentIP s < sn_iPTo s then sn_currentIP s + 1 else if sn_iPTo s = -1 then 0 else sn_iPFrom s)"
    using ring_next_eq [OF assms(2)] assms(2) by (auto simp: increment_eq ring_lo_def)
  have "in_ring s (sn_currentIP (incrementCurrentIP s))" if "sn_iPTo s \<noteq> -1"
    using in_ring_next [of s "sn_currentIP s"] assms that by (simp add: increment_eq in_ring_def ring_lo_def)
  with eq show ?thesis by (simp add: in_ring_def ring_lo_def)
qed

definition cursor_subnet :: "IPv4 \<Rightarrow> Subnet" where
  "cursor_subnet c =
     \<lparr>sn_Subnet = [], sn_RangeFrom = [], sn_RangeTo = [], sn_Gateway = [], sn_DNS = [], sn_Options = [],
      sn_LeaseTime = 1, sn_ServerHostName = [], sn_BootFileName = [], sn_iPFrom = 5, sn_iPTo = 7,
      sn_ipNet = \<lparr>IPNet_IP = None, IPNet_Mask = None\<rparr>, sn_currentIP = c, sn_leaseCache = Map.empty,
      sn_netMask = [], sn_serverIPAddress = None\<rparr>"

theorem cursor_stays_in_range_witness:
  "sn_currentIP (incrementCurrentIP (cursor_subnet 6)) = 7 \<and> sn_currentIP (incrementCurrentIP (cursor_subnet 7)) = 5"
  using cursor_stays_in_range [of "cursor_subnet 6"] cursor_stays_in_range [of "cursor_subnet 7"]
  by (simp add: cursor_subnet_def)

end
