(* ===== verification/Dhcp_Sample.thy ===== *)
theory Dhcp_Sample
  imports Dhcp_Api
begin

text \<open>
  Concrete values for the witnesses: a small subnet, as in the test of
  \<^verbatim>\<open>dhcp/subnet_test.go\<close>, packets of two clients, and one concrete instance of the
  functions of the dhcpv4 package, which keeps options as the bytes of RFC 2132. No
  theorem depends on this instance; it shows that the hypotheses on the package can hold.
\<close>

definition message_type_code :: "MessageType \<Rightarrow> byte" where
  "message_type_code m =
     (case m of MessageTypeDiscover \<Rightarrow> 1 | MessageTypeOffer \<Rightarrow> 2 | MessageTypeRequest \<Rightarrow> 3
      | MessageTypeAck \<Rightarrow> 5 | MessageTypeOther n \<Rightarrow> (if n \<in> {1, 2, 3, 5} then 0 else of_nat n))"

definition code_message_type :: "byte list option \<Rightarrow> MessageType" where
  "code_message_type b =
     (if b = Some [1] then MessageTypeDiscover else if b = Some [2] then MessageTypeOffer
      else if b = Some [3] then MessageTypeRequest else if b = Some [5] then MessageTypeAck
      else MessageTypeOther 0)"

definition sample_value :: "OptionValue \<Rightarrow> byte list" where
  "sample_value v = (case v of OptString s \<Rightarrow> map of_char s | OptIP ip \<Rightarrow> ip_bytes (To4 ip) | OptionGeneric b \<Rightarrow> b)"

definition sample_option :: "pkt_option \<Rightarrow> byte \<times> byte list" where
  "sample_option x =
     (case x of
        GenericOption c v \<Rightarrow> (c, sample_value v)
      | OptSubnetMask m \<Rightarrow> (1, ip_bytes m)
      | OptIPAddressLeaseTime d \<Rightarrow> (51, octets (of_int (d div Second)))
      | OptDNS ips \<Rightarrow> (6, concat (map (\<lambda>ip. ip_bytes (To4 ip)) ips))
      | OptMessageType m \<Rightarrow> (53, [message_type_code m]))"

definition ip_option :: "byte list option \<Rightarrow> net_IP" where
  "ip_option b = (case b of None \<Rightarrow> None | Some bs \<Rightarrow> if length bs = 4 then Some bs else None)"

definition sample_lib :: dhcpv4_lib where
  "sample_lib =
     \<lparr>lib_MessageType = (\<lambda>p. code_message_type (Options p 53)),
      lib_RequestedIPAddress = (\<lambda>p. ip_option (Options p 50)),
      lib_ServerIdentifier = (\<lambda>p. ip_option (Options p 54)),
      lib_NewReplyFromRequest = (\<lambda>p. Inr (Some (p\<lparr>OpCode := 2, YourIPAddr := IPv4zero, ServerIPAddr := IPv4zero,
        BootFileName := [], ServerHostName := [], Options := Map.empty\<rparr>))),
      lib_UpdateOption = (\<lambda>x p. p\<lparr>Options := (Options p)(fst (sample_option x) \<mapsto> snd (sample_option x))\<rparr>)\<rparr>"

definition sample_packet :: "byte \<Rightarrow> (byte \<rightharpoonup> byte list) \<Rightarrow> DHCPv4" where
  "sample_packet n opts =
     \<lparr>OpCode = 1, ClientHWAddr = [0, 0, 0, 0, 0, n], GatewayIPAddr = None, YourIPAddr = None, ServerIPAddr = None,
      BootFileName = [], ServerHostName = [], Options = opts\<rparr>"

text \<open>The range 10.1.1.1 to 10.1.1.3 of 10.1.1.0/24, with an empty cache.\<close>

definition sample_subnet :: Subnet where
  "sample_subnet =
     \<lparr>sn_Subnet = ''10.1.1.0/24'', sn_RangeFrom = ''10.1.1.1'', sn_RangeTo = ''10.1.1.3'',
      sn_Gateway = [], sn_DNS = [], sn_Options = [], sn_LeaseTime = 14400, sn_ServerHostName = [],
      sn_BootFileName = [], sn_iPFrom = 167837953, sn_iPTo = 167837955,
      sn_ipNet = \<lparr>IPNet_IP = ip_of 167837952, IPNet_Mask = Some [255, 255, 255, 0]\<rparr>,
      sn_currentIP = 0, sn_leaseCache = Map.empty, sn_netMask = ''255.255.255.0'',
      sn_serverIPAddress = None\<rparr>"

lemma sample_lib_simps [simp]:
  "lib_RequestedIPAddress sample_lib p = ip_option (Options p 50)"
  "lib_ServerIdentifier sample_lib p = ip_option (Options p 54)"
  "lib_MessageType sample_lib p = code_message_type (Options p 53)"
  by (simp_all add: sample_lib_def)

lemma sample_packet_simps [simp]:
  "ClientHWAddr (sample_packet n opts) = [0, 0, 0, 0, 0, n]"
  "Options (sample_packet n opts) = opts"
  "GatewayIPAddr (sample_packet n opts) = None"
  by (simp_all add: sample_packet_def)

lemma ip_option_simps [simp]: "ip_option None = None" "length bs = 4 \<Longrightarrow> ip_option (Some bs) = Some bs"
  by (simp_all add: ip_option_def)

end
