(* ===== verification/Dhcp_Leases.thy ===== *)
theory Dhcp_Leases
  imports Dhcp_Pool Dhcp_Sample
begin

text \<open>
  The lease cache of a subnet as an address book (the locale \<open>address_book\<close>, interpreted
  on \<^verbatim>\<open>AddLease\<close>), and what \<^verbatim>\<open>GetLeaseForRequest\<close>, \<^verbatim>\<open>AddHost\<close>, \<^verbatim>\<open>DeleteHost\<close> and
  \<^verbatim>\<open>DeleteLease\<close> do to it.
\<close>

section \<open>The lease cache as an address book\<close>

text \<open>
  The cache is one map for two kinds of keys: the text of an address and the text of a
  hardware address. The text of an IPv4 address contains a dot, that of a hardware address,
  of any length, does not. In a consistent cache every lease it reaches is found under both
  its keys.
\<close>

type_synonym subnet_state = "lease_heap \<times> Subnet"

abbreviation lease_key :: "Lease \<Rightarrow> string" where
  "lease_key l \<equiv> IP_String (lease_IP l)"

definition mac_key :: "string \<Rightarrow> bool" where
  "mac_key k \<longleftrightarrow> CHR ''.'' \<notin> set k"

definition lease_wf :: "Lease \<Rightarrow> bool" where
  "lease_wf l \<longleftrightarrow> mac_key (lease_MAC l) \<and> \<not> mac_key (lease_key l)"

definition entry_ok :: "lease_heap \<Rightarrow> (string \<rightharpoonup> lref) \<Rightarrow> string \<Rightarrow> lref \<Rightarrow> bool" where
  "entry_ok h c k r \<longleftrightarrow>
     r < length h \<and> lease_wf (h ! r) \<and> (k = lease_MAC (h ! r) \<or> k = lease_key (h ! r)) \<and>
     c (lease_MAC (h ! r)) = Some r \<and> c (lease_key (h ! r)) = Some r"

definition cache_ok :: "subnet_state \<Rightarrow> bool" where
  "cache_ok st = (case st of (h, s) \<Rightarrow> \<forall>k r. sn_leaseCache s k = Some r \<longrightarrow> entry_ok h (sn_leaseCache s) k r)"

definition bindings :: "subnet_state \<Rightarrow> (string \<rightharpoonup> string)" where
  "bindings st =
     (case st of (h, s) \<Rightarrow>
        (\<lambda>k. if mac_key k then map_option (\<lambda>r. lease_key (h ! r)) (sn_leaseCache s k) else None))"

definition put_lease :: "Lease \<Rightarrow> subnet_state \<Rightarrow> subnet_state" where
  "put_lease l st = (case st of (h, s) \<Rightarrow> (h @ [l], Subnet_AddLease (h @ [l]) s (length h)))"

definition admits_lease :: "Lease \<Rightarrow> subnet_state \<Rightarrow> bool" where
  "admits_lease l st =
     (case st of (h, s) \<Rightarrow>
        lease_wf l \<and>
        (case sn_leaseCache s (lease_MAC l) of None \<Rightarrow> True | Some r \<Rightarrow> lease_key (h ! r) = lease_key l))"

lemma cache_okD: "cache_ok (h, s) \<Longrightarrow> sn_leaseCache s k = Some r \<Longrightarrow> entry_ok h (sn_leaseCache s) k r"
  by (auto simp: cache_ok_def)

lemma bindings_not_mac: "\<not> mac_key k \<Longrightarrow> bindings (h, s) k = None"
  by (simp add: bindings_def)

lemma put_lease_cache:
  assumes "cache_ok (h, s)"
  shows "sn_leaseCache (snd (put_lease l (h, s))) =
    (case sn_leaseCache s (lease_key l) of
       None \<Rightarrow> sn_leaseCache s
     | Some old \<Rightarrow> (sn_leaseCache s)(lease_MAC (h ! old) := None))
    (lease_key l \<mapsto> length h, lease_MAC l \<mapsto> length h)"
  using cache_okD [OF assms]
  by (auto simp: put_lease_def Subnet_AddLease_def Let_def nth_append entry_ok_def split: option.splits)

lemma put_lease_other:
  assumes ok: "cache_ok (h, s)" and adm: "admits_lease l (h, s)"
    and k: "sn_leaseCache s k = Some r" and new: "lease_key (h ! r) \<noteq> lease_key l"
  shows "sn_leaseCache (snd (put_lease l (h, s))) k = Some r"
proof -
  from cache_okD [OF ok k] have e: "entry_ok h (sn_leaseCache s) k r" .
  have "k \<noteq> lease_MAC l"
    using adm k new by (auto simp: admits_lease_def)
  moreover have "k \<noteq> lease_key l"
    using e new adm by (auto simp: entry_ok_def lease_wf_def admits_lease_def)
  moreover have "k \<noteq> lease_MAC (h ! old)" if "sn_leaseCache s (lease_key l) = Some old" for old
  proof
    assume "k = lease_MAC (h ! old)"
    moreover have "sn_leaseCache s (lease_MAC (h ! old)) = Some old" "lease_key (h ! old) = lease_key l"
      using cache_okD [OF ok that] adm by (auto simp: entry_ok_def lease_wf_def admits_lease_def)
    ultimately show False using k new by simp
  qed
  ultimately show ?thesis
    using k by (simp add: put_lease_cache [OF ok] split: option.split)
qed

lemma put_lease_old:
  assumes ok: "cache_ok (h, s)" and adm: "admits_lease l (h, s)"
    and k: "sn_leaseCache (snd (put_lease l (h, s))) k = Some r"
  shows "k = lease_key l \<and> r = length h \<or> k = lease_MAC l \<and> r = length h \<or>
    sn_leaseCache s k = Some r \<and> lease_key (h ! r) \<noteq> lease_key l"
proof (cases "k = lease_key l \<or> k = lease_MAC l")
  case False
  with k have k': "sn_leaseCache s k = Some r"
    by (auto simp: put_lease_cache [OF ok] split: option.splits if_splits)
  have "lease_key (h ! r) \<noteq> lease_key l"
  proof
    assume eq: "lease_key (h ! r) = lease_key l"
    from cache_okD [OF ok k'] have "k = lease_MAC (h ! r)" "sn_leaseCache s (lease_key l) = Some r"
      using False eq by (auto simp: entry_ok_def)
    then have "sn_leaseCache (snd (put_lease l (h, s))) k = None"
      using False by (simp add: put_lease_cache [OF ok])
    with k show False by simp
  qed
  with k' show ?thesis by simp
qed (use k in \<open>auto simp: put_lease_cache [OF ok] split: option.splits if_splits\<close>)

lemma cache_ok_put:
  assumes ok: "cache_ok (h, s)" and adm: "admits_lease l (h, s)"
  shows "cache_ok (put_lease l (h, s))"
proof -
  let ?c = "sn_leaseCache (snd (put_lease l (h, s)))"
  have new: "?c (lease_MAC l) = Some (length h)" "?c (lease_key l) = Some (length h)" "lease_wf l"
    using adm by (auto simp: put_lease_cache [OF ok] admits_lease_def)
  have "entry_ok (h @ [l]) ?c k r" if k: "?c k = Some r" for k r
    using put_lease_old [OF ok adm k]
  proof (elim disjE conjE)
    assume k: "sn_leaseCache s k = Some r" and n: "lease_key (h ! r) \<noteq> lease_key l"
    from cache_okD [OF ok k] have e: "entry_ok h (sn_leaseCache s) k r" .
    then have "?c (lease_MAC (h ! r)) = Some r" "?c (lease_key (h ! r)) = Some r"
      using put_lease_other [OF ok adm] n by (auto simp: entry_ok_def)
    with e show ?thesis by (auto simp: entry_ok_def nth_append)
  qed (use new in \<open>simp_all add: entry_ok_def\<close>)
  then show ?thesis
    by (simp add: cache_ok_def put_lease_def)
qed

lemma bindings_put:
  assumes ok: "cache_ok (h, s)" and adm: "admits_lease l (h, s)"
  shows "bindings (put_lease l (h, s)) = rebind (lease_MAC l) (lease_key l) (bindings (h, s))"
proof
  fix k
  let ?c = "sn_leaseCache (snd (put_lease l (h, s)))"
  have b: "bindings (put_lease l (h, s)) k =
      (if mac_key k then map_option (\<lambda>r. lease_key ((h @ [l]) ! r)) (?c k) else None)"
    by (simp add: bindings_def put_lease_def)
  have wf: "mac_key (lease_MAC l)" "\<not> mac_key (lease_key l)"
    using adm by (auto simp: admits_lease_def lease_wf_def)
  show "bindings (put_lease l (h, s)) k = rebind (lease_MAC l) (lease_key l) (bindings (h, s)) k"
  proof (cases "k = lease_MAC l \<or> \<not> mac_key k")
    case True
    then show ?thesis
      using wf by (auto simp: b rebind_def put_lease_cache [OF ok] bindings_not_mac)
  next
    case False
    show ?thesis
    proof (cases "?c k")
      case None
      then have "bindings (h, s) k = None \<or> bindings (h, s) k = Some (lease_key l)"
        using put_lease_other [OF ok adm, of k] by (cases "sn_leaseCache s k") (auto simp: bindings_def)
      with None False show ?thesis by (auto simp: b rebind_def)
    next
      case (Some r)
      with False wf have k: "sn_leaseCache s k = Some r" "lease_key (h ! r) \<noteq> lease_key l"
        using put_lease_old [OF ok adm Some] by auto
      moreover from this have "r < length h"
        using cache_okD [OF ok] by (auto simp: entry_ok_def)
      moreover from k False have "bindings (h, s) k = Some (lease_key (h ! r))"
        by (simp add: bindings_def)
      ultimately show ?thesis
        using Some False by (auto simp: b rebind_def nth_append)
    qed
  qed
qed

lemma bindings_exclusive: "cache_ok (h, s) \<Longrightarrow> exclusive (bindings (h, s))"
  unfolding exclusive_def
proof (intro allI impI)
  fix k k' a
  assume ok: "cache_ok (h, s)" and b: "bindings (h, s) k = Some a" "bindings (h, s) k' = Some a"
  then obtain r r' where r: "mac_key k" "mac_key k'" "sn_leaseCache s k = Some r" "lease_key (h ! r) = a"
    "sn_leaseCache s k' = Some r'" "lease_key (h ! r') = a"
    by (auto simp: bindings_def split: if_splits)
  then have "sn_leaseCache s a = Some r" "sn_leaseCache s a = Some r'" "k = lease_MAC (h ! r)" "k' = lease_MAC (h ! r')"
    using cache_okD [OF ok, of k r] cache_okD [OF ok, of k' r'] by (auto simp: entry_ok_def lease_wf_def)
  then show "k = k'" by simp
qed

interpretation leases: address_book cache_ok bindings admits_lease put_lease lease_MAC lease_key
proof unfold_locales
  fix st :: subnet_state and l :: Lease
  obtain h s where st: "st = (h, s)" by (cases st)
  show "cache_ok (put_lease l st)" if "cache_ok st" "admits_lease l st"
    using that unfolding st by (rule cache_ok_put)
  show "bindings (put_lease l st) = rebind (lease_MAC l) (lease_key l) (bindings st)"
    if "cache_ok st" "admits_lease l st"
    using that unfolding st by (rule bindings_put)
  show "exclusive (bindings st)" if "cache_ok st"
    using that unfolding st by (rule bindings_exclusive)
qed

section \<open>One request\<close>

definition subnet_inv :: "subnet_state \<Rightarrow> bool" where
  "subnet_inv st \<longleftrightarrow> pool_ok (snd st) \<and> cache_ok st"

abbreviation client_mac :: "DHCPv4 \<Rightarrow> string" where
  "client_mac req \<equiv> HardwareAddr_String (ClientHWAddr req)"

lemma hex_char_no_dot: "d < 16 \<Longrightarrow> hex_char d \<noteq> CHR ''.''"
proof -
  assume d: "d < 16"
  have "of_char (hex_char d) = (if d < 10 then 48 + d else 87 + d)" using d by (simp add: hex_char_def)
  moreover have "of_char (CHR ''.'') = (46 :: nat)" by simp
  ultimately show ?thesis by (auto split: if_splits)
qed

lemma hex_byte_no_dot: "CHR ''.'' \<notin> set (hex_byte b)"
  using hex_char_no_dot [of "unat b div 16"] hex_char_no_dot [of "unat b mod 16"] byte_less [of b]
  by (auto simp: hex_byte_def less_mult_imp_div_less)

lemma mac_key_HardwareAddr [simp]: "mac_key (HardwareAddr_String a)"
proof -
  have "CHR ''.'' \<notin> set (Join '':'' xs)" if "\<forall>x \<in> set xs. CHR ''.'' \<notin> set x" for xs
    using that by (induction "'':''" xs rule: Join.induct) auto
  then show ?thesis by (simp add: mac_key_def HardwareAddr_String_def hex_byte_no_dot)
qed

lemma IPv4_String_not_mac [simp]: "\<not> mac_key (IPv4_String i)"
  by (simp add: mac_key_def IPv4_String_def)

lemma To4_not_mac: "To4 ip = Some bs \<Longrightarrow> \<not> mac_key (IP_String ip)"
  using To4_IPv4 by fastforce

lemma GetLease_known:
  "sn_leaseCache s (client_mac req) = Some l \<Longrightarrow>
   GetLeaseForRequest lib t now h s req =
     Some (h, s, if isAddressZero (lib_RequestedIPAddress lib req) \<or>
                    IP_Equal (lib_RequestedIPAddress lib req) (lease_IP (h ! l)) then Some l else None)"
  by (simp add: GetLeaseForRequest_def Let_def)

lemma GetLease_requested:
  "sn_leaseCache s (client_mac req) = None \<Longrightarrow> \<not> isAddressZero (lib_RequestedIPAddress lib req) \<Longrightarrow>
   GetLeaseForRequest lib t now h s req =
     (case sn_leaseCache s (IP_String (lib_RequestedIPAddress lib req)) of
        Some _ \<Rightarrow> Some (h, s, None)
      | None \<Rightarrow> Some (h @ [NewLease s now (client_mac req) (lib_RequestedIPAddress lib req)], s, Some (length h)))"
  by (simp add: GetLeaseForRequest_def Let_def Lease_IsExpired_def split: option.split)

lemma GetLease_pool:
  assumes "pool_ok s" "sn_leaseCache s (client_mac req) = None" "isAddressZero (lib_RequestedIPAddress lib req)"
  shows "GetLeaseForRequest lib t now h s req =
    Some (pool_result (client_mac req) now h (advance_pool s) (sn_currentIP (advance_pool s))
      (pool_scan h s (expired_before t (sn_LeaseTime s)) None
        (ring_from (advance_pool s) (sn_currentIP (advance_pool s)))))"
proof -
  have "pool_scan h (advance_pool s) t' q xs = pool_scan h s t' q xs" for t' q xs
    by (induction h s t' q xs rule: pool_scan.induct) (simp_all add: op_simps split: option.split)
  then show ?thesis
    using assms pool_loop_ring [OF advance_in_ring [OF assms(1)]]
    by (simp add: GetLeaseForRequest_def Let_def op_simps)
qed

lemma ring_advance [simp]:
  "ring_lo (advance_pool s) = ring_lo s" "in_ring (advance_pool s) = in_ring s"
  by (auto simp: ring_lo_def in_ring_def op_simps fun_eq_iff)

lemma set_ring_advance:
  "pool_ok s \<Longrightarrow> set (ring_from (advance_pool s) (sn_currentIP (advance_pool s))) = {ring_lo s .. sn_iPTo s}"
  using set_ring_from [OF advance_in_ring] by (simp add: op_simps)

text \<open>A pool allocation is one \<open>put\<close> of the address book.\<close>

definition pool_lease :: "Subnet \<Rightarrow> go_time \<Rightarrow> string \<Rightarrow> IPv4 \<Rightarrow> Lease" where
  "pool_lease s now mac ip = NewLease s now mac (ip_of ip)"

lemma pool_result_Free:
  "pool_result mac now h s first (Free ip) =
     (let st = put_lease (pool_lease s now mac ip) (h, s\<lparr>sn_currentIP := ip\<rparr>)
      in (fst st, snd st, Some (length h)))"
  by (simp add: pool_result_def put_lease_def pool_lease_def NewLease_def Let_def)

lemma pool_lease_simps [simp]:
  "lease_MAC (pool_lease s now mac ip) = mac"
  "lease_IP (pool_lease s now mac ip) = ip_of ip"
  by (simp_all add: pool_lease_def NewLease_def)

lemma cache_ok_cong:
  "sn_leaseCache s = sn_leaseCache s' \<Longrightarrow> cache_ok (h, s) = cache_ok (h, s')"
  "sn_leaseCache s = sn_leaseCache s' \<Longrightarrow> bindings (h, s) = bindings (h, s')"
  "sn_leaseCache s = sn_leaseCache s' \<Longrightarrow> admits_lease l (h, s) = admits_lease l (h, s')"
  by (simp add: cache_ok_def, rule ext, simp add: bindings_def, simp add: admits_lease_def)

lemma entry_ok_alloc: "entry_ok h c k r \<Longrightarrow> entry_ok (h @ [l]) c k r"
  by (auto simp: entry_ok_def nth_append)

lemma cache_ok_alloc: "cache_ok (h, s) \<Longrightarrow> cache_ok (h @ [l], s)"
  by (simp add: cache_ok_def entry_ok_alloc)

lemma bindings_alloc:
  assumes "cache_ok (h, s)"
  shows "bindings (h @ [l], s) = bindings (h, s)"
proof
  fix k
  show "bindings (h @ [l], s) k = bindings (h, s) k"
    using cache_okD [OF assms, of k]
    by (cases "sn_leaseCache s k") (auto simp: bindings_def entry_ok_def nth_append)
qed

lemma pool_ok_cursor:
  "pool_ok s \<Longrightarrow> in_ring s ip \<Longrightarrow> sn_iPFrom s' = sn_iPFrom s \<Longrightarrow> sn_iPTo s' = sn_iPTo s
   \<Longrightarrow> sn_currentIP s' = ip \<Longrightarrow> pool_ok s'"
  by (auto simp: pool_ok_def in_ring_def ring_lo_def split: if_splits)

lemma pool_ok_cong:
  "sn_iPFrom s' = sn_iPFrom s \<Longrightarrow> sn_iPTo s' = sn_iPTo s \<Longrightarrow> sn_currentIP s' = sn_currentIP s
   \<Longrightarrow> pool_ok s' = pool_ok s"
  by (simp add: pool_ok_def in_ring_def ring_lo_def)

lemma put_lease_same [op_simps]:
  "sn_iPFrom (snd (put_lease l (h, s))) = sn_iPFrom s"
  "sn_iPTo (snd (put_lease l (h, s))) = sn_iPTo s"
  "sn_currentIP (snd (put_lease l (h, s))) = sn_currentIP s"
  "fst (put_lease l (h, s)) = h @ [l]"
  by (simp_all add: put_lease_def op_simps)

lemma pool_lease_admitted:
  "mac_key mac \<Longrightarrow> sn_leaseCache s mac = None \<Longrightarrow>
   admits_lease (pool_lease s' now mac ip) (h, s\<lparr>sn_currentIP := c\<rparr>)"
  by (simp add: admits_lease_def lease_wf_def)

text \<open>
  A request is answered in one of four ways: the lease of a known client, a refusal, a
  fresh lease for the address the client asked for, which is not recorded, or the
  outcome of the pool search.
\<close>

inductive answer :: "dhcpv4_lib \<Rightarrow> go_time \<Rightarrow> go_time \<Rightarrow> DHCPv4 \<Rightarrow> subnet_state \<Rightarrow> subnet_state \<Rightarrow> lref option \<Rightarrow> bool"
  for lib t now req where
  known: "sn_leaseCache s (client_mac req) = Some l \<Longrightarrow> answer lib t now req (h, s) (h, s) (Some l)"
| refused: "answer lib t now req (h, s) (h, s) None"
| unrecorded: "sn_leaseCache s (client_mac req) = None \<Longrightarrow> \<not> isAddressZero (lib_RequestedIPAddress lib req) \<Longrightarrow>
    sn_leaseCache s (IP_String (lib_RequestedIPAddress lib req)) = None \<Longrightarrow>
    answer lib t now req (h, s)
      (h @ [NewLease s now (client_mac req) (lib_RequestedIPAddress lib req)], s) (Some (length h))"
| allocated: "sn_leaseCache s (client_mac req) = None \<Longrightarrow> in_ring s ip \<Longrightarrow>
    sn_leaseCache s (IPv4_String ip) = None \<Longrightarrow>
    answer lib t now req (h, s)
      (put_lease (pool_lease (advance_pool s) now (client_mac req) ip) (h, (advance_pool s)\<lparr>sn_currentIP := ip\<rparr>))
      (Some (length h))"
| exhausted: "sn_leaseCache s (client_mac req) = None \<Longrightarrow>
    (\<forall>ip. in_ring s ip \<longrightarrow> sn_leaseCache s (IPv4_String ip) \<noteq> None) \<Longrightarrow>
    oldest_of h (expired_before t (sn_LeaseTime s))
      ((\<lambda>x. the (sn_leaseCache s (IPv4_String x))) ` {ring_lo s .. sn_iPTo s}) q \<Longrightarrow>
    answer lib t now req (h, s) (h, advance_pool s) q"

lemma advance_cursor_id: "(advance_pool s)\<lparr>sn_currentIP := sn_currentIP (advance_pool s)\<rparr> = advance_pool s"
  by simp

lemma GetLease_pool_answer:
  assumes "pool_ok s" "sn_leaseCache s (client_mac req) = None" "isAddressZero (lib_RequestedIPAddress lib req)"
  shows "\<exists>st' q. GetLeaseForRequest lib t now h s req = Some (fst st', snd st', q) \<and> answer lib t now req (h, s) st' q"
proof -
  let ?ips = "ring_from (advance_pool s) (sn_currentIP (advance_pool s))"
  let ?t = "expired_before t (sn_LeaseTime s)"
  note eq = GetLease_pool [OF assms]
  show ?thesis
  proof (cases "pool_scan h s ?t None ?ips")
    case (Free ip)
    from pool_scan_Free [OF Free] have "ip \<in> set ?ips" "sn_leaseCache s (IPv4_String ip) = None"
      by auto
    then have "in_ring s ip" using set_ring_advance [OF assms(1)] by (simp add: in_ring_def)
    then have "answer lib t now req (h, s)
        (put_lease (pool_lease (advance_pool s) now (client_mac req) ip) (h, (advance_pool s)\<lparr>sn_currentIP := ip\<rparr>))
        (Some (length h))"
      using assms(2) \<open>sn_leaseCache s (IPv4_String ip) = None\<close> by (intro answer.allocated)
    with Free show ?thesis
      unfolding eq by (metis pool_result_Free)
  next
    case (Exhausted q)
    have "answer lib t now req (h, s) (h, advance_pool s) q"
      using pool_scan_Exhausted [OF Exhausted] pool_scan_oldest [OF Exhausted] set_ring_advance [OF assms(1)] assms(2)
      by (intro answer.exhausted) (auto simp: in_ring_def)
    with Exhausted show ?thesis
      unfolding eq by (auto simp: pool_result_def)
  qed
qed

lemma GetLease_answer:
  assumes "pool_ok s"
  shows "\<exists>st' q. GetLeaseForRequest lib t now h s req = Some (fst st', snd st', q) \<and> answer lib t now req (h, s) st' q"
proof (cases "sn_leaseCache s (client_mac req)")
  case (Some l)
  then show ?thesis by (auto simp: GetLease_known intro: answer.known answer.refused)
next
  case None
  show ?thesis
  proof (cases "isAddressZero (lib_RequestedIPAddress lib req)")
    case True
    show ?thesis by (rule GetLease_pool_answer [OF assms None True])
  next
    case False
    with None show ?thesis
      by (cases "sn_leaseCache s (IP_String (lib_RequestedIPAddress lib req))")
        (auto simp: GetLease_requested intro: answer.refused answer.unrecorded)
  qed
qed

lemma GetLease_answerE:
  assumes "pool_ok s" "GetLeaseForRequest lib t now h s req = Some (h', s', q)"
  shows "answer lib t now req (h, s) (h', s') q"
proof -
  from GetLease_answer [OF assms(1), of lib t now h req] assms(2)
  obtain st' where "st' = (h', s')" "answer lib t now req (h, s) st' q" by (auto simp: prod_eq_iff)
  then show ?thesis by simp
qed

text \<open>The invariant of a subnet is kept, and no binding is ever lost to a request.\<close>

lemma allocated_put:
  fixes now :: go_time
  assumes "subnet_inv (h, s)" "mac_key mac" "sn_leaseCache s mac = None" "in_ring s ip"
    "sn_leaseCache s (IPv4_String ip) = None"
  defines "st \<equiv> (h, (advance_pool s)\<lparr>sn_currentIP := ip\<rparr>)"
  defines "st' \<equiv> put_lease (pool_lease (advance_pool s) now mac ip) st"
  shows "cache_ok st" and "admits_lease (pool_lease (advance_pool s) now mac ip) st"
    and "bindings st = bindings (h, s)" and "subnet_inv st'"
    and "bindings (h, s) k = Some a \<Longrightarrow> bindings st' k = Some a"
    and "bindings st' mac = Some (IPv4_String ip)"
proof -
  have c: "sn_leaseCache ((advance_pool s)\<lparr>sn_currentIP := ip\<rparr>) = sn_leaseCache s"
    by (simp add: op_simps)
  show ok: "cache_ok st"
    using assms(1) cache_ok_cong(1) [OF c] by (simp add: st_def subnet_inv_def)
  show adm: "admits_lease (pool_lease (advance_pool s) now mac ip) st"
    using assms(2,3) by (simp add: st_def pool_lease_admitted op_simps)
  show b: "bindings st = bindings (h, s)"
    unfolding st_def by (rule cache_ok_cong(2) [OF c])
  have "pool_ok s" using assms(1) by (simp add: subnet_inv_def)
  then have "pool_ok (snd st')"
    using assms(4) by (rule pool_ok_cursor) (simp_all add: st'_def st_def op_simps)
  moreover have "cache_ok st'"
    unfolding st'_def by (rule leases.invar_put [OF ok adm])
  ultimately show "subnet_inv st'" by (simp add: subnet_inv_def)
  show "bindings st' mac = Some (IPv4_String ip)"
    using leases.put_owner [OF ok adm] by (simp add: st'_def)
  assume k: "bindings (h, s) k = Some a"
  then obtain r where r: "mac_key k" "sn_leaseCache s k = Some r" "a = lease_key (h ! r)"
    by (auto simp: bindings_def split: if_splits)
  moreover from this have "sn_leaseCache s a = Some r"
    using assms(1) cache_okD [of h s k r] by (auto simp: subnet_inv_def entry_ok_def)
  ultimately show "bindings st' k = Some a"
    unfolding st'_def using k assms(3,5) by (intro leases.put_keeps [OF ok adm]) (auto simp: b)
qed

lemma allocated_bindings:
  fixes now :: go_time
  assumes "subnet_inv (h, s)" "mac_key mac" "sn_leaseCache s mac = None" "in_ring s ip"
    "sn_leaseCache s (IPv4_String ip) = None"
  defines "l \<equiv> pool_lease (advance_pool s) now mac ip" and "st \<equiv> (h, (advance_pool s)\<lparr>sn_currentIP := ip\<rparr>)"
  shows "bindings (put_lease l st) = (bindings (h, s))(mac \<mapsto> IPv4_String ip)"
    and "bindings (h, s) k \<noteq> Some (IPv4_String ip)"
proof -
  note pre = allocated_put(1,3) [OF assms(1-5), folded st_def]
  note put = allocated_put(2,4,5,6) [OF assms(1-5), where now = now, folded st_def l_def]
  have free: "bindings (h, s) k \<noteq> Some (IPv4_String ip)" for k
  proof
    assume k: "bindings (h, s) k = Some (IPv4_String ip)"
    then have "k = mac"
      using leases.no_sharing [of "put_lease l st" k "IPv4_String ip" mac] put(2,4) put(3) [OF k]
      by (simp add: subnet_inv_def)
    with k assms(3) show False by (simp add: bindings_def split: if_splits)
  qed
  then show "bindings (h, s) k \<noteq> Some (IPv4_String ip)" .
  show "bindings (put_lease l st) = (bindings (h, s))(mac \<mapsto> IPv4_String ip)"
    using leases.book_put [OF pre(1) put(1)] pre(2) free by (auto simp: l_def rebind_def)
qed

lemma answer_bindings:
  assumes "answer lib t now req (h, s) st' q" "subnet_inv (h, s)"
  shows "bindings st' = bindings (h, s) \<or>
    (\<exists>ip. in_ring s ip \<and> bindings (h, s) (client_mac req) = None \<and> IPv4_String ip \<notin> ran (bindings (h, s)) \<and>
       bindings st' = (bindings (h, s))(client_mac req \<mapsto> IPv4_String ip))"
  using assms(1)
proof cases
  case unrecorded
  with assms(2) show ?thesis by (simp add: subnet_inv_def bindings_alloc)
next
  case (allocated ip)
  note new = allocated_bindings [OF assms(2) mac_key_HardwareAddr allocated(3-5)]
  have "bindings (h, s) (client_mac req) = None" using allocated(3) by (simp add: bindings_def)
  moreover have "IPv4_String ip \<notin> ran (bindings (h, s))" using new(2) by (auto simp: ran_def)
  ultimately show ?thesis using new(1) [where now = now] allocated(1,4) by blast
next
  case exhausted
  then show ?thesis using cache_ok_cong(2) [of "advance_pool s" s h] by (simp add: op_simps)
qed simp_all

lemma answer_inv:
  assumes "answer lib t now req (h, s) st' q" "subnet_inv (h, s)"
  shows "subnet_inv st' \<and> (\<forall>k a. bindings (h, s) k = Some a \<longrightarrow> bindings st' k = Some a)"
  using assms(1)
proof cases
  case unrecorded
  with assms(2) show ?thesis
    by (auto simp: subnet_inv_def cache_ok_alloc bindings_alloc)
next
  case (allocated ip)
  show ?thesis
    using allocated_put(4,5) [OF assms(2) mac_key_HardwareAddr allocated(3-5)] unfolding allocated(1) by blast
next
  case exhausted
  have "pool_ok (advance_pool s)"
    using assms(2) advance_in_ring [of s] by (auto simp: subnet_inv_def pool_ok_def op_simps)
  then show ?thesis
    using assms(2) exhausted cache_ok_cong(1,2) [of "advance_pool s" s h] by (simp add: subnet_inv_def op_simps)
qed (use assms(2) in auto)

definition serve :: "dhcpv4_lib \<Rightarrow> go_time \<times> go_time \<times> DHCPv4 \<Rightarrow> subnet_state \<Rightarrow> subnet_state" where
  "serve lib x st =
     (case x of (t, now, req) \<Rightarrow>
        (case GetLeaseForRequest lib t now (fst st) (snd st) req of
           None \<Rightarrow> st
         | Some (h, s, _) \<Rightarrow> (h, s)))"

lemma serve_answer:
  "subnet_inv (h, s) \<Longrightarrow> \<exists>q. answer lib t now req (h, s) (serve lib (t, now, req) (h, s)) q"
  using GetLease_answer [of s lib t now h req] by (auto simp: serve_def subnet_inv_def)

interpretation requests: stepper "serve lib" subnet_inv "\<lambda>_. True" for lib
proof unfold_locales
  fix st :: subnet_state and x :: "go_time \<times> go_time \<times> DHCPv4"
  assume inv: "subnet_inv st"
  obtain h s t now req where eq: "st = (h, s)" "x = (t, now, req)" by (cases st, cases x)
  with inv obtain q where "answer lib t now req (h, s) (serve lib x st) q"
    using serve_answer by blast
  then show "subnet_inv (serve lib x st)"
    using answer_inv inv unfolding eq by simp
qed

section \<open>Properties of the lease cache\<close>

lemma subnet_inv_fresh:
  "sn_iPFrom s \<le> sn_iPTo s \<Longrightarrow> sn_currentIP s = 0 \<Longrightarrow> sn_leaseCache s = Map.empty \<Longrightarrow> subnet_inv (h, s)"
  by (simp add: subnet_inv_def pool_ok_def cache_ok_def)

lemma sample_inv: "subnet_inv ([], sample_subnet)"
  by (rule subnet_inv_fresh) (simp_all add: sample_subnet_def)

text \<open>In every state a run of requests leaves the subnet in, the search for a lease
  returns: \<open>GetLeaseForRequest\<close> never loops forever, whatever the cache holds.\<close>

lemma GetLeaseForRequest_returns:
  assumes "subnet_inv st"
  shows "\<exists>h' s' q. GetLeaseForRequest lib t now (fst (fold (serve lib) xs st)) (snd (fold (serve lib) xs st)) req
    = Some (h', s', q)"
proof -
  have "pool_ok (snd (fold (serve lib) xs st))"
    using requests.run_inv [OF assms, of xs lib] by (simp add: subnet_inv_def list.pred_True)
  then show ?thesis using GetLease_answer by blast
qed

text \<open>Two clients never hold the same address: in every state reached by requests,
  the clients the cache knows have pairwise different addresses.\<close>

lemma no_double_booking:
  assumes "subnet_inv st"
    and "bindings (fold (serve lib) xs st) m = Some a" "bindings (fold (serve lib) xs st) m' = Some a"
  shows "m = m'"
  using leases.no_sharing [OF _ assms(2,3)] requests.run_inv [OF assms(1), of xs lib]
  by (simp add: subnet_inv_def list.pred_True)

text \<open>A binding is never lost or changed by requests, of this client or of others.\<close>

lemma bindings_stable:
  assumes "subnet_inv st" "bindings st m = Some a"
  shows "bindings (fold (serve lib) xs st) m = Some a"
proof (rule requests.run_keeps [where P = "\<lambda>st. bindings st m = Some a", OF _ assms(1) _ assms(2)])
  show "list_all (\<lambda>_. True) xs" by (simp add: list.pred_True)
next
  fix st and x :: "go_time \<times> go_time \<times> DHCPv4"
  assume inv: "subnet_inv st" and b: "bindings st m = Some a"
  obtain h s t now req where eq: "st = (h, s)" "x = (t, now, req)" by (cases st, cases x)
  then obtain q where "answer lib t now req (h, s) (serve lib x st) q"
    using serve_answer inv by blast
  then show "bindings (serve lib x st) m = Some a"
    using answer_inv inv b unfolding eq by fastforce
qed

lemma NewLease_advance: "NewLease (advance_pool s) now mac ip = NewLease s now mac ip"
  by (simp add: NewLease_def advance_pool_def increment_eq)

text \<open>C3: a new client that asks for no address gets the first address of the ring, from the
  cursor on, that no lease holds. The address lies in the configured range (for a range
  that does not end at 255.255.255.255), the lease carries the subnet's settings, and the
  cache binds the client to it and keeps every other binding.\<close>

theorem pool_allocates_first_free:
  assumes inv: "subnet_inv (h, s)"
    and unknown: "sn_leaseCache s (client_mac req) = None"
    and zero: "isAddressZero (lib_RequestedIPAddress lib req)"
    and free: "in_ring s x" "sn_leaseCache s (IPv4_String x) = None"
  shows "\<exists>ip s' xs ys.
    GetLeaseForRequest lib t now h s req =
      Some (h @ [NewLease s now (client_mac req) (ip_of ip)], s', Some (length h)) \<and>
    ip \<le> sn_iPTo s \<and> (sn_iPTo s \<noteq> -1 \<longrightarrow> sn_iPFrom s \<le> ip) \<and>
    ring_from (advance_pool s) (sn_currentIP (advance_pool s)) = xs @ ip # ys \<and>
    (\<forall>y \<in> set xs. sn_leaseCache s (IPv4_String y) \<noteq> None) \<and>
    sn_leaseCache s (IPv4_String ip) = None \<and>
    bindings (h @ [NewLease s now (client_mac req) (ip_of ip)], s') =
      (bindings (h, s))(client_mac req \<mapsto> IPv4_String ip)"
proof -
  let ?ips = "ring_from (advance_pool s) (sn_currentIP (advance_pool s))"
  let ?t = "expired_before t (sn_LeaseTime s)"
  have ok: "pool_ok s" using inv by (simp add: subnet_inv_def)
  have "x \<in> set ?ips" using free(1) set_ring_advance [OF ok] by (simp add: in_ring_def)
  then obtain ip where ip: "pool_scan h s ?t None ?ips = Free ip"
    using free(2) pool_scan_free_iff by blast
  from pool_scan_Free [OF ip] obtain xs ys where split: "?ips = xs @ ip # ys"
    "sn_leaseCache s (IPv4_String ip) = None" "\<forall>y \<in> set xs. sn_leaseCache s (IPv4_String y) \<noteq> None" by blast
  have ring: "in_ring s ip"
    using split(1) set_ring_advance [OF ok] by (auto simp: in_ring_def)
  define st where "st = (h, (advance_pool s)\<lparr>sn_currentIP := ip\<rparr>)"
  define l where "l = pool_lease (advance_pool s) now (client_mac req) ip"
  have lease: "l = NewLease s now (client_mac req) (ip_of ip)"
    by (simp add: l_def pool_lease_def NewLease_advance)
  have b: "bindings (put_lease l st) = (bindings (h, s))(client_mac req \<mapsto> IPv4_String ip)"
    unfolding l_def st_def by (rule allocated_bindings(1) [OF inv mac_key_HardwareAddr unknown ring split(2)])
  have res: "GetLeaseForRequest lib t now h s req = Some (h @ [l], snd (put_lease l st), Some (length h))"
    using ip GetLease_pool [OF ok unknown zero]
    by (simp add: pool_result_Free Let_def op_simps flip: l_def st_def) (simp add: st_def op_simps)
  have pair: "(h @ [l], snd (put_lease l st)) = put_lease l st"
    by (simp add: st_def put_lease_def)
  from ring have "ip \<le> sn_iPTo s" "sn_iPTo s \<noteq> -1 \<longrightarrow> sn_iPFrom s \<le> ip"
    by (auto simp: in_ring_def ring_lo_def)
  then show ?thesis
    using res b split pair unfolding lease by metis
qed

theorem pool_allocates_first_free_witness:
  "\<exists>ip s'. GetLeaseForRequest sample_lib 5 5 [] sample_subnet (sample_packet 1 Map.empty) =
      Some ([NewLease sample_subnet 5 (HardwareAddr_String [0, 0, 0, 0, 0, 1]) (ip_of ip)], s', Some 0) \<and>
    ip \<le> 167837955 \<and> 167837953 \<le> ip"
  using pool_allocates_first_free [where req = "sample_packet 1 Map.empty" and lib = sample_lib and
      x = 167837954 and t = 5 and now = 5, OF sample_inv]
  by (auto simp: isAddressZero_def in_ring_def ring_lo_def) (auto simp: sample_subnet_def)

end
