(* ===== verification/Dhcp_Subnet_Props.thy ===== *)
theory Dhcp_Subnet_Props
  imports Dhcp_Leases
begin

text \<open>
  Further properties of a subnet: what happens when the pool is exhausted, requests for a
  particular address, and static hosts. Two theorems state what the code does where it
  does not do what it means to: a recycled lease stays with its old owner, and an address
  a client asks for is granted without being recorded.
\<close>

section \<open>An exhausted pool\<close>

definition pool_full :: "Subnet \<Rightarrow> bool" where
  "pool_full s \<longleftrightarrow> (\<forall>ip. in_ring s ip \<longrightarrow> sn_leaseCache s (IPv4_String ip) \<noteq> None)"

definition ring_leases :: "Subnet \<Rightarrow> lref set" where
  "ring_leases s = {r. \<exists>x. in_ring s x \<and> sn_leaseCache s (IPv4_String x) = Some r}"

lemma exhausted_pool:
  assumes "pool_ok s" "sn_leaseCache s (client_mac req) = None"
    "isAddressZero (lib_RequestedIPAddress lib req)" "pool_full s"
  shows "\<exists>q. GetLeaseForRequest lib t now h s req = Some (h, advance_pool s, q) \<and>
    oldest_of h (expired_before t (sn_LeaseTime s)) (ring_leases s) q"
proof -
  let ?ips = "ring_from (advance_pool s) (sn_currentIP (advance_pool s))"
  let ?t = "expired_before t (sn_LeaseTime s)"
  have ips: "set ?ips = {x. in_ring s x}"
    unfolding set_ring_advance [OF assms(1)] in_ring_def atLeastAtMost_iff [symmetric] by (rule Collect_mem_eq [symmetric])
  have full: "\<forall>x \<in> set ?ips. sn_leaseCache s (IPv4_String x) \<noteq> None"
    unfolding ips using assms(4) by (simp add: pool_full_def)
  then have "\<nexists>ip. pool_scan h s ?t None ?ips = Free ip"
    using pool_scan_free_iff [of h s ?t None ?ips] by blast
  then obtain q where q: "pool_scan h s ?t None ?ips = Exhausted q"
    by (cases "pool_scan h s ?t None ?ips") auto
  have "(\<lambda>x. the (sn_leaseCache s (IPv4_String x))) ` set ?ips = ring_leases s"
    using full unfolding ips ring_leases_def by force
  then have "oldest_of h ?t (ring_leases s) q"
    using pool_scan_oldest [OF q] by simp
  moreover have "GetLeaseForRequest lib t now h s req = Some (h, advance_pool s, q)"
    using q GetLease_pool [OF assms(1-3)] by (simp add: pool_result_def)
  ultimately show ?thesis by blast
qed

text \<open>C18: when every address of the ring is leased, the search changes nothing but the cursor
  and returns the least recently updated of the leases that have expired, or nil when none has.\<close>

theorem exhausted_pool_returns_oldest:
  assumes "pool_ok s" "sn_leaseCache s (client_mac req) = None"
    "isAddressZero (lib_RequestedIPAddress lib req)" "pool_full s"
  shows "\<exists>q. GetLeaseForRequest lib t now h s req = Some (h, advance_pool s, q) \<and>
    oldest_of h (t + int64 (- 1000000000 * sn_LeaseTime s)) (ring_leases s) q"
  using exhausted_pool [OF assms, of t now h] by (simp add: expired_before_def Second_def)

text \<open>A pool of one address, leased to the client with the hardware address ending in 1.\<close>

definition full_subnet :: "Subnet" where
  "full_subnet = sample_subnet\<lparr>sn_iPTo := 167837953, sn_currentIP := 167837953,
     sn_leaseCache := [IPv4_String 167837953 \<mapsto> 0, HardwareAddr_String [0, 0, 0, 0, 0, 1] \<mapsto> 0]\<rparr>"

definition full_heap :: lease_heap where
  "full_heap = [NewLease sample_subnet 1000 (HardwareAddr_String [0, 0, 0, 0, 0, 1]) (ip_of 167837953)]"

lemma full_simps [simp]:
  "sn_iPFrom full_subnet = 167837953" "sn_iPTo full_subnet = 167837953"
  "sn_currentIP full_subnet = 167837953" "sn_LeaseTime full_subnet = 14400"
  by (simp_all add: full_subnet_def sample_subnet_def)

lemma full_cache: "sn_leaseCache full_subnet = [IPv4_String 167837953 \<mapsto> 0, HardwareAddr_String [0, 0, 0, 0, 0, 1] \<mapsto> 0]"
  by (simp add: full_subnet_def)

lemma full_ring: "in_ring full_subnet x \<longleftrightarrow> x = 167837953"
  by (auto simp: in_ring_def ring_lo_def)

lemma full_pool_ok: "pool_ok full_subnet"
  by (simp add: pool_ok_def full_ring)

lemma full_lease: "full_heap ! 0 = NewLease sample_subnet 1000 (HardwareAddr_String [0, 0, 0, 0, 0, 1]) (ip_of 167837953)"
  by (simp add: full_heap_def)

lemma mac_neq_ip: "mac_key k \<Longrightarrow> k \<noteq> IPv4_String i"
  by auto

lemma sample_mac_neq: "HardwareAddr_String [0, 0, 0, 0, 0, 1] \<noteq> HardwareAddr_String [0, 0, 0, 0, 0, 2]"
  by (simp add: HardwareAddr_String_def hex_byte_def hex_char_def)

lemma full_lookup:
  "sn_leaseCache full_subnet (HardwareAddr_String [0, 0, 0, 0, 0, 2]) = None"
  "sn_leaseCache full_subnet (IPv4_String 167837953) = Some 0"
  using mac_neq_ip [OF mac_key_HardwareAddr] sample_mac_neq by (auto simp: full_cache)

lemma full_pool_full: "pool_full full_subnet"
  by (simp add: pool_full_def full_ring full_lookup)

lemma full_leases: "ring_leases full_subnet = {0}"
  by (auto simp: ring_leases_def full_ring full_lookup)

lemma full_cache_ok: "cache_ok (full_heap, full_subnet)"
  by (auto simp: cache_ok_def entry_ok_def lease_wf_def NewLease_def full_heap_def full_cache split: if_splits)

theorem exhausted_pool_returns_oldest_witness:
  "\<exists>q. GetLeaseForRequest sample_lib 5 5 full_heap full_subnet (sample_packet 2 Map.empty) =
     Some (full_heap, advance_pool full_subnet, q) \<and>
   oldest_of full_heap (5 + int64 (- 1000000000 * 14400)) {0} q"
  using exhausted_pool_returns_oldest [OF full_pool_ok _ _ full_pool_full,
      where req = "sample_packet 2 Map.empty" and lib = sample_lib and t = 5 and now = 5 and h = full_heap]
  by (simp only: sample_packet_simps sample_lib_simps isAddressZero_def full_leases full_simps full_lookup) simp

text \<open>C19: a lease the exhausted pool recycles is still the lease of its old owner, and the client
  it was offered to cannot take it: its request for the offered address is refused.\<close>

theorem recycled_offer_is_refused:
  assumes "cache_ok (h, s)" "pool_ok s" "sn_leaseCache s (client_mac req) = None"
    "isAddressZero (lib_RequestedIPAddress lib req)" "pool_full s"
    and offer: "GetLeaseForRequest lib t now h s req = Some (h', s', Some q)"
    and req': "client_mac req' = client_mac req"
      "IP_String (lib_RequestedIPAddress lib req') = IP_String (lease_IP (h' ! q))"
      "\<not> isAddressZero (lib_RequestedIPAddress lib req')"
  shows "lease_MAC (h' ! q) \<noteq> client_mac req \<and>
    GetLeaseForRequest lib t' now' h' s' req' = Some (h', s', None)"
proof -
  from exhausted_pool [OF assms(2-5), of t now h] offer
  have eq: "h' = h" "s' = advance_pool s" and "q \<in> ring_leases s"
    by (simp_all add: oldest_of_def)
  then have "entry_ok h (sn_leaseCache s) (lease_key (h ! q)) q"
    using cache_okD [OF assms(1)] by (auto simp: entry_ok_def ring_leases_def)
  then have c: "sn_leaseCache s (lease_MAC (h ! q)) = Some q" "sn_leaseCache s (lease_key (h ! q)) = Some q"
    by (auto simp: entry_ok_def)
  have "GetLeaseForRequest lib t' now' h' s' req' = Some (h', s', None)"
    using c req' assms(3) by (subst GetLease_requested) (simp_all add: eq op_simps)
  with c(1) assms(3) eq show ?thesis by auto
qed

lemma full_recycles:
  "GetLeaseForRequest sample_lib 100000000000000 5 full_heap full_subnet (sample_packet 2 Map.empty) =
     Some (full_heap, advance_pool full_subnet, Some 0)"
proof -
  have "sn_leaseCache full_subnet (client_mac (sample_packet 2 Map.empty)) = None"
    "isAddressZero (lib_RequestedIPAddress sample_lib (sample_packet 2 Map.empty))"
    by (simp_all add: full_lookup isAddressZero_def)
  from exhausted_pool [OF full_pool_ok this full_pool_full, of 100000000000000 5 full_heap]
  show ?thesis
    by (auto simp: expired_before_def Second_def full_leases oldest_of_def expired_ref_def full_lease NewLease_def int64_def split: option.splits)
qed

theorem recycled_offer_is_refused_witness:
  "lease_MAC (full_heap ! 0) \<noteq> HardwareAddr_String [0, 0, 0, 0, 0, 2] \<and>
   GetLeaseForRequest sample_lib 100000000000001 6 full_heap (advance_pool full_subnet)
     (sample_packet 2 [50 \<mapsto> octets 167837953]) = Some (full_heap, advance_pool full_subnet, None)"
proof -
  have a: "client_mac (sample_packet 2 Map.empty) = HardwareAddr_String [0, 0, 0, 0, 0, 2]"
    "client_mac (sample_packet 2 [50 \<mapsto> octets 167837953]) = HardwareAddr_String [0, 0, 0, 0, 0, 2]"
    "lib_RequestedIPAddress sample_lib (sample_packet 2 [50 \<mapsto> octets 167837953]) = Some (octets 167837953)"
    "lib_RequestedIPAddress sample_lib (sample_packet 2 Map.empty) = None"
    by simp_all
  have "IP_String (Some (octets 167837953)) = IP_String (lease_IP (full_heap ! 0))"
    "\<not> isAddressZero (Some (octets 167837953))"
    by (simp_all add: full_lease NewLease_def IP_String_To4 IPv4_String_dotted isAddressZero_def
        IP_Equal_To4 IPv4zero_ip_of octets_inj)
  with recycled_offer_is_refused [OF full_cache_ok full_pool_ok _ _ full_pool_full full_recycles,
      where req' = "sample_packet 2 [50 \<mapsto> octets 167837953]" and t' = 100000000000001 and now' = 6]
  show ?thesis unfolding a by (simp add: full_lookup isAddressZero_def)
qed

section \<open>Requests for a particular address\<close>

text \<open>C20: an address that a new client asks for and that no lease holds is granted, whatever the
  address, but not recorded: a second client that asks for the same address gets it too.\<close>

theorem requested_address_granted_twice:
  assumes "sn_leaseCache s (client_mac req1) = None" "sn_leaseCache s (client_mac req2) = None"
    and "lib_RequestedIPAddress lib req1 = a" "lib_RequestedIPAddress lib req2 = a"
    and "\<not> isAddressZero a" "sn_leaseCache s (IP_String a) = None"
  shows "\<exists>h1 h2.
    GetLeaseForRequest lib t1 now1 h s req1 = Some (h1, s, Some (length h)) \<and>
    GetLeaseForRequest lib t2 now2 h1 s req2 = Some (h2, s, Some (Suc (length h))) \<and>
    lease_IP (h2 ! length h) = a \<and> lease_MAC (h2 ! length h) = client_mac req1 \<and>
    lease_IP (h2 ! Suc (length h)) = a \<and> lease_MAC (h2 ! Suc (length h)) = client_mac req2"
proof -
  let ?h1 = "h @ [NewLease s now1 (client_mac req1) a]"
  let ?h2 = "?h1 @ [NewLease s now2 (client_mac req2) a]"
  have "GetLeaseForRequest lib t1 now1 h s req1 = Some (?h1, s, Some (length h))"
    using assms by (simp add: GetLease_requested)
  moreover have "GetLeaseForRequest lib t2 now2 ?h1 s req2 = Some (?h2, s, Some (Suc (length h)))"
    using assms by (subst GetLease_requested) simp_all
  moreover have "?h2 ! length h = NewLease s now1 (client_mac req1) a"
    "?h2 ! Suc (length h) = NewLease s now2 (client_mac req2) a"
    by (simp_all add: nth_append)
  ultimately show ?thesis
    by (metis NewLease_simps(1,2))
qed

theorem requested_address_granted_twice_witness:
  "\<exists>h1 h2.
    GetLeaseForRequest sample_lib 1 1 [] sample_subnet (sample_packet 1 [50 \<mapsto> octets 134744072]) =
      Some (h1, sample_subnet, Some 0) \<and>
    GetLeaseForRequest sample_lib 2 2 h1 sample_subnet (sample_packet 2 [50 \<mapsto> octets 134744072]) =
      Some (h2, sample_subnet, Some 1) \<and>
    lease_IP (h2 ! 0) = Some (octets 134744072) \<and> lease_IP (h2 ! 1) = Some (octets 134744072)"
proof -
  have "\<not> isAddressZero (Some (octets 134744072))"
    by (simp add: isAddressZero_def IP_Equal_To4 IPv4zero_ip_of octets_inj)
  with requested_address_granted_twice [where s = sample_subnet and lib = sample_lib and h = "[]" and
      ?req1.0 = "sample_packet 1 [50 \<mapsto> octets 134744072]" and ?req2.0 = "sample_packet 2 [50 \<mapsto> octets 134744072]" and
      a = "Some (octets 134744072)" and ?t1.0 = 1 and ?t2.0 = 2 and ?now1.0 = 1 and ?now2.0 = 2]
  show ?thesis by (auto simp: sample_subnet_def)
qed

section \<open>Static hosts\<close>

definition host_wf :: "Host \<Rightarrow> bool" where
  "host_wf x \<longleftrightarrow> mac_key (host_MAC x) \<and> \<not> mac_key (IP_String (host_IP x))"

lemma AddHost_put: "Subnet_AddHost h s x = put_lease (host_lease s x) (h, s)"
  by (simp add: Subnet_AddHost_def put_lease_def Let_def)

lemma host_lease_simps [simp]:
  "lease_MAC (host_lease s x) = host_MAC x"
  "lease_IP (host_lease s x) = host_IP x"
  by (simp_all add: host_lease_def)

lemma AddHost_cache:
  "sn_leaseCache (snd (Subnet_AddHost h s x)) =
    (case sn_leaseCache s (IP_String (host_IP x)) of
       None \<Rightarrow> sn_leaseCache s
     | Some old \<Rightarrow> (sn_leaseCache s)(lease_MAC ((h @ [host_lease s x]) ! old) := None))
    (IP_String (host_IP x) \<mapsto> length h, host_MAC x \<mapsto> length h)"
  "fst (Subnet_AddHost h s x) = h @ [host_lease s x]"
  by (simp_all add: Subnet_AddHost_def Subnet_AddLease_def Let_def split: option.split)


definition sample_host :: Host where
  "sample_host = \<lparr>host_Subnet = ''10.1.1.0/24'', host_MAC = ''00:00:00:00:00:09'', host_IP = ip_of 167837954,
     host_Gateway = None, host_ServerHostName = [], host_BootFileName = [], host_DNS = [], host_Options = [],
     host_LeaseTime = 60, host_HostName = ''pxe''\<rparr>"

lemma sample_host_wf: "host_wf sample_host"
proof -
  have "mac_key ''00:00:00:00:00:09''" by (simp add: mac_key_def)
  then show ?thesis by (simp add: host_wf_def sample_host_def)
qed


text \<open>Removing the entry of a lease under both its keys.\<close>

definition drop_keys :: "string \<Rightarrow> string \<Rightarrow> Subnet \<Rightarrow> Subnet" where
  "drop_keys m a s = s\<lparr>sn_leaseCache := (sn_leaseCache s)(m := None, a := None)\<rparr>"

lemma DeleteHost_drop: "Subnet_DeleteHost s x = drop_keys (host_MAC x) (IP_String (host_IP x)) s"
  by (simp add: Subnet_DeleteHost_def drop_keys_def)

lemma DeleteLease_drop: "Subnet_DeleteLease s l = drop_keys (lease_MAC l) (lease_key l) s"
  by (simp add: Subnet_DeleteLease_def drop_keys_def)

lemma drop_keys_cache_ok:
  assumes ok: "cache_ok (h, s)" and m: "sn_leaseCache s m = Some r" "mac_key m" "a = lease_key (h ! r)"
  shows "cache_ok (h, drop_keys m a s)" "bindings (h, drop_keys m a s) = (bindings (h, s))(m := None)"
proof -
  from cache_okD [OF ok m(1)] m(2,3) have r: "m = lease_MAC (h ! r)" "sn_leaseCache s a = Some r" "\<not> mac_key a"
    by (auto simp: entry_ok_def lease_wf_def)
  have "entry_ok h ((sn_leaseCache s)(m := None, a := None)) k q"
    if "sn_leaseCache s k = Some q" "k \<noteq> m" "k \<noteq> a" for k q
  proof -
    from cache_okD [OF ok that(1)] have e: "entry_ok h (sn_leaseCache s) k q" .
    then have "q \<noteq> r" using that(2,3) r(1) m(3) by (auto simp: entry_ok_def)
    then have "lease_MAC (h ! q) \<noteq> m" "lease_key (h ! q) \<noteq> a" "lease_MAC (h ! q) \<noteq> a" "lease_key (h ! q) \<noteq> m"
      using e r(2,3) m(1,2) by (auto simp: entry_ok_def lease_wf_def)
    with e show ?thesis by (auto simp: entry_ok_def)
  qed
  then show "cache_ok (h, drop_keys m a s)"
    by (auto simp: cache_ok_def drop_keys_def split: if_splits)
  show "bindings (h, drop_keys m a s) = (bindings (h, s))(m := None)"
    using r(3) by (auto simp: bindings_def drop_keys_def fun_eq_iff)
qed

text \<open>Deleting a static host that the cache knows removes exactly its binding, keeps the
  invariant, and frees its address for the pool.\<close>

lemma delete_host_frees_address:
  assumes "subnet_inv (h, s)" "mac_key (host_MAC x)" "sn_leaseCache s (host_MAC x) = Some r"
    "IP_String (lease_IP (h ! r)) = IP_String (host_IP x)"
  shows "subnet_inv (h, Subnet_DeleteHost s x) \<and>
    bindings (h, Subnet_DeleteHost s x) = (bindings (h, s))(host_MAC x := None) \<and>
    sn_leaseCache (Subnet_DeleteHost s x) (IP_String (host_IP x)) = None"
  using drop_keys_cache_ok [of h s "host_MAC x" r "IP_String (host_IP x)"] assms
    pool_ok_cong [of "Subnet_DeleteHost s x" s]
  by (simp add: subnet_inv_def DeleteHost_drop) (simp add: drop_keys_def)

theorem delete_host_frees_address_witness:
  "cache_ok (full_heap, Subnet_DeleteHost full_subnet
      (sample_host\<lparr>host_MAC := HardwareAddr_String [0, 0, 0, 0, 0, 1], host_IP := ip_of 167837953\<rparr>)) \<and>
   sn_leaseCache (Subnet_DeleteHost full_subnet
      (sample_host\<lparr>host_MAC := HardwareAddr_String [0, 0, 0, 0, 0, 1], host_IP := ip_of 167837953\<rparr>))
     (IPv4_String 167837953) = None"
  using delete_host_frees_address [of full_heap full_subnet
      "sample_host\<lparr>host_MAC := HardwareAddr_String [0, 0, 0, 0, 0, 1], host_IP := ip_of 167837953\<rparr>" 0]
  by (simp add: subnet_inv_def full_pool_ok full_cache_ok full_lease) (simp add: full_cache)

text \<open>The same for a lease that is deleted; a deleted lease is not found under either key.\<close>

lemma delete_lease_frees_address:
  assumes "subnet_inv (h, s)" "r < length h" "lease_wf (h ! r)" "sn_leaseCache s (lease_MAC (h ! r)) = Some r"
  shows "subnet_inv (h, Subnet_DeleteLease s (h ! r)) \<and>
    bindings (h, Subnet_DeleteLease s (h ! r)) = (bindings (h, s))(lease_MAC (h ! r) := None) \<and>
    sn_leaseCache (Subnet_DeleteLease s (h ! r)) (IP_String (lease_IP (h ! r))) = None"
  using drop_keys_cache_ok [of h s "lease_MAC (h ! r)" r "lease_key (h ! r)"] assms
    pool_ok_cong [of "Subnet_DeleteLease s (h ! r)" s]
  by (simp add: subnet_inv_def DeleteLease_drop lease_wf_def) (simp add: drop_keys_def)

text \<open>C21: the cache forgets a host that moved. After a host was given a second address, giving its
  first address to another host removes the moved host's entry, though its lease still
  occupies the second address.\<close>

theorem moved_host_is_forgotten:
  assumes "sn_leaseCache s = Map.empty"
    and "mac_key ma" "mac_key mb" "ma \<noteq> mb" "i \<noteq> j"
    and st1: "st1 = Subnet_AddHost h s (x\<lparr>host_MAC := ma, host_IP := ip_of i\<rparr>)"
    and st2: "st2 = Subnet_AddHost (fst st1) (snd st1) (x\<lparr>host_MAC := ma, host_IP := ip_of j\<rparr>)"
    and st3: "st3 = Subnet_AddHost (fst st2) (snd st2) (x\<lparr>host_MAC := mb, host_IP := ip_of i\<rparr>)"
  shows "sn_leaseCache (snd st2) ma = Some (Suc (length h)) \<and> sn_leaseCache (snd st3) ma = None \<and>
    sn_leaseCache (snd st3) (IPv4_String j) = Some (Suc (length h)) \<and>
    lease_MAC (fst st3 ! Suc (length h)) = ma"
proof -
  have n: "IPv4_String k \<noteq> ma" "IPv4_String k \<noteq> mb" "ma \<noteq> IPv4_String k" "mb \<noteq> IPv4_String k" for k
    using assms(2,3) by auto
  have ij: "IPv4_String i \<noteq> IPv4_String j" using assms(5) by (simp add: ip4.show_inj)
  define c1 c2 where "c1 = sn_leaseCache (snd st1)" and "c2 = sn_leaseCache (snd st2)"
  have c1: "c1 = [IPv4_String i \<mapsto> length h, ma \<mapsto> length h]"
    using assms(1) by (simp add: c1_def st1 AddHost_cache)
  have len: "length (fst st1) = Suc (length h)" "length (fst st2) = Suc (Suc (length h))"
    by (simp_all add: st1 st2 AddHost_cache)
  have "c1 (IPv4_String j) = None"
    using n ij by (auto simp: c1)
  then have c2: "c2 = c1(IPv4_String j \<mapsto> Suc (length h), ma \<mapsto> Suc (length h))"
    using len(1) by (simp add: c2_def c1_def st2 AddHost_cache)
  have macs: "lease_MAC (fst st3 ! length h) = ma" "lease_MAC (fst st3 ! Suc (length h)) = ma"
    by (simp_all add: st1 st2 st3 AddHost_cache nth_append)
  have "c2 (IPv4_String i) = Some (length h)"
    using n ij by (simp add: c2 c1)
  then have c3: "sn_leaseCache (snd st3) = c2(ma := None, IPv4_String i \<mapsto> Suc (Suc (length h)), mb \<mapsto> Suc (Suc (length h)))"
    using len(2) macs(1) by (simp add: st3 AddHost_cache c2_def)
  show ?thesis
    using macs(2) n ij assms(4) by (simp add: c3 c2_def [symmetric]) (simp add: c2)
qed

theorem moved_host_is_forgotten_witness:
  "\<exists>st2 st3. sn_leaseCache (snd st2) ''0:1'' = Some 1 \<and>
     st3 = Subnet_AddHost (fst st2) (snd st2) (sample_host\<lparr>host_MAC := ''0:2'', host_IP := ip_of 167837953\<rparr>) \<and>
     sn_leaseCache (snd st3) ''0:1'' = None"
  using moved_host_is_forgotten [of sample_subnet "''0:1''" "''0:2''" 167837953 167837954 _ "[]" sample_host, OF _ _ _ _ _ refl refl refl]
  by (simp add: mac_key_def) (auto simp: sample_subnet_def)

end
