(* ===== verification/Dhcp_Subnet_Init.thy ===== *)
theory Dhcp_Subnet_Init
  imports Dhcp_Leases
begin

unbundle bit_operations_syntax

text \<open>
  \<^verbatim>\<open>InitializeSubnet\<close> and the network test \<^verbatim>\<open>Contains\<close>: the byte-wise mask comparison of
  the Go library is the comparison of the first bits of the addresses, an initialised
  subnet satisfies the invariant of the pool and of the cache, and the errors.
\<close>

section \<open>Network membership\<close>

definition mask_byte :: "nat \<Rightarrow> byte" where
  "mask_byte n = (if n \<ge> 8 then 255 else NOT (drop_bit n 255))"

lemma bit_mask_byte: "bit (mask_byte n) b \<longleftrightarrow> b < 8 \<and> 8 \<le> b + n"
proof -
  have 255: "(255 :: byte) = mask 8" by (simp add: mask_numeral)
  show ?thesis
    unfolding mask_byte_def 255 by (auto simp: bit_simps)
qed

lemma mask_bytes_zero: "mask_bytes l 0 = replicate l (mask_byte 0)"
  by (induction l) (simp_all add: mask_byte_def)

lemma mask_bytes_4: "mask_bytes 4 p = [mask_byte p, mask_byte (p - 8), mask_byte (p - 16), mask_byte (p - 24)]"
  by (simp add: eval_nat_numeral mask_byte_def)

lemma masked_byte_eq:
  "(ucast (drop_bit k (n :: IPv4)) :: byte) AND mask_byte q = ucast (drop_bit k x) AND mask_byte q \<longleftrightarrow>
   (\<forall>b < 8. 8 \<le> b + q \<longrightarrow> bit n (k + b) = bit x (k + b))"
  by (auto simp: bit_eq_iff bit_simps bit_mask_byte)

lemma masked_octets:
  assumes "p \<le> 32"
  shows "map2 (AND) (octets n) (mask_bytes 4 p) = map2 (AND) (octets x) (mask_bytes 4 p) \<longleftrightarrow>
    drop_bit (32 - p) n = drop_bit (32 - p) x"  (is "?L \<longleftrightarrow> ?R")
proof -
  have "?L \<longleftrightarrow> (\<forall>b < 8. 8 \<le> b + p \<longrightarrow> bit n (24 + b) = bit x (24 + b)) \<and>
      (\<forall>b < 8. 8 \<le> b + (p - 8) \<longrightarrow> bit n (16 + b) = bit x (16 + b)) \<and>
      (\<forall>b < 8. 8 \<le> b + (p - 16) \<longrightarrow> bit n (8 + b) = bit x (8 + b)) \<and>
      (\<forall>b < 8. 8 \<le> b + (p - 24) \<longrightarrow> bit n (0 + b) = bit x (0 + b))"
    using masked_byte_eq [of 0 n "p - 24" x]
    by (simp add: octets_def mask_bytes_4 masked_byte_eq)
  also have "\<dots> \<longleftrightarrow> (\<forall>i < 32. 32 - p \<le> i \<longrightarrow> bit n i = bit x i)" (is "?A \<longleftrightarrow> ?B")
  proof
    assume ?B
    then show ?A using assms by auto
  next
    assume A: ?A
    show ?B
    proof (intro allI impI)
      fix i assume i: "i < (32::nat)" "32 - p \<le> i"
      then show "bit n i = bit x i"
        using A [THEN conjunct1, rule_format, of "i - 24"]
          A [THEN conjunct2, THEN conjunct1, rule_format, of "i - 16"]
          A [THEN conjunct2, THEN conjunct2, THEN conjunct1, rule_format, of "i - 8"]
          A [THEN conjunct2, THEN conjunct2, THEN conjunct2, rule_format, of i]
        by (cases "24 \<le> i"; cases "16 \<le> i"; cases "8 \<le> i") auto
    qed
  qed
  also have "\<dots> \<longleftrightarrow> ?R"
  proof
    assume B: "\<forall>i < 32. 32 - p \<le> i \<longrightarrow> bit n i = bit x i"
    have long: "bit w j \<Longrightarrow> j < 32" for w :: IPv4 and j
      using bit_imp_le_length [of w j] by simp
    have "bit n j = bit x j" if "32 - p \<le> j" for j
      using B long that by (cases "j < 32") blast+
    then show ?R by (intro bit_word_eqI) (simp add: bit_drop_bit_eq)
  next
    assume R: ?R
    show "\<forall>i < 32. 32 - p \<le> i \<longrightarrow> bit n i = bit x i"
    proof (intro allI impI)
      fix i assume i: "32 - p \<le> i"
      have "bit (drop_bit (32 - p) n) (i - (32 - p)) = bit (drop_bit (32 - p) x) (i - (32 - p))"
        using R by simp
      then show "bit n i = bit x i" using i by (simp add: bit_drop_bit_eq)
    qed
  qed
  finally show ?thesis .
qed

lemma networkNumberAndMask_ipv4:
  "p \<le> 32 \<Longrightarrow> networkNumberAndMask \<lparr>IPNet_IP = ip_of n, IPNet_Mask = CIDRMask (int p) 32\<rparr> =
     (octets n, mask_bytes 4 p)"
  by (simp add: networkNumberAndMask_def CIDRMask_def ip_bytes_def)

lemma contains_ip_of:
  "p \<le> 32 \<Longrightarrow> IPNet_Contains \<lparr>IPNet_IP = ip_of n, IPNet_Mask = CIDRMask (int p) 32\<rparr> (ip_of x) \<longleftrightarrow>
     drop_bit (32 - p) n = drop_bit (32 - p) x"
  by (simp add: IPNet_Contains_def networkNumberAndMask_ipv4 masked_octets ip_bytes_def)

lemma contains_needs_ipv4:
  assumes "p \<le> 32" "IPNet_Contains \<lparr>IPNet_IP = ip_of n, IPNet_Mask = CIDRMask (int p) 32\<rparr> ip"
  shows "\<exists>x. To4 ip = Some (octets x)"
proof -
  have "length (if To4 ip \<noteq> None then ip_bytes (To4 ip) else ip_bytes ip) = 4"
    using assms by (simp add: IPNet_Contains_def networkNumberAndMask_ipv4 Let_def split: if_splits)
  then have "To4 ip \<noteq> None"
    by (cases ip) (auto simp: To4_def ip_bytes_def split: if_splits)
  then show ?thesis using four_octets length_To4 by blast
qed

lemma Contains_To4: "To4 ip = To4 ip' \<Longrightarrow> To4 ip \<noteq> None \<Longrightarrow> IPNet_Contains n ip = IPNet_Contains n ip'"
  by (simp add: IPNet_Contains_def)

section \<open>InitializeSubnet\<close>

lemma pick_server_keeps:
  "\<exists>a. pick_server_address s addrs = s\<lparr>sn_serverIPAddress := a\<rparr> \<and>
     (a = sn_serverIPAddress s \<or> IPNet_Contains (sn_ipNet s) a \<and> (\<exists>as \<in> set addrs. a \<in> set as))"
proof -
  have inner: "\<exists>a. fold (\<lambda>a s. if Subnet_Contains s a then s\<lparr>sn_serverIPAddress := a\<rparr> else s) as s =
        s\<lparr>sn_serverIPAddress := a\<rparr> \<and> (a = sn_serverIPAddress s \<or> IPNet_Contains (sn_ipNet s) a \<and> a \<in> set as)" for as s
  proof (induction as arbitrary: s)
    case (Cons x as)
    show ?case
      using Cons.IH [of s] Cons.IH [of "s\<lparr>sn_serverIPAddress := x\<rparr>"]
      by (cases "Subnet_Contains s x") (auto simp: Subnet_Contains_def)
  qed (auto intro: exI [of _ "sn_serverIPAddress s"])
  show ?thesis
    unfolding pick_server_address_def
  proof (induction addrs arbitrary: s)
    case (Cons as addrs)
    from inner [of as s] obtain a where a:
      "fold (\<lambda>a s. if Subnet_Contains s a then s\<lparr>sn_serverIPAddress := a\<rparr> else s) as s = s\<lparr>sn_serverIPAddress := a\<rparr>"
      "a = sn_serverIPAddress s \<or> IPNet_Contains (sn_ipNet s) a \<and> a \<in> set as" by blast
    then show ?case using Cons.IH [of "s\<lparr>sn_serverIPAddress := a\<rparr>"] by auto
  qed (auto intro: exI [of _ "sn_serverIPAddress s"])
qed

lemma InitializeSubnet_Inr:
  assumes "InitializeSubnet sn addrs = Inr s"
  obtains lo hi base len p a where
    "ParseIPv4 (sn_RangeFrom sn) = Inr lo" "ParseIPv4 (sn_RangeTo sn) = Inr hi" "lo \<le> hi"
    "Split (CHR ''/'') (sn_Subnet sn) = [base, len]" "ParseInt len 8 = Inr p"
    "a = sn_serverIPAddress sn \<or>
      IPNet_Contains \<lparr>IPNet_IP = ParseIP base, IPNet_Mask = CIDRMask p 32\<rparr> a \<and> (\<exists>as \<in> set addrs. a \<in> set as)"
    "s = sn\<lparr>sn_iPFrom := lo, sn_iPTo := hi, sn_leaseCache := Map.empty,
       sn_LeaseTime := (if sn_LeaseTime sn = 0 then 14400 else sn_LeaseTime sn),
       sn_ipNet := \<lparr>IPNet_IP = ParseIP base, IPNet_Mask = CIDRMask p 32\<rparr>,
       sn_netMask := IP_String (CIDRMask p 32), sn_serverIPAddress := a\<rparr>"
proof -
  from assms obtain lo hi where ft: "ParseIPv4 (sn_RangeFrom sn) = Inr lo"
    "ParseIPv4 (sn_RangeTo sn) = Inr hi" "\<not> lo > hi"
    by (cases "ParseIPv4 (sn_RangeFrom sn)"; cases "ParseIPv4 (sn_RangeTo sn)")
      (auto simp: InitializeSubnet_def split: if_splits)
  from assms ft have "length (Split (CHR ''/'') (sn_Subnet sn)) = 2"
    by (auto simp: InitializeSubnet_def Let_def split: if_splits)
  then obtain base len where sp: "Split (CHR ''/'') (sn_Subnet sn) = [base, len]"
    by (auto simp: eval_nat_numeral length_Suc_conv)
  from assms ft sp obtain p where p: "ParseInt len 8 = Inr p"
    by (cases "ParseInt len 8") (auto simp: InitializeSubnet_def Let_def split: if_splits)
  define sn' where "sn' = sn\<lparr>sn_iPFrom := lo, sn_iPTo := hi, sn_leaseCache := Map.empty,
     sn_LeaseTime := (if sn_LeaseTime sn = 0 then 14400 else sn_LeaseTime sn),
     sn_ipNet := \<lparr>IPNet_IP = ParseIP base, IPNet_Mask = CIDRMask p 32\<rparr>,
     sn_netMask := IP_String (CIDRMask p 32)\<rparr>"
  have "s = pick_server_address sn' addrs"
    using assms ft sp p
    by (auto simp: InitializeSubnet_def Let_def defaultLeaseTime_def sn'_def split: if_splits)
  with pick_server_keeps [of sn' addrs] obtain a where "s = sn'\<lparr>sn_serverIPAddress := a\<rparr>"
    "a = sn_serverIPAddress sn' \<or> IPNet_Contains (sn_ipNet sn') a \<and> (\<exists>as \<in> set addrs. a \<in> set as)" by auto
  with that [of lo hi base len p a] ft sp p show ?thesis
    by (simp add: sn'_def linorder_not_less)
qed

text \<open>C26: a subnet that initialises has an empty cache, the parsed range, which is not empty, and a
  lease time that is not zero, by default four hours; initialisation does not move the
  cursor. When the subnet comes with the cursor at zero, as a new struct has it, the cursor
  is still at zero, and the invariant of the pool and the cache holds from the start, with
  any store.\<close>

theorem initialized_subnet_inv:
  assumes "InitializeSubnet sn addrs = Inr s"
  shows "sn_leaseCache s = Map.empty \<and>
    sn_LeaseTime s = (if sn_LeaseTime sn = 0 then 14400 else sn_LeaseTime sn) \<and>
    ParseIPv4 (sn_RangeFrom sn) = Inr (sn_iPFrom s) \<and> ParseIPv4 (sn_RangeTo sn) = Inr (sn_iPTo s) \<and>
    sn_iPFrom s \<le> sn_iPTo s \<and> sn_currentIP s = sn_currentIP sn \<and>
    (sn_currentIP sn = 0 \<longrightarrow> sn_currentIP s = 0 \<and> subnet_inv (h, s))"
  using assms by (rule InitializeSubnet_Inr) (use subnet_inv_fresh in auto)

definition spec_subnet :: Subnet where
  "spec_subnet = sample_subnet\<lparr>sn_LeaseTime := 0, sn_iPFrom := 0, sn_iPTo := 0,
     sn_ipNet := \<lparr>IPNet_IP = None, IPNet_Mask = None\<rparr>, sn_netMask := []\<rparr>"

lemma sample_texts:
  "ParseIPv4 ''10.1.1.1'' = Inr 167837953" "ParseIPv4 ''10.1.1.3'' = Inr 167837955"
  "ParseIP ''10.1.1.0'' = ip_of 167837952" "ParseInt ''24'' 8 = Inr 24"
  by code_simp+

lemma sample_mask: "CIDRMask 24 32 = Some [255, 255, 255, 0]" "IP_String (Some [255, 255, 255, 0]) = ''255.255.255.0''"
  by code_simp+

lemma spec_subnet_init: "InitializeSubnet spec_subnet [] = Inr sample_subnet"
  by (simp add: InitializeSubnet_def spec_subnet_def sample_subnet_def sample_texts sample_mask
      pick_server_address_def defaultLeaseTime_def)

theorem initialized_subnet_inv_witness:
  "InitializeSubnet spec_subnet [] = Inr sample_subnet \<and> subnet_inv ([], sample_subnet) \<and> sn_LeaseTime sample_subnet = 14400"
  using initialized_subnet_inv [OF spec_subnet_init, of "[]"] spec_subnet_init
  by (simp add: spec_subnet_def sample_subnet_def)

text \<open>C27: an initialised subnet with a dotted base address and a prefix length up to 32 contains
  exactly the IPv4 addresses that agree with the base in the first \<open>p\<close> bits.\<close>

theorem initialized_subnet_contains:
  assumes "InitializeSubnet sn addrs = Inr s" "sn_Subnet sn = IPv4_String n @ ''/'' @ dec p" "p \<le> 32"
  shows "Subnet_Contains s ip \<longleftrightarrow> (\<exists>x. To4 ip = Some (octets x) \<and> drop_bit (32 - p) x = drop_bit (32 - p) n)"
proof -
  have no_slash: "CHR ''/'' \<notin> set (dec k)" "CHR ''/'' \<notin> set (IPv4_String i)" for k i
  proof -
    show d: "CHR ''/'' \<notin> set (dec k)" for k
      using dec_digits [of "CHR ''/''" k] by (auto simp: is_digit_def digit_val_def)
    show "CHR ''/'' \<notin> set (IPv4_String i)"
      using d by (simp add: IPv4_String_def)
  qed
  have sp: "Split (CHR ''/'') (sn_Subnet sn) = [IPv4_String n, dec p]"
    using no_slash by (simp add: assms(2) Split_append Split_single)
  have len: "ParseInt (dec p) 8 = Inr (int p)"
    using assms(3) by (intro ParseInt_dec) simp_all
  from assms(1) have net: "sn_ipNet s = \<lparr>IPNet_IP = ip_of n, IPNet_Mask = CIDRMask (int p) 32\<rparr>"
    by (rule InitializeSubnet_Inr) (auto simp: sp len)
  show ?thesis
  proof
    assume c: "Subnet_Contains s ip"
    then obtain x where x: "To4 ip = Some (octets x)"
      using contains_needs_ipv4 [OF assms(3)] by (auto simp: Subnet_Contains_def net)
    then have "Subnet_Contains s (ip_of x)"
      using c Contains_To4 [of ip "ip_of x"] by (simp add: Subnet_Contains_def)
    with x show "\<exists>x. To4 ip = Some (octets x) \<and> drop_bit (32 - p) x = drop_bit (32 - p) n"
      using contains_ip_of [OF assms(3)] by (auto simp: Subnet_Contains_def net)
  next
    assume "\<exists>x. To4 ip = Some (octets x) \<and> drop_bit (32 - p) x = drop_bit (32 - p) n"
    then obtain x where x: "To4 ip = To4 (ip_of x)" "To4 ip \<noteq> None" "drop_bit (32 - p) n = drop_bit (32 - p) x"
      by auto
    then show "Subnet_Contains s ip"
      using contains_ip_of [OF assms(3), of n x] Contains_To4 [OF x(1,2)] by (simp add: Subnet_Contains_def net)
  qed
qed

theorem initialized_subnet_contains_witness:
  "Subnet_Contains sample_subnet (ip_of 167837999) \<longleftrightarrow>
   (\<exists>x. To4 (ip_of 167837999) = Some (octets x) \<and> drop_bit 8 x = drop_bit 8 (167837952 :: IPv4))"
proof -
  have "sn_Subnet spec_subnet = IPv4_String 167837952 @ ''/'' @ dec 24"
    unfolding spec_subnet_def sample_subnet_def by code_simp
  from initialized_subnet_contains [OF spec_subnet_init this] show ?thesis by simp
qed

text \<open>C28: exactly when initialisation succeeds: both ends of the range are dotted IPv4 addresses in
  order and the subnet text is two parts around one slash, the second a decimal integer of
  8 bits. Neither the base address nor the size of the prefix is checked.\<close>

theorem InitializeSubnet_succeeds_iff:
  "(\<exists>s. InitializeSubnet sn addrs = Inr s) \<longleftrightarrow>
   (\<exists>lo hi base len p. ParseIPv4 (sn_RangeFrom sn) = Inr lo \<and> ParseIPv4 (sn_RangeTo sn) = Inr hi \<and> lo \<le> hi \<and>
      Split (CHR ''/'') (sn_Subnet sn) = [base, len] \<and> ParseInt len 8 = Inr p)"
  (is "?L \<longleftrightarrow> ?R")
proof
  assume ?L
  then obtain s where "InitializeSubnet sn addrs = Inr s" by blast
  then show ?R by (rule InitializeSubnet_Inr) blast
next
  assume ?R
  then show ?L
    by (auto simp: InitializeSubnet_def Let_def linorder_not_le)
qed

text \<open>A prefix length that is negative or above 32 passes initialisation, and the subnet then
  contains no IPv4 address at all.\<close>

lemma invalid_prefix_contains_nothing:
  assumes "InitializeSubnet sn addrs = Inr s" "Split (CHR ''/'') (sn_Subnet sn) = [base, len]"
    "ParseInt len 8 = Inr p" "p < 0 \<or> 32 < p"
  shows "\<not> Subnet_Contains s (ip_of x)"
proof -
  have mask: "CIDRMask p 32 = None" using assms(4) by (auto simp: CIDRMask_def)
  from assms(1) have "sn_ipNet s = \<lparr>IPNet_IP = ParseIP base, IPNet_Mask = None\<rparr>"
    by (rule InitializeSubnet_Inr) (use assms(2,3) mask in auto)
  then show ?thesis
    by (simp add: Subnet_Contains_def IPNet_Contains_def networkNumberAndMask_def ip_bytes_def Let_def)
qed

theorem invalid_prefix_contains_nothing_witness:
  "\<exists>s. InitializeSubnet (spec_subnet\<lparr>sn_Subnet := ''10.1.1.0/33''\<rparr>) [] = Inr s \<and>
     \<not> Subnet_Contains s (ip_of 167837953)"
proof -
  have p: "ParseInt ''33'' 8 = Inr 33" by code_simp
  have sp: "Split (CHR ''/'') (sn_Subnet (spec_subnet\<lparr>sn_Subnet := ''10.1.1.0/33''\<rparr>)) = [''10.1.1.0'', ''33'']"
    by simp
  obtain s where s: "InitializeSubnet (spec_subnet\<lparr>sn_Subnet := ''10.1.1.0/33''\<rparr>) [] = Inr s"
    by (simp add: InitializeSubnet_def spec_subnet_def sample_subnet_def sample_texts p Let_def)
  with invalid_prefix_contains_nothing [OF s sp p] show ?thesis by auto
qed

end
