(* ===== verification/Dhcp_Server_Inv.thy ===== *)
theory Dhcp_Server_Inv
  imports Dhcp_Server Dhcp_Subnet_Props Dhcp_Subnet_Init
begin

text \<open>
  The invariant of the server: every subnet is found under its own text and keeps the
  invariant of its pool and its cache over the one store of leases. The operations of
  the server are the rules of a step relation, without any guard. What their callers have
  to respect, and the source does not check, is the predicate \<open>admitted\<close>; the locale
  \<open>invariant_system\<close> is interpreted on the steps that respect it.
\<close>

section \<open>Writes to the store that the caches do not see\<close>

text \<open>The store only grows, and no write changes the two keys of a lease.\<close>

definition heap_ext :: "lease_heap \<Rightarrow> lease_heap \<Rightarrow> bool" where
  "heap_ext h h' \<longleftrightarrow> length h \<le> length h' \<and>
     (\<forall>r < length h. lease_MAC (h' ! r) = lease_MAC (h ! r) \<and> lease_IP (h' ! r) = lease_IP (h ! r))"

lemma heap_ext_refl [simp, intro]: "heap_ext h h"
  by (simp add: heap_ext_def)

lemma heap_ext_trans: "heap_ext h1 h2 \<Longrightarrow> heap_ext h2 h3 \<Longrightarrow> heap_ext h1 h3"
  by (auto simp: heap_ext_def)

lemma heap_ext_append [heap_simps]: "heap_ext h (h @ ls)"
  by (auto simp: heap_ext_def nth_append)

lemma heap_ext_update [heap_simps]:
  "lease_MAC l = lease_MAC (h ! r) \<Longrightarrow> lease_IP l = lease_IP (h ! r) \<Longrightarrow> heap_ext h (h[r := l])"
  by (cases "r < length h") (simp_all add: heap_ext_def nth_list_update list_update_beyond)

lemma entry_ok_ext: "entry_ok h c k r \<Longrightarrow> heap_ext h h' \<Longrightarrow> entry_ok h' c k r"
  by (auto simp: entry_ok_def heap_ext_def lease_wf_def)

lemma cache_ok_ext: "cache_ok (h, s) \<Longrightarrow> heap_ext h h' \<Longrightarrow> cache_ok (h', s)"
  by (auto simp: cache_ok_def intro: entry_ok_ext)

lemma subnet_inv_ext: "subnet_inv (h, s) \<Longrightarrow> heap_ext h h' \<Longrightarrow> subnet_inv (h', s)"
  by (auto simp: subnet_inv_def intro: cache_ok_ext)

lemma bindings_ext:
  assumes "cache_ok (h, s)" "heap_ext h h'"
  shows "bindings (h', s) = bindings (h, s)"
proof
  fix k
  show "bindings (h', s) k = bindings (h, s) k"
    using cache_okD [OF assms(1), of k] assms(2)
    by (cases "sn_leaseCache s k") (auto simp: bindings_def entry_ok_def heap_ext_def)
qed

section \<open>What a request keeps of a subnet\<close>

definition same_config :: "Subnet \<Rightarrow> Subnet \<Rightarrow> bool" where
  "same_config s s' \<longleftrightarrow> (\<exists>c m. s' = s\<lparr>sn_currentIP := c, sn_leaseCache := m\<rparr>)"

lemma same_configI: "s' = s\<lparr>sn_currentIP := c, sn_leaseCache := m\<rparr> \<Longrightarrow> same_config s s'"
  by (auto simp: same_config_def)

lemma same_config_refl [simp, intro]: "same_config s s"
  by (rule same_configI [where c = "sn_currentIP s" and m = "sn_leaseCache s"]) simp

lemma same_config_trans: "same_config s s' \<Longrightarrow> same_config s' s'' \<Longrightarrow> same_config s s''"
  unfolding same_config_def by (elim exE, hypsubst) (rule exI, rule exI, simp)

lemma same_config_fields:
  assumes "same_config s s'"
  shows "sn_Subnet s' = sn_Subnet s" "sn_ipNet s' = sn_ipNet s" "sn_serverIPAddress s' = sn_serverIPAddress s"
    "sn_iPFrom s' = sn_iPFrom s" "sn_iPTo s' = sn_iPTo s" "sn_LeaseTime s' = sn_LeaseTime s"
  using assms by (auto simp: same_config_def)

lemma same_config_ops [simp, intro]:
  "same_config s (advance_pool s)"
  "same_config s (Subnet_AddLease h s l)"
  "same_config s (s\<lparr>sn_currentIP := c\<rparr>)"
  "same_config s (drop_keys m a s)"
proof -
  show "same_config s (advance_pool s)"
    by (rule same_configI [where c = "sn_currentIP (advance_pool s)" and m = "sn_leaseCache s"])
      (simp add: advance_pool_def increment_eq)
  show "same_config s (Subnet_AddLease h s l)"
    by (rule same_configI [where c = "sn_currentIP s" and m = "sn_leaseCache (Subnet_AddLease h s l)"])
      (simp add: Subnet_AddLease_def Let_def)
  show "same_config s (s\<lparr>sn_currentIP := c\<rparr>)"
    by (rule same_configI [where c = c and m = "sn_leaseCache s"]) simp
  show "same_config s (drop_keys m a s)"
    by (rule same_configI [where c = "sn_currentIP s"]) (simp add: drop_keys_def)
qed

lemma put_lease_config: "same_config s (snd (put_lease l (h, s)))"
  by (simp add: put_lease_def)

lemma answer_config:
  assumes "answer lib t now req (h, s) (h', s') q"
  shows "same_config s s' \<and> heap_ext h h'"
  using assms
proof cases
  case (allocated ip)
  from allocated(1) have "same_config ((advance_pool s)\<lparr>sn_currentIP := ip\<rparr>) s'" "heap_ext h h'"
    by (simp_all add: put_lease_def heap_simps)
  then show ?thesis
    using same_config_trans [OF same_config_trans [OF same_config_ops(1,3)]] by blast
qed (auto simp: heap_simps)

text \<open>
  What every operation keeps, whatever its arguments: the range of the pool is not empty and
  its cursor is at zero or in the ring, and the cache holds references of leases that exist.
\<close>

definition refs_ok :: "lease_heap \<Rightarrow> Subnet \<Rightarrow> bool" where
  "refs_ok h s \<longleftrightarrow> (\<forall>k r. sn_leaseCache s k = Some r \<longrightarrow> r < length h)"

definition subnet_typed :: "subnet_state \<Rightarrow> bool" where
  "subnet_typed st \<longleftrightarrow> pool_ok (snd st) \<and> refs_ok (fst st) (snd st)"

lemma cache_ok_refs: "cache_ok (h, s) \<Longrightarrow> refs_ok h s"
  using cache_okD by (fastforce simp: refs_ok_def entry_ok_def)

lemma refs_okD: "refs_ok h s \<Longrightarrow> sn_leaseCache s k = Some r \<Longrightarrow> r < length h"
  by (simp add: refs_ok_def)

lemma refs_ok_ext: "refs_ok h s \<Longrightarrow> heap_ext h h' \<Longrightarrow> refs_ok h' s"
  by (force simp: refs_ok_def heap_ext_def)

lemma put_lease_typed: "subnet_typed (h, s) \<Longrightarrow> subnet_typed (put_lease l (h, s))"
  using pool_ok_cong [of "snd (put_lease l (h, s))" s]
  by (auto simp: subnet_typed_def op_simps refs_ok_def put_lease_def Subnet_AddLease_def Let_def less_Suc_eq
      split: if_splits option.splits)

lemma drop_keys_typed: "subnet_typed (h, s) \<Longrightarrow> subnet_typed (h, drop_keys m a s)"
  using pool_ok_cong [of "drop_keys m a s" s]
  by (auto simp: subnet_typed_def refs_ok_def drop_keys_def split: if_splits)

lemma answer_lease_exists:
  assumes "answer lib t now req (h, s) (h', s') (Some l)" "refs_ok h s"
  shows "l < length h'"
  using assms(1)
proof cases
  case known
  then show ?thesis using refs_okD [OF assms(2)] by auto
next
  case (allocated ip)
  then show ?thesis by (simp add: put_lease_def)
next
  case exhausted
  then obtain x where "in_ring s x" "l = the (sn_leaseCache s (IPv4_String x))"
    by (auto simp: oldest_of_def in_ring_def)
  with exhausted show ?thesis
    using refs_okD [OF assms(2), of "IPv4_String x" l] by auto
qed simp_all

lemma answer_typed:
  assumes "answer lib t now req (h, s) (h', s') q" "subnet_typed (h, s)"
  shows "subnet_typed (h', s')"
  using assms(1)
proof cases
  case unrecorded
  with assms(2) show ?thesis by (auto simp: subnet_typed_def refs_ok_def less_Suc_eq)
next
  case (allocated ip)
  let ?s = "(advance_pool s)\<lparr>sn_currentIP := ip\<rparr>"
  have "pool_ok ?s"
    using assms(2) allocated(4) by (auto simp: subnet_typed_def pool_ok_def in_ring_def ring_lo_def op_simps)
  then have "subnet_typed (h, ?s)"
    using assms(2) by (simp add: subnet_typed_def refs_ok_def op_simps)
  from put_lease_typed [OF this] show ?thesis unfolding allocated(1) .
next
  case exhausted
  have "pool_ok (advance_pool s)"
    using assms(2) advance_in_ring [of s] by (auto simp: subnet_typed_def pool_ok_def op_simps)
  then show ?thesis using assms(2) exhausted by (simp add: subnet_typed_def refs_ok_def op_simps)
qed (use assms(2) in auto)

section \<open>The invariant of the server\<close>

definition server_inv :: "Server \<Rightarrow> bool" where
  "server_inv srv \<longleftrightarrow>
     (\<forall>k sn. srv_subnets srv k = Some sn \<longrightarrow> sn_Subnet sn = k \<and> subnet_inv (srv_leases srv, sn))"

definition srv_bindings :: "Server \<Rightarrow> SubnetAddrPrefix \<Rightarrow> (string \<rightharpoonup> string)" where
  "srv_bindings srv k =
     (case srv_subnets srv k of None \<Rightarrow> Map.empty | Some sn \<Rightarrow> bindings (srv_leases srv, sn))"

lemma server_invD:
  assumes "server_inv srv" "srv_subnets srv k = Some sn"
  shows "sn_Subnet sn = k" "subnet_inv (srv_leases srv, sn)" "pool_ok sn" "cache_ok (srv_leases srv, sn)"
  using assms by (auto simp: server_inv_def subnet_inv_def)

text \<open>The part of the invariant that holds without any obligation on the callers.\<close>

definition server_typed :: "Server \<Rightarrow> bool" where
  "server_typed srv \<longleftrightarrow>
     (\<forall>k sn. srv_subnets srv k = Some sn \<longrightarrow> sn_Subnet sn = k \<and> subnet_typed (srv_leases srv, sn))"

lemma server_typedD:
  assumes "server_typed srv" "srv_subnets srv k = Some sn"
  shows "sn_Subnet sn = k" "subnet_typed (srv_leases srv, sn)" "pool_ok sn" "refs_ok (srv_leases srv) sn"
  using assms by (auto simp: server_typed_def subnet_typed_def)

lemma server_inv_typed: "server_inv srv \<Longrightarrow> server_typed srv"
  using cache_ok_refs by (auto simp: server_inv_def server_typed_def subnet_inv_def subnet_typed_def)

lemma server_typed_step:
  assumes "server_typed srv" "srv_subnets srv' = (srv_subnets srv)(k \<mapsto> s')"
    and "heap_ext (srv_leases srv) (srv_leases srv')" "sn_Subnet s' = k" "subnet_typed (srv_leases srv', s')"
  shows "server_typed srv'"
  unfolding server_typed_def
proof (intro allI impI)
  fix j sn
  assume j: "srv_subnets srv' j = Some sn"
  show "sn_Subnet sn = j \<and> subnet_typed (srv_leases srv', sn)"
  proof (cases "j = k")
    case True
    then show ?thesis using j assms(4,5) unfolding assms(2) by simp
  next
    case False
    with j have "srv_subnets srv j = Some sn" unfolding assms(2) by simp
    from server_typedD [OF assms(1) this] show ?thesis
      using refs_ok_ext [OF _ assms(3)] by (simp add: subnet_typed_def)
  qed
qed

lemma server_typed_heap:
  "server_typed srv \<Longrightarrow> heap_ext (srv_leases srv) (srv_leases srv') \<Longrightarrow> srv_subnets srv' = srv_subnets srv
   \<Longrightarrow> server_typed srv'"
  by (auto simp: server_typed_def subnet_typed_def intro: refs_ok_ext)

text \<open>One subnet is replaced by a later state of itself, over a store that extends the old one.\<close>

lemma server_inv_step:
  assumes "server_inv srv" "srv_subnets srv' = (srv_subnets srv)(k \<mapsto> s')"
    and "heap_ext (srv_leases srv) (srv_leases srv')" "sn_Subnet s' = k" "subnet_inv (srv_leases srv', s')"
  shows "server_inv srv'"
  unfolding server_inv_def
proof (intro allI impI)
  fix j sn
  assume j: "srv_subnets srv' j = Some sn"
  show "sn_Subnet sn = j \<and> subnet_inv (srv_leases srv', sn)"
  proof (cases "j = k")
    case True
    then show ?thesis using j assms(4,5) unfolding assms(2) by simp
  next
    case False
    with j have "srv_subnets srv j = Some sn" unfolding assms(2) by simp
    from server_invD(1,2) [OF assms(1) this] show ?thesis
      using subnet_inv_ext [OF _ assms(3)] by simp
  qed
qed

lemma server_inv_heap:
  "server_inv srv \<Longrightarrow> heap_ext (srv_leases srv) (srv_leases srv') \<Longrightarrow> srv_subnets srv' = srv_subnets srv
   \<Longrightarrow> server_inv srv'"
  by (auto simp: server_inv_def intro: subnet_inv_ext)

lemma set_subnet_simps [simp]:
  "srv_subnets (set_subnet k st srv) = (srv_subnets srv)(k \<mapsto> snd st)"
  "srv_leases (set_subnet k st srv) = fst st"
  "srv_localIpAddresses (set_subnet k st srv) = srv_localIpAddresses srv"
  "srv_serverIds (set_subnet k st srv) = srv_serverIds srv"
  "srv_listeners (set_subnet k st srv) = srv_listeners srv"
  by (simp_all add: set_subnet_def)

lemma find_visited:
  "visits ord (srv_subnets srv) \<Longrightarrow> find P ord = Some k \<Longrightarrow> (\<exists>sn. srv_subnets srv k = Some sn) \<and> P k"
  unfolding find_Some_iff visits_def by (metis domD nth_mem)

lemma find_visited_None:
  "visits ord (srv_subnets srv) \<Longrightarrow> find P ord = None \<longleftrightarrow> (\<forall>k sn. srv_subnets srv k = Some sn \<longrightarrow> \<not> P k)"
  unfolding find_None_iff visits_def by (metis domI domD)

section \<open>The operations\<close>

lemma AddSubnet_inv:
  assumes "server_inv srv" "sn_currentIP sn = 0"
  shows "server_inv (fst (Server_AddSubnet ordL ordS srv sn))"
proof (cases "InitializeSubnet sn (in_order ordL (srv_localIpAddresses srv))")
  case (Inr s)
  have "subnet_inv (srv_leases srv, s)"
    by (rule InitializeSubnet_Inr [OF Inr]) (simp add: assms(2) subnet_inv_fresh)
  then show ?thesis
    using assms(1) by (auto simp: Server_AddSubnet_def Inr intro: server_inv_step split: option.split)
qed (simp add: Server_AddSubnet_def assms(1))

lemma DeleteSubnet_inv: "server_inv srv \<Longrightarrow> server_inv (fst (Server_DeleteSubnet srv k))"
  by (auto simp: Server_DeleteSubnet_def server_inv_def split: if_splits)

text \<open>The caller of \<^verbatim>\<open>AddLease\<close> allocates the lease.\<close>

definition add_new_lease :: "Server \<Rightarrow> Lease \<Rightarrow> Server \<times> dhcp_error option" where
  "add_new_lease srv l = Server_AddLease (srv\<lparr>srv_leases := srv_leases srv @ [l]\<rparr>) (length (srv_leases srv))"

definition lease_admitted :: "Server \<Rightarrow> Lease \<Rightarrow> bool" where
  "lease_admitted srv l \<longleftrightarrow>
     (case srv_subnets srv (lease_Subnet l) of None \<Rightarrow> True | Some sn \<Rightarrow> admits_lease l (srv_leases srv, sn))"

lemma put_lease_inv:
  assumes "subnet_inv (h, s)" "admits_lease l (h, s)"
  shows "subnet_inv (put_lease l (h, s))"
  using assms leases.invar_put [of "(h, s)" l] pool_ok_cong [of "snd (put_lease l (h, s))" s]
  by (simp add: subnet_inv_def op_simps)

lemma set_put_lease_inv:
  assumes "server_inv srv" "srv_subnets srv k = Some sn" "admits_lease l (srv_leases srv, sn)"
  shows "server_inv (set_subnet k (put_lease l (srv_leases srv, sn)) srv)"
  using put_lease_inv [OF server_invD(2) [OF assms(1,2)] assms(3)]
    same_config_fields(1) [OF put_lease_config, of l "srv_leases srv" sn] server_invD(1) [OF assms(1,2)]
  by (intro server_inv_step [OF assms(1), where k = k and s' = "snd (put_lease l (srv_leases srv, sn))"])
    (simp_all add: op_simps heap_simps put_lease_def)

lemma AddLease_inv:
  assumes "server_inv srv" "lease_admitted srv l"
  shows "server_inv (fst (add_new_lease srv l))"
proof (cases "srv_subnets srv (lease_Subnet l)")
  case None
  then show ?thesis
    using assms(1) by (auto simp: add_new_lease_def Server_AddLease_def heap_simps intro: server_inv_heap)
next
  case (Some sn)
  then have "fst (add_new_lease srv l) =
      set_subnet (lease_Subnet l) (put_lease l (srv_leases srv, sn)) srv"
    by (simp add: add_new_lease_def Server_AddLease_def put_lease_def set_subnet_def)
  then show ?thesis
    using set_put_lease_inv [OF assms(1) Some] assms(2) Some by (simp add: lease_admitted_def)
qed

definition host_admitted :: "Server \<Rightarrow> Host \<Rightarrow> bool" where
  "host_admitted srv x \<longleftrightarrow>
     (\<forall>k sn. srv_subnets srv k = Some sn \<longrightarrow> IPNet_Contains (sn_ipNet sn) (host_IP x) \<longrightarrow>
        admits_lease (host_lease sn x) (srv_leases srv, sn))"

lemma AddHost_inv:
  assumes "server_inv srv" "visits ord (srv_subnets srv)" "host_admitted srv x"
  shows "server_inv (fst (Server_AddHost ord srv x))"
  using assms(1) find_visited [OF assms(2)] assms(3)
  by (fastforce simp: Server_AddHost_def host_admitted_def AddHost_put set_put_lease_inv split: option.split)

text \<open>A deletion is one of an entry under both its keys, or of keys that the cache does not have.\<close>

definition deletes_entry :: "lease_heap \<Rightarrow> Subnet \<Rightarrow> string \<Rightarrow> string \<Rightarrow> bool" where
  "deletes_entry h s m a \<longleftrightarrow>
     (case sn_leaseCache s m of
        None \<Rightarrow> sn_leaseCache s a = None
      | Some r \<Rightarrow> mac_key m \<and> a = lease_key (h ! r))"

lemma drop_keys_inv:
  assumes "subnet_inv (h, s)" "deletes_entry h s m a"
  shows "subnet_inv (h, drop_keys m a s)"
proof (cases "sn_leaseCache s m")
  case None
  then have "drop_keys m a s = s"
    using assms(2) by (simp add: drop_keys_def deletes_entry_def fun_upd_idem)
  then show ?thesis using assms(1) by simp
next
  case (Some r)
  then show ?thesis
    using assms drop_keys_cache_ok(1) [of h s m r a] pool_ok_cong [of "drop_keys m a s" s]
    by (simp add: subnet_inv_def deletes_entry_def) (simp add: drop_keys_def)
qed

lemma set_drop_keys_inv:
  assumes "server_inv srv" "srv_subnets srv k = Some sn" "deletes_entry (srv_leases srv) sn m a"
  shows "server_inv (set_subnet k (srv_leases srv, drop_keys m a sn) srv)"
  using drop_keys_inv [OF server_invD(2) [OF assms(1,2)] assms(3)] server_invD(1) [OF assms(1,2)]
  by (intro server_inv_step [OF assms(1), where k = k and s' = "drop_keys m a sn"]) (simp_all add: same_config_fields(1) [OF same_config_ops(4)])

definition delete_admitted :: "Server \<Rightarrow> string \<Rightarrow> net_IP \<Rightarrow> bool" where
  "delete_admitted srv m ip \<longleftrightarrow>
     (\<forall>k sn. srv_subnets srv k = Some sn \<longrightarrow> IPNet_Contains (sn_ipNet sn) ip \<longrightarrow>
        deletes_entry (srv_leases srv) sn m (IP_String ip))"

lemma DeleteHost_inv:
  assumes "server_inv srv" "visits ord (srv_subnets srv)" "delete_admitted srv (host_MAC x) (host_IP x)"
  shows "server_inv (fst (Server_DeleteHost ord srv x))"
  using assms(1) find_visited [OF assms(2)] assms(3)
  by (fastforce simp: Server_DeleteHost_def delete_admitted_def DeleteHost_drop set_drop_keys_inv split: option.split)

lemma DeleteLease_inv:
  assumes "server_inv srv" "visits ord (srv_subnets srv)" "delete_admitted srv (lease_MAC l) (lease_IP l)"
  shows "server_inv (fst (Server_DeleteLease ord srv l))"
  using assms(1) find_visited [OF assms(2)] assms(3)
  by (fastforce simp: Server_DeleteLease_def getSubnetForIp_def Subnet_Contains_def delete_admitted_def DeleteLease_drop
      set_drop_keys_inv split: option.split)

section \<open>A request\<close>

text \<open>Writing the server's identity, or the fact that the reply was sent, into a lease.\<close>

lemma write_lease_ext [heap_simps]:
  "heap_ext h (h[l := (h ! l)\<lparr>lease_ServerId := a\<rparr>])"
  "heap_ext h (h[l := (h ! l)\<lparr>lease_AckSent := b\<rparr>])"
  by (simp_all add: heap_ext_update)

lemma getSubnet_visited:
  assumes "\<forall>ip. visits (ords ip) (srv_subnets srv)" "getSubnet ords srv req = Some k"
  shows "\<exists>sn. srv_subnets srv k = Some sn"
proof -
  from assms(2) obtain ip where "getSubnetForIp (ords ip) srv ip = Some k"
    by (auto simp: getSubnet_def Let_def split: if_splits option.splits)
  then show ?thesis
    using find_visited assms(1) unfolding getSubnetForIp_def by metis
qed

text \<open>
  The state after a reply was computed for the subnet \<open>k\<close>: the search answered, and
  the store only grew or had the server's identity written.
\<close>

inductive replied :: "dhcpv4_lib \<Rightarrow> go_time \<Rightarrow> go_time \<Rightarrow> Request \<Rightarrow> SubnetAddrPrefix \<Rightarrow> Server \<Rightarrow> Server \<Rightarrow> bool"
  for lib t now req k srv srv' where
  "srv_subnets srv k = Some sn \<Longrightarrow>
   answer lib t now (req_DHCPv4 req) (srv_leases srv, sn) (h, sn') q \<Longrightarrow>
   srv_subnets srv' = (srv_subnets srv)(k \<mapsto> sn') \<Longrightarrow> heap_ext h (srv_leases srv') \<Longrightarrow>
   srv_localIpAddresses srv' = srv_localIpAddresses srv \<Longrightarrow> srv_serverIds srv' = srv_serverIds srv \<Longrightarrow>
   srv_listeners srv' = srv_listeners srv \<Longrightarrow> replied lib t now req k srv srv'"

lemma replied_inv:
  assumes "replied lib t now req k srv srv'" "server_inv srv"
  shows "server_inv srv'" "\<forall>j m a. srv_bindings srv j m = Some a \<longrightarrow> srv_bindings srv' j m = Some a"
proof -
  from assms(1) obtain sn h sn' q where r: "srv_subnets srv k = Some sn"
    "answer lib t now (req_DHCPv4 req) (srv_leases srv, sn) (h, sn') q"
    "srv_subnets srv' = (srv_subnets srv)(k \<mapsto> sn')" "heap_ext h (srv_leases srv')"
    by cases blast
  note sn = server_invD [OF assms(2) r(1)]
  have c: "same_config sn sn'" "heap_ext (srv_leases srv) h"
    using answer_config [OF r(2)] by auto
  have a: "subnet_inv (h, sn')" "\<forall>m a. bindings (srv_leases srv, sn) m = Some a \<longrightarrow> bindings (h, sn') m = Some a"
    using answer_inv [OF r(2) sn(2)] by auto
  have ext: "heap_ext (srv_leases srv) (srv_leases srv')"
    by (rule heap_ext_trans [OF c(2) r(4)])
  show "server_inv srv'"
    using server_inv_step [OF assms(2) r(3) ext] same_config_fields(1) [OF c(1)] sn(1) subnet_inv_ext [OF a(1) r(4)]
    by simp
  show "\<forall>j m a. srv_bindings srv j m = Some a \<longrightarrow> srv_bindings srv' j m = Some a"
  proof (intro allI impI)
    fix j m x
    assume b: "srv_bindings srv j m = Some x"
    show "srv_bindings srv' j m = Some x"
    proof (cases "j = k")
      case True
      have "cache_ok (h, sn')" using a(1) by (simp add: subnet_inv_def)
      with True b a(2) bindings_ext [OF _ r(4)] show ?thesis
        by (simp add: srv_bindings_def r(1,3))
    next
      case False
      then obtain s where s: "srv_subnets srv j = Some s" "srv_subnets srv' j = Some s"
        using b unfolding srv_bindings_def r(3) by (cases "srv_subnets srv j") simp_all
      then show ?thesis
        using b bindings_ext [OF server_invD(4) [OF assms(2) s(1)] ext] by (simp add: srv_bindings_def)
    qed
  qed
qed

lemma replied_bindings:
  assumes "replied lib t now req k srv srv'" "server_inv srv"
  shows "srv_bindings srv' = srv_bindings srv \<or>
    (\<exists>sn ip. srv_subnets srv k = Some sn \<and> in_ring sn ip \<and>
       srv_bindings srv k (client_mac (req_DHCPv4 req)) = None \<and> IPv4_String ip \<notin> ran (srv_bindings srv k) \<and>
       srv_bindings srv' = (srv_bindings srv)(k := (srv_bindings srv k)(client_mac (req_DHCPv4 req) \<mapsto> IPv4_String ip)))"
proof -
  from assms(1) obtain sn h sn' q where r: "srv_subnets srv k = Some sn"
    "answer lib t now (req_DHCPv4 req) (srv_leases srv, sn) (h, sn') q"
    "srv_subnets srv' = (srv_subnets srv)(k \<mapsto> sn')" "heap_ext h (srv_leases srv')"
    by cases blast
  note sn = server_invD [OF assms(2) r(1)]
  have "subnet_inv (h, sn')" using answer_inv [OF r(2) sn(2)] by blast
  then have k: "srv_bindings srv' k = bindings (h, sn')"
    using bindings_ext [OF _ r(4)] by (simp add: srv_bindings_def r(3) subnet_inv_def)
  have ext: "heap_ext (srv_leases srv) (srv_leases srv')"
    using heap_ext_trans [OF _ r(4)] answer_config [OF r(2)] by blast
  have other: "srv_bindings srv' j = srv_bindings srv j" if "j \<noteq> k" for j
    using that bindings_ext [OF server_invD(4) [OF assms(2)] ext] by (simp add: srv_bindings_def r(3) split: option.split)
  have eq: "srv_bindings srv' = (srv_bindings srv)(k := bindings (h, sn'))"
    using k other by auto
  have old: "srv_bindings srv k = bindings (srv_leases srv, sn)" by (simp add: srv_bindings_def r(1))
  from answer_bindings [OF r(2) sn(2)] show ?thesis
  proof
    assume "bindings (h, sn') = bindings (srv_leases srv, sn)"
    then show ?thesis using eq old by (metis fun_upd_triv)
  next
    assume "\<exists>ip. in_ring sn ip \<and> bindings (srv_leases srv, sn) (client_mac (req_DHCPv4 req)) = None \<and>
      IPv4_String ip \<notin> ran (bindings (srv_leases srv, sn)) \<and>
      bindings (h, sn') = (bindings (srv_leases srv, sn))(client_mac (req_DHCPv4 req) \<mapsto> IPv4_String ip)"
    then show ?thesis using eq old r(1) by auto
  qed
qed

lemma getResponse_replied:
  assumes "srv_subnets srv k = Some sn" "pool_ok sn"
  shows "\<exists>srv' resp l e. getResponse lib t now srv req k = Some (srv', resp, l, e) \<and> replied lib t now req k srv srv' \<and>
    (lib_MessageType lib (req_DHCPv4 req) \<in> {MessageTypeDiscover, MessageTypeRequest} \<longrightarrow>
      e \<noteq> None \<or> resp \<noteq> None \<and> l \<noteq> None)"
proof -
  from GetLease_answer [OF assms(2), of lib t now "srv_leases srv" "req_DHCPv4 req"]
  obtain h sn' q where a: "GetLeaseForRequest lib t now (srv_leases srv) sn (req_DHCPv4 req) = Some (h, sn', q)"
    "answer lib t now (req_DHCPv4 req) (srv_leases srv, sn) (h, sn') q" by auto
  have rep: "replied lib t now req k srv (set_subnet k (h, sn') srv)"
    "replied lib t now req k srv
       ((set_subnet k (h, sn') srv)\<lparr>srv_leases := h[r := (h ! r)\<lparr>lease_ServerId := x\<rparr>]\<rparr>)" for r x
    by (rule replied.intros [OF assms(1) a(2)]; simp add: heap_simps)+
  show ?thesis
    using rep a(1)
    by (auto simp: getResponse_def assms(1) Let_def fill_response_def andthen_def
        split: option.split sum.split MessageType.split)
qed

lemma GetResponse_replied:
  assumes "server_typed srv" "\<forall>ip. visits (ords ip) (srv_subnets srv)"
  shows "\<exists>srv' r. GetResponse lib ords t now srv req = Some (Returns (srv', r)) \<and>
    (srv' = srv \<or> (\<exists>k. getSubnet ords srv req = Some k \<and> replied lib t now req k srv srv'))"
proof (cases "getSubnet ords srv req")
  case None
  then show ?thesis by (auto simp: GetResponse_def Let_def)
next
  case (Some k)
  then obtain sn where sn: "srv_subnets srv k = Some sn"
    using getSubnet_visited [OF assms(2)] by blast
  from getResponse_replied [OF this server_typedD(3) [OF assms(1) sn], of lib t now req]
  obtain srv' resp l e where r: "getResponse lib t now srv req k = Some (srv', resp, l, e)"
    "replied lib t now req k srv srv'"
    "lib_MessageType lib (req_DHCPv4 req) \<in> {MessageTypeDiscover, MessageTypeRequest} \<longrightarrow>
      e \<noteq> None \<or> resp \<noteq> None \<and> l \<noteq> None" by blast
  have "replied lib t now req k srv (srv'\<lparr>srv_leases := (srv_leases srv')[i := (srv_leases srv' ! i)\<lparr>lease_ServerId := x\<rparr>]\<rparr>)" for i x
    using r(2) by cases (rule replied.intros, auto intro: heap_ext_trans simp: heap_simps)
  then show ?thesis
    using r by (auto simp: GetResponse_def Let_def Some split: option.split)
qed

lemma replied_typed:
  assumes "replied lib t now req k srv srv'" "server_typed srv"
  shows "server_typed srv'" "heap_ext (srv_leases srv) (srv_leases srv')"
proof -
  from assms(1) obtain sn h sn' q where r: "srv_subnets srv k = Some sn"
    "answer lib t now (req_DHCPv4 req) (srv_leases srv, sn) (h, sn') q"
    "srv_subnets srv' = (srv_subnets srv)(k \<mapsto> sn')" "heap_ext h (srv_leases srv')"
    by cases blast
  note sn = server_typedD [OF assms(2) r(1)]
  have c: "same_config sn sn'" "heap_ext (srv_leases srv) h"
    using answer_config [OF r(2)] by auto
  show ext: "heap_ext (srv_leases srv) (srv_leases srv')" by (rule heap_ext_trans [OF c(2) r(4)])
  have "subnet_typed (srv_leases srv', sn')"
    using answer_typed [OF r(2) sn(2)] refs_ok_ext [OF _ r(4)] by (auto simp: subnet_typed_def)
  then show "server_typed srv'"
    using server_typed_step [OF assms(2) r(3) ext] same_config_fields(1) [OF c(1)] sn(1) by simp
qed

section \<open>The server as a step relation\<close>

text \<open>
  The operations of \<^verbatim>\<open>dhcp/server.go\<close> that change its state, and the mark the response
  processor leaves on a lease, with the arguments their callers choose.
\<close>

datatype server_op =
  AddListen Listen | DeleteListen string | Close
| AddSubnet Subnet | DeleteSubnet SubnetAddrPrefix
| AddLease Lease | DeleteLease Lease | AddHost Host | DeleteHost Host
| HandleRequest Request | AckSent lref bool

text \<open>One rule for every operation. The only premises are the orders in which Go may visit the maps.\<close>

inductive server_step :: "dhcpv4_lib \<Rightarrow> Server \<Rightarrow> server_op \<Rightarrow> Server \<Rightarrow> bool" for lib where
  add_listen: "server_step lib srv (AddListen listen) (fst (Server_AddListen srv listen))"
| delete_listen: "server_step lib srv (DeleteListen name) (fst (Server_DeleteListen srv name))"
| close: "visits ord (srv_listeners srv) \<Longrightarrow> server_step lib srv Close (Server_Close ord srv)"
| add_subnet: "visits ordL (srv_localIpAddresses srv) \<Longrightarrow> visits ordS (srv_subnets srv) \<Longrightarrow>
    server_step lib srv (AddSubnet sn) (fst (Server_AddSubnet ordL ordS srv sn))"
| delete_subnet: "server_step lib srv (DeleteSubnet k) (fst (Server_DeleteSubnet srv k))"
| add_lease: "server_step lib srv (AddLease l) (fst (add_new_lease srv l))"
| delete_lease: "visits ord (srv_subnets srv) \<Longrightarrow>
    server_step lib srv (DeleteLease l) (fst (Server_DeleteLease ord srv l))"
| add_host: "visits ord (srv_subnets srv) \<Longrightarrow> server_step lib srv (AddHost x) (fst (Server_AddHost ord srv x))"
| delete_host: "visits ord (srv_subnets srv) \<Longrightarrow> server_step lib srv (DeleteHost x) (fst (Server_DeleteHost ord srv x))"
| request: "\<forall>ip. visits (ords ip) (srv_subnets srv) \<Longrightarrow>
    GetResponse lib ords t now srv req = Some (Returns (srv', r)) \<Longrightarrow> server_step lib srv (HandleRequest req) srv'"
| ack_sent: "server_step lib srv (AckSent l b)
    (srv\<lparr>srv_leases := (srv_leases srv)[l := (srv_leases srv ! l)\<lparr>lease_AckSent := b\<rparr>]\<rparr>)"

text \<open>
  What a caller has to respect so that the cache stays consistent: a subnet comes with its
  cursor at zero, a lease or a host has a hardware address and an IPv4 address and does not
  claim a hardware address that the cache of its subnet binds to another address, and a
  deletion names the two keys of one lease, or keys the cache does not have. Requests are
  always admitted.
\<close>

definition admitted :: "Server \<Rightarrow> server_op \<Rightarrow> bool" where
  "admitted srv c =
     (case c of
        AddSubnet sn \<Rightarrow> sn_currentIP sn = 0
      | AddLease l \<Rightarrow> lease_admitted srv l
      | DeleteLease l \<Rightarrow> delete_admitted srv (lease_MAC l) (lease_IP l)
      | AddHost x \<Rightarrow> host_admitted srv x
      | DeleteHost x \<Rightarrow> delete_admitted srv (host_MAC x) (host_IP x)
      | _ \<Rightarrow> True)"

definition careful_step :: "dhcpv4_lib \<Rightarrow> Server \<Rightarrow> Server \<Rightarrow> bool" where
  "careful_step lib srv srv' \<longleftrightarrow> (\<exists>c. admitted srv c \<and> server_step lib srv c srv')"

lemma careful_stepI: "server_step lib srv c srv' \<Longrightarrow> admitted srv c \<Longrightarrow> careful_step lib srv srv'"
  by (auto simp: careful_step_def)

lemma request_inv:
  assumes "server_inv srv" "\<forall>ip. visits (ords ip) (srv_subnets srv)"
    "GetResponse lib ords t now srv req = Some (Returns (srv', r))"
  shows "server_inv srv'" "srv_bindings srv k m = Some a \<Longrightarrow> srv_bindings srv' k m = Some a"
  using GetResponse_replied [OF server_inv_typed [OF assms(1)] assms(2), of lib t now req] replied_inv [OF _ assms(1)] assms(1,3)
  by auto

lemma same_subnets_inv:
  "server_inv srv \<Longrightarrow> srv_subnets srv' = srv_subnets srv \<Longrightarrow> srv_leases srv' = srv_leases srv \<Longrightarrow> server_inv srv'"
  by (simp add: server_inv_def)

lemma listener_ops_same [op_simps]:
  "srv_subnets (fst (Server_AddListen srv l)) = srv_subnets srv"
  "srv_leases (fst (Server_AddListen srv l)) = srv_leases srv"
  "srv_subnets (fst (Server_DeleteListen srv name)) = srv_subnets srv"
  "srv_leases (fst (Server_DeleteListen srv name)) = srv_leases srv"
  "srv_subnets (Server_Close ord srv) = srv_subnets srv"
  "srv_leases (Server_Close ord srv) = srv_leases srv"
  by (simp_all add: Server_AddListen_def Server_DeleteListen_def Server_Close_def split: sum.split option.split)

lemma server_step_inv: "server_step lib srv c srv' \<Longrightarrow> admitted srv c \<Longrightarrow> server_inv srv \<Longrightarrow> server_inv srv'"
proof (induction rule: server_step.induct)
  case (add_listen srv listen)
  from add_listen(2) show ?case by (rule same_subnets_inv) (simp_all add: op_simps)
next
  case (delete_listen srv name)
  from delete_listen(2) show ?case by (rule same_subnets_inv) (simp_all add: op_simps)
next
  case (close ord srv)
  from close(3) show ?case by (rule same_subnets_inv) (simp_all add: op_simps)
next
  case (request ords srv t now req srv' r)
  from request(4,1,2) show ?case by (rule request_inv(1))
next
  case (ack_sent srv l b)
  from ack_sent(2) show ?case by (rule server_inv_heap) (simp_all add: heap_simps)
qed (simp_all add: admitted_def AddSubnet_inv DeleteSubnet_inv AddLease_inv DeleteLease_inv AddHost_inv DeleteHost_inv)

interpretation server: invariant_system "careful_step lib" server_inv for lib
  by unfold_locales (auto simp: careful_step_def intro: server_step_inv)

text \<open>No operation changes the addresses of the host or the identities of the server.\<close>

lemma set_subnet_ids:
  "srv_localIpAddresses (fst (Server_AddHost ord srv x)) = srv_localIpAddresses srv"
  "srv_serverIds (fst (Server_AddHost ord srv x)) = srv_serverIds srv"
  "srv_localIpAddresses (fst (Server_DeleteHost ord srv x)) = srv_localIpAddresses srv"
  "srv_serverIds (fst (Server_DeleteHost ord srv x)) = srv_serverIds srv"
  "srv_localIpAddresses (fst (Server_DeleteLease ord srv l)) = srv_localIpAddresses srv"
  "srv_serverIds (fst (Server_DeleteLease ord srv l)) = srv_serverIds srv"
  "srv_localIpAddresses (fst (add_new_lease srv l)) = srv_localIpAddresses srv"
  "srv_serverIds (fst (add_new_lease srv l)) = srv_serverIds srv"
  by (simp_all add: Server_AddHost_def Server_DeleteHost_def Server_DeleteLease_def add_new_lease_def Server_AddLease_def
      set_subnet_def split: option.split)

lemma other_ops_ids:
  "srv_localIpAddresses (fst (Server_AddListen srv l)) = srv_localIpAddresses srv"
  "srv_serverIds (fst (Server_AddListen srv l)) = srv_serverIds srv"
  "srv_localIpAddresses (fst (Server_DeleteListen srv name)) = srv_localIpAddresses srv"
  "srv_serverIds (fst (Server_DeleteListen srv name)) = srv_serverIds srv"
  "srv_localIpAddresses (Server_Close ord srv) = srv_localIpAddresses srv"
  "srv_serverIds (Server_Close ord srv) = srv_serverIds srv"
  "srv_localIpAddresses (fst (Server_AddSubnet ordL ordS srv sn)) = srv_localIpAddresses srv"
  "srv_serverIds (fst (Server_AddSubnet ordL ordS srv sn)) = srv_serverIds srv"
  "srv_localIpAddresses (fst (Server_DeleteSubnet srv k)) = srv_localIpAddresses srv"
  "srv_serverIds (fst (Server_DeleteSubnet srv k)) = srv_serverIds srv"
  by (simp_all add: Server_AddListen_def Server_DeleteListen_def Server_Close_def Server_AddSubnet_def Server_DeleteSubnet_def
      split: sum.split option.split)

lemma request_ids:
  assumes "GetResponse lib ords t now srv req = Some (Returns (srv', r))"
  shows "srv_localIpAddresses srv' = srv_localIpAddresses srv \<and> srv_serverIds srv' = srv_serverIds srv"
proof -
  have g: "srv_localIpAddresses srv1 = srv_localIpAddresses srv \<and> srv_serverIds srv1 = srv_serverIds srv"
    if "getResponse lib t now srv req k = Some (srv1, resp, l, e)" for k srv1 resp l e
    using that by (auto simp: getResponse_def Let_def split: option.splits sum.splits prod.splits)
  show ?thesis
    using assms
    by (auto simp: GetResponse_def Let_def dest!: g split: if_splits option.splits)
qed

lemma server_step_ids:
  "server_step lib srv c srv' \<Longrightarrow>
   srv_localIpAddresses srv' = srv_localIpAddresses srv \<and> srv_serverIds srv' = srv_serverIds srv"
  by (induction rule: server_step.induct) (simp_all add: set_subnet_ids other_ops_ids request_ids)

lemma NewServer_inv: "NewServer udp getter ord c = NewServerResult (Some srv) e \<Longrightarrow> server_inv srv"
  by (auto simp: NewServer_def server_inv_def Let_def split: if_splits sum.splits)

end
