(* ===== verification/Dhcp_Server_Props.thy ===== *)
theory Dhcp_Server_Props
  imports Dhcp_Server_Inv
begin

text \<open>
  Properties of the server: what holds in every state its operations can reach, the
  content of the replies, the errors, and the choice of the subnet.
\<close>

section \<open>Reachable states\<close>

definition sample_config :: ServerConfig where
  "sample_config = \<lparr>cfg_SocketFactory = None, cfg_LocalAddressesGetter = Some (Inr [''eth0'' \<mapsto> [ip_of 167837953]]),
     cfg_HasLogger = True, cfg_HasCallbackSaveLeases = True\<rparr>"

definition sample_udp :: SocketFactory where
  "sample_udp addr iface = Inr 7"

definition empty_server :: Server where
  "empty_server = \<lparr>srv_listeners = Map.empty, srv_subnets = Map.empty,
     srv_localIpAddresses = [''eth0'' \<mapsto> [ip_of 167837953]], srv_serverIds = [''10.1.1.1'' \<mapsto> True],
     srv_socketFactory = sample_udp, srv_leases = [], srv_closed = []\<rparr>"

definition sample_server :: Server where
  "sample_server = empty_server\<lparr>srv_subnets := [''10.1.1.0/24'' \<mapsto> sample_subnet\<lparr>sn_serverIPAddress := ip_of 167837953\<rparr>]\<rparr>"

lemma sample_text_ip: "IPv4_String 167837953 = ''10.1.1.1''"
  by code_simp

lemma sample_NewServer: "NewServer sample_udp (Inl ''none'') [''eth0''] sample_config = NewServerResult (Some empty_server) None"
  by (simp add: NewServer_def sample_config_def empty_server_def server_ids_def in_order_def sample_text_ip)

lemma sample_contains: "Subnet_Contains sample_subnet (ip_of 167837953)"
  "IPNet_Contains (sn_ipNet sample_subnet) (ip_of 167837953)"
proof -
  show "IPNet_Contains (sn_ipNet sample_subnet) (ip_of 167837953)"
    using contains_ip_of [of 24 167837952 167837953] by (simp add: sample_mask sample_subnet_def drop_bit_eq_div) 
  then show "Subnet_Contains sample_subnet (ip_of 167837953)"
    by (simp add: Subnet_Contains_def)
qed

lemma sample_AddSubnet:
  "Server_AddSubnet [''eth0''] [] empty_server spec_subnet = (sample_server, None)"
proof -
  have "InitializeSubnet spec_subnet [[ip_of 167837953]] = Inr (sample_subnet\<lparr>sn_serverIPAddress := ip_of 167837953\<rparr>)"
    using sample_contains(1)
    by (simp add: InitializeSubnet_def spec_subnet_def sample_subnet_def sample_texts sample_mask
      pick_server_address_def defaultLeaseTime_def)
  then show ?thesis
    by (simp add: Server_AddSubnet_def empty_server_def sample_server_def in_order_def)
      (simp add: sample_subnet_def)
qed

lemma sample_reachable: "careful_step lib empty_server sample_server"
proof -
  have "server_step lib empty_server (AddSubnet spec_subnet) (fst (Server_AddSubnet [''eth0''] [] empty_server spec_subnet))"
    by (rule server_step.add_subnet) (simp_all add: visits_def empty_server_def)
  moreover have "admitted empty_server (AddSubnet spec_subnet)" by (simp add: admitted_def spec_subnet_def sample_subnet_def)
  ultimately show ?thesis unfolding sample_AddSubnet fst_conv by (rule careful_stepI)
qed

lemma sample_server_inv: "server_inv sample_server"
  using server.trans_inv [OF NewServer_inv [OF sample_NewServer] sample_reachable] .

text \<open>C2: start from a new server and let its operations run in any order: requests of any clients,
  listeners, subnets with their cursor at zero, leases and hosts with an IPv4 address whose
  hardware address the cache does not bind to another address, and deletions that name the
  two keys of one lease or keys the cache does not have. The source checks none of these
  conditions (\<open>admitted\<close>); they are obligations of the callers. Then in every state that is
  reached each subnet is found under its own text, and no two clients that the cache of a
  subnet knows are bound to the same address.\<close>

theorem reachable_no_double_booking:
  assumes "NewServer udp getter ord c = NewServerResult (Some srv0) e" "(careful_step lib)\<^sup>*\<^sup>* srv0 srv"
    and "srv_subnets srv k = Some sn"
  shows "sn_Subnet sn = k \<and> exclusive (bindings (srv_leases srv, sn))"
proof -
  have inv: "server_inv srv"
    by (rule server.reach_inv [OF assms(2) NewServer_inv [OF assms(1)]])
  show ?thesis
    using server_invD(1) [OF inv assms(3)] leases.book_exclusive [OF server_invD(4) [OF inv assms(3)]] by simp
qed

text \<open>C14: what a request does to the bindings of a server whose callers kept their obligations
  (\<open>admitted\<close>): either no binding of any subnet changes, or the subnet of the request gains
  exactly one, that of the requesting client, which had none there, to an address that
  no client of the subnet is bound to, and that lies in the range of the pool unless the
  range ends at 255.255.255.255 (\<open>in_ring\<close>).\<close>

theorem request_binds_only_its_client:
  assumes "NewServer udp getter ord c = NewServerResult (Some srv0) e" "(careful_step lib)\<^sup>*\<^sup>* srv0 srv"
    and "\<forall>ip. visits (ords ip) (srv_subnets srv)" "GetResponse lib ords t now srv req = Some (Returns (srv', r))"
  shows "srv_bindings srv' = srv_bindings srv \<or>
    (\<exists>k sn ip. getSubnet ords srv req = Some k \<and> srv_subnets srv k = Some sn \<and> in_ring sn ip \<and>
       srv_bindings srv k (client_mac (req_DHCPv4 req)) = None \<and> IPv4_String ip \<notin> ran (srv_bindings srv k) \<and>
       srv_bindings srv' = (srv_bindings srv)(k := (srv_bindings srv k)(client_mac (req_DHCPv4 req) \<mapsto> IPv4_String ip)))"
proof -
  have inv: "server_inv srv"
    by (rule server.reach_inv [OF assms(2) NewServer_inv [OF assms(1)]])
  from GetResponse_replied [OF server_inv_typed [OF inv] assms(3), of lib t now req] assms(4)
  consider "srv' = srv" | k where "getSubnet ords srv req = Some k" "replied lib t now req k srv srv'" by auto
  then show ?thesis
  proof cases
    case 2
    from replied_bindings [OF 2(2) inv] 2(1) show ?thesis by blast
  qed simp
qed

definition sample_request :: "byte \<Rightarrow> (byte \<rightharpoonup> byte list) \<Rightarrow> Request" where
  "sample_request n opts = \<lparr>req_DHCPv4 = sample_packet n opts, req_Src = ''0.0.0.0'', req_InterfaceName = ''eth0'',
     req_Dst = None, req_socket = 7\<rparr>"

lemma sample_request_packet [simp]: "req_DHCPv4 (sample_request n opts) = sample_packet n opts"
  by (simp add: sample_request_def)

lemma sample_leases [simp]: "srv_leases sample_server = []"
  by (simp add: sample_server_def empty_server_def)

lemma sample_visits: "visits [''10.1.1.0/24''] (srv_subnets sample_server)"
  by (simp add: visits_def sample_server_def)

section \<open>The content of a reply\<close>

text \<open>
  What the server relies on of the dhcpv4 package: \<^verbatim>\<open>UpdateOption\<close> writes an option and
  leaves the fixed fields of the packet alone, and the message type that was set last
  is the one that is read.
\<close>

definition options_only :: "dhcpv4_lib \<Rightarrow> bool" where
  "options_only lib \<longleftrightarrow>
     (\<forall>x p. YourIPAddr (lib_UpdateOption lib x p) = YourIPAddr p \<and>
        ServerIPAddr (lib_UpdateOption lib x p) = ServerIPAddr p \<and>
        BootFileName (lib_UpdateOption lib x p) = BootFileName p \<and>
        ServerHostName (lib_UpdateOption lib x p) = ServerHostName p)"

definition type_read_back :: "dhcpv4_lib \<Rightarrow> bool" where
  "type_read_back lib \<longleftrightarrow>
     (\<forall>m \<in> {MessageTypeOffer, MessageTypeAck}. \<forall>p. lib_MessageType lib (lib_UpdateOption lib (OptMessageType m) p) = m)"

lemma sample_lib_laws: "options_only sample_lib" "type_read_back sample_lib"
  by (simp_all add: options_only_def type_read_back_def sample_lib_def sample_option_def
      message_type_code_def code_message_type_def)

lemma options_only_fold:
  "options_only lib \<Longrightarrow>
   YourIPAddr (fold (lib_UpdateOption lib) xs p) = YourIPAddr p \<and>
   ServerIPAddr (fold (lib_UpdateOption lib) xs p) = ServerIPAddr p \<and>
   BootFileName (fold (lib_UpdateOption lib) xs p) = BootFileName p \<and>
   ServerHostName (fold (lib_UpdateOption lib) xs p) = ServerHostName p"
  by (induction xs arbitrary: p) (simp_all add: options_only_def)

text \<open>The options of a lease are added in order, or the first unknown type is the error.\<close>

lemma add_lease_options_eq:
  "add_lease_options lib xs p =
    (case find (\<lambda>x. opt_Type x \<noteq> ''string'') xs of
       Some x \<Rightarrow> Inl (ErrUnknownOptionType (opt_Type x))
     | None \<Rightarrow> Inr (fold (lib_UpdateOption lib) (map (\<lambda>x. GenericOption (opt_ID x) (OptString (opt_Value x))) xs) p))"
  by (induction xs arbitrary: p) (simp_all split: option.split)

definition reply_type :: "MessageType \<Rightarrow> MessageType option" where
  "reply_type mt = (case mt of MessageTypeDiscover \<Rightarrow> Some MessageTypeOffer
     | MessageTypeRequest \<Rightarrow> Some MessageTypeAck | _ \<Rightarrow> None)"

lemma fill_response_success:
  assumes "options_only lib" "type_read_back lib" "fill_response lib mt ip lease base = Inr (Some resp)"
  shows "reply_type mt = Some (lib_MessageType lib resp)" "YourIPAddr resp = lease_IP lease" "ServerIPAddr resp = ip"
    "BootFileName resp = lease_BootFileName lease" "ServerHostName resp = lease_ServerHostName lease"
    "\<forall>x \<in> set (lease_Options lease). opt_Type x = ''string''"
proof -
  from assms(3) have f: "find (\<lambda>x. opt_Type x \<noteq> ''string'') (lease_Options lease) = None"
    by (cases "find (\<lambda>x. opt_Type x \<noteq> ''string'') (lease_Options lease)")
      (simp_all add: fill_response_def Let_def add_lease_options_eq)
  then show "\<forall>x \<in> set (lease_Options lease). opt_Type x = ''string''"
    by (simp add: find_None_iff)
  from f assms(3) obtain m p where m: "reply_type mt = Some m" "m \<in> {MessageTypeOffer, MessageTypeAck}"
    "resp = lib_UpdateOption lib (OptMessageType m) p"
    "YourIPAddr p = lease_IP lease" "ServerIPAddr p = ip"
    "BootFileName p = lease_BootFileName lease" "ServerHostName p = lease_ServerHostName lease"
    using options_only_fold [OF assms(1)]
    by (auto simp: fill_response_def Let_def add_lease_options_eq reply_type_def split: MessageType.splits)
  then show "reply_type mt = Some (lib_MessageType lib resp)" "YourIPAddr resp = lease_IP lease" "ServerIPAddr resp = ip"
    "BootFileName resp = lease_BootFileName lease" "ServerHostName resp = lease_ServerHostName lease"
    using assms(1,2) by (auto simp: options_only_def type_read_back_def)
qed

lemma fill_response_succeeds:
  "reply_type mt \<noteq> None \<Longrightarrow> \<forall>x \<in> set (lease_Options lease). opt_Type x = ''string'' \<Longrightarrow>
   \<exists>resp. fill_response lib mt ip lease base = Inr (Some resp)"
  by (auto simp: fill_response_def Let_def add_lease_options_eq reply_type_def find_None_iff
      split: MessageType.splits option.split)

text \<open>When the server answers, and in which state it then is.\<close>

definition accepts_id :: "dhcpv4_lib \<Rightarrow> Server \<Rightarrow> DHCPv4 \<Rightarrow> bool" where
  "accepts_id lib srv p \<longleftrightarrow>
     isAddressZero (lib_ServerIdentifier lib p) \<or> srv_serverIds srv (IP_String (lib_ServerIdentifier lib p)) \<noteq> None"

definition stamped :: "Subnet \<Rightarrow> Lease \<Rightarrow> Lease" where
  "stamped sn l = l\<lparr>lease_ServerId := sn_serverIPAddress sn\<rparr>"

lemma GetResponse_success:
  assumes "GetResponse lib ords t now srv req = Some (Returns (srv', Inr r))"
  obtains k h sn l base where
    "accepts_id lib srv (req_DHCPv4 req)" "getSubnet ords srv req = Some k"
    "reply_type (lib_MessageType lib (req_DHCPv4 req)) \<noteq> None"
    "GetLeaseForRequest lib t now (srv_leases srv) (the (srv_subnets srv k)) (req_DHCPv4 req) = Some (h, sn, Some l)"
    "lib_NewReplyFromRequest lib (req_DHCPv4 req) = Inr (Some base)"
    "fill_response lib (lib_MessageType lib (req_DHCPv4 req)) (sn_serverIPAddress sn) (stamped sn (h ! l)) base =
       Inr (Some (resp_Response r))"
    "resp_Request r = req" "resp_Lease r = Some l"
    "srv' = set_subnet k (h[l := stamped sn (h ! l)], sn) srv"
proof -
  let ?p = "req_DHCPv4 req"
  from assms have id: "accepts_id lib srv ?p"
    by (auto simp: GetResponse_def Let_def accepts_id_def isAddressZero_def split: if_splits)
  from assms obtain k where k: "getSubnet ords srv req = Some k"
    by (cases "getSubnet ords srv req") (auto simp: GetResponse_def Let_def split: if_splits)
  from assms k have mt: "lib_MessageType lib ?p = MessageTypeDiscover \<or> lib_MessageType lib ?p = MessageTypeRequest"
    by (auto simp: GetResponse_def Let_def split: if_splits)
  from assms k mt obtain srv1 resp l where g: "getResponse lib t now srv req k = Some (srv1, Some resp, Some l, None)"
    "r = \<lparr>resp_Request = req, resp_Response = resp, resp_Lease = Some l\<rparr>"
    "srv' = srv1\<lparr>srv_leases := (srv_leases srv1)[l := stamped (the (srv_subnets srv1 k)) (srv_leases srv1 ! l)]\<rparr>"
    by (auto simp: GetResponse_def Let_def stamped_def split: if_splits option.splits)
  from g(1) obtain h sn base where h:
    "GetLeaseForRequest lib t now (srv_leases srv) (the (srv_subnets srv k)) ?p = Some (h, sn, Some l)"
    "lib_NewReplyFromRequest lib ?p = Inr (Some base)"
    "fill_response lib (lib_MessageType lib ?p) (sn_serverIPAddress sn) (stamped sn (h ! l)) base = Inr (Some resp)"
    "srv1 = set_subnet k (h[l := stamped sn (h ! l)], sn) srv"
    by (auto simp: getResponse_def Let_def stamped_def set_subnet_def split: option.splits sum.splits)
  have "srv' = set_subnet k (h[l := stamped sn (h ! l)], sn) srv"
    unfolding g(3) h(4) by (cases "l < length h") (simp_all add: set_subnet_def stamped_def list_update_beyond)
  moreover have "reply_type (lib_MessageType lib ?p) \<noteq> None"
    using mt by (auto simp: reply_type_def)
  ultimately show thesis
    using that [OF id k _ h(1,2)] h(3) g(2) by simp
qed

lemma GetResponse_succeeds:
  assumes "accepts_id lib srv (req_DHCPv4 req)" "getSubnet ords srv req = Some k"
    "reply_type (lib_MessageType lib (req_DHCPv4 req)) \<noteq> None"
    "GetLeaseForRequest lib t now (srv_leases srv) (the (srv_subnets srv k)) (req_DHCPv4 req) = Some (h, sn, Some l)"
    "lib_NewReplyFromRequest lib (req_DHCPv4 req) = Inr (Some base)"
    "\<forall>x \<in> set (lease_Options (h ! l)). opt_Type x = ''string''"
  shows "\<exists>srv' r. GetResponse lib ords t now srv req = Some (Returns (srv', Inr r)) \<and> resp_Lease r = Some l"
proof -
  obtain resp where "fill_response lib (lib_MessageType lib (req_DHCPv4 req)) (sn_serverIPAddress sn)
      ((h ! l)\<lparr>lease_ServerId := sn_serverIPAddress sn\<rparr>) base = Inr (Some resp)"
    using fill_response_succeeds [OF assms(3), of "(h ! l)\<lparr>lease_ServerId := sn_serverIPAddress sn\<rparr>" lib
        "sn_serverIPAddress sn" base] assms(6) by auto
  then have g: "\<exists>srv1. getResponse lib t now srv req k = Some (srv1, Some resp, Some l, None)"
    by (simp add: getResponse_def assms(4,5) Let_def)
  have "lib_MessageType lib (req_DHCPv4 req) = MessageTypeDiscover \<or> lib_MessageType lib (req_DHCPv4 req) = MessageTypeRequest"
    using assms(3) by (auto simp: reply_type_def split: MessageType.splits)
  with g assms(1,2) show ?thesis
    by (auto simp: GetResponse_def Let_def accepts_id_def isAddressZero_def)
qed

lemma reply_lease:
  assumes "options_only lib" "type_read_back lib" "server_typed srv" "\<forall>ip. visits (ords ip) (srv_subnets srv)"
    "GetResponse lib ords t now srv req = Some (Returns (srv', Inr r))"
  shows "\<exists>k sn l. getSubnet ords srv req = Some k \<and> srv_subnets srv' k = Some sn \<and> resp_Lease r = Some l \<and>
    l < length (srv_leases srv') \<and> resp_Request r = req \<and>
    YourIPAddr (resp_Response r) = lease_IP (srv_leases srv' ! l) \<and>
    BootFileName (resp_Response r) = lease_BootFileName (srv_leases srv' ! l) \<and>
    ServerHostName (resp_Response r) = lease_ServerHostName (srv_leases srv' ! l) \<and>
    ServerIPAddr (resp_Response r) = sn_serverIPAddress sn \<and>
    lease_ServerId (srv_leases srv' ! l) = sn_serverIPAddress sn \<and>
    (lib_MessageType lib (req_DHCPv4 req), lib_MessageType lib (resp_Response r)) \<in>
      {(MessageTypeDiscover, MessageTypeOffer), (MessageTypeRequest, MessageTypeAck)}"
  using assms(5)
proof (rule GetResponse_success)
  fix k h sn l base
  let ?p = "req_DHCPv4 req"
  assume k: "getSubnet ords srv req = Some k"
    and g: "GetLeaseForRequest lib t now (srv_leases srv) (the (srv_subnets srv k)) ?p = Some (h, sn, Some l)"
    and f: "fill_response lib (lib_MessageType lib ?p) (sn_serverIPAddress sn) (stamped sn (h ! l)) base =
       Inr (Some (resp_Response r))"
    and r: "resp_Request r = req" "resp_Lease r = Some l"
    and srv': "srv' = set_subnet k (h[l := stamped sn (h ! l)], sn) srv"
  obtain s where s: "srv_subnets srv k = Some s"
    using getSubnet_visited [OF assms(4) k] by blast
  have "l < length h"
    using answer_lease_exists [OF GetLease_answerE [OF server_typedD(3) [OF assms(3) s]] server_typedD(4) [OF assms(3) s]] g s
    by simp
  moreover have "(lib_MessageType lib ?p, lib_MessageType lib (resp_Response r)) \<in>
      {(MessageTypeDiscover, MessageTypeOffer), (MessageTypeRequest, MessageTypeAck)}"
    using fill_response_success(1) [OF assms(1,2) f] by (auto simp: reply_type_def split: MessageType.splits)
  ultimately show ?thesis
    using fill_response_success(2-5) [OF assms(1,2) f] k r by (simp add: srv' stamped_def)
qed

text \<open>C8: a successful reply is an offer to a discover and an acknowledgement to a request; it
  carries the address, the boot file and the server name of the lease and the address of
  the server, which is also written into the lease, and it names that lease.\<close>

theorem reply_carries_the_lease:
  assumes "options_only lib" "type_read_back lib" "server_typed srv" "\<forall>ip. visits (ords ip) (srv_subnets srv)"
    "GetResponse lib ords t now srv req = Some (Returns (srv', Inr r))"
  shows "\<exists>k sn l. getSubnet ords srv req = Some k \<and> srv_subnets srv' k = Some sn \<and> resp_Lease r = Some l \<and>
    l < length (srv_leases srv') \<and> resp_Request r = req \<and>
    YourIPAddr (resp_Response r) = lease_IP (srv_leases srv' ! l) \<and>
    BootFileName (resp_Response r) = lease_BootFileName (srv_leases srv' ! l) \<and>
    ServerHostName (resp_Response r) = lease_ServerHostName (srv_leases srv' ! l) \<and>
    ServerIPAddr (resp_Response r) = sn_serverIPAddress sn \<and>
    lease_ServerId (srv_leases srv' ! l) = sn_serverIPAddress sn \<and>
    (lib_MessageType lib (req_DHCPv4 req), lib_MessageType lib (resp_Response r)) \<in>
      {(MessageTypeDiscover, MessageTypeOffer), (MessageTypeRequest, MessageTypeAck)}"
  by (rule reply_lease [OF assms])

lemma sample_subnet_of:
  "getSubnet (\<lambda>_. [''10.1.1.0/24'']) sample_server (sample_request n opts) = Some ''10.1.1.0/24''"
  using sample_contains(1)
  by (simp add: getSubnet_def getSubnetForIp_def Let_def sample_request_def sample_server_def empty_server_def
      Subnet_Contains_def)

lemma sample_lease:
  "\<exists>h s. GetLeaseForRequest sample_lib t now [] (the (srv_subnets sample_server ''10.1.1.0/24'')) (sample_packet n [53 \<mapsto> [1]]) =
     Some (h, s, Some 0) \<and> lease_Options (h ! 0) = [] \<and> lease_IP (h ! 0) = ip_of 167837953"
  by (simp add: GetLeaseForRequest_def isAddressZero_def advance_pool_def pool_loop.simps Let_def sample_server_def
      NewLease_def sample_subnet_def)

lemma sample_offer:
  "\<exists>srv' r. GetResponse sample_lib (\<lambda>_. [''10.1.1.0/24'']) 1 1 sample_server (sample_request 1 [53 \<mapsto> [1]]) =
     Some (Returns (srv', Inr r)) \<and> YourIPAddr (resp_Response r) = ip_of 167837953 \<and>
     visits [''10.1.1.0/24''] (srv_subnets srv')"
proof -
  obtain h s where hs: "GetLeaseForRequest sample_lib 1 1 [] (the (srv_subnets sample_server ''10.1.1.0/24''))
      (sample_packet 1 [53 \<mapsto> [1]]) = Some (h, s, Some 0)" "lease_Options (h ! 0) = []" "lease_IP (h ! 0) = ip_of 167837953"
    using sample_lease by blast
  obtain base where base: "lib_NewReplyFromRequest sample_lib (sample_packet 1 [53 \<mapsto> [1]]) = Inr (Some base)"
    by (simp add: sample_lib_def)
  have "\<exists>srv' r. GetResponse sample_lib (\<lambda>_. [''10.1.1.0/24'']) 1 1 sample_server (sample_request 1 [53 \<mapsto> [1]]) =
     Some (Returns (srv', Inr r)) \<and> resp_Lease r = Some 0"
    by (rule GetResponse_succeeds [OF _ sample_subnet_of, where h = h])
      (simp_all add: hs base accepts_id_def isAddressZero_def reply_type_def code_message_type_def)
  then obtain srv' r where g: "GetResponse sample_lib (\<lambda>_. [''10.1.1.0/24'']) 1 1 sample_server
      (sample_request 1 [53 \<mapsto> [1]]) = Some (Returns (srv', Inr r))" by blast
  then have "YourIPAddr (resp_Response r) = ip_of 167837953 \<and> visits [''10.1.1.0/24''] (srv_subnets srv')"
  proof (rule GetResponse_success)
    fix k h' s' l base'
    assume k: "getSubnet (\<lambda>_. [''10.1.1.0/24'']) sample_server (sample_request 1 [53 \<mapsto> [1]]) = Some k"
      and l: "GetLeaseForRequest sample_lib 1 1 (srv_leases sample_server) (the (srv_subnets sample_server k))
        (req_DHCPv4 (sample_request 1 [53 \<mapsto> [1]])) = Some (h', s', Some l)"
      and f: "fill_response sample_lib (lib_MessageType sample_lib (req_DHCPv4 (sample_request 1 [53 \<mapsto> [1]])))
        (sn_serverIPAddress s') (stamped s' (h' ! l)) base' = Inr (Some (resp_Response r))"
      and srv': "srv' = set_subnet k (h'[l := stamped s' (h' ! l)], s') sample_server"
    have "lease_IP (h' ! l) = ip_of 167837953" using k l hs by (simp add: sample_subnet_of)
    then show ?thesis
      using fill_response_success(2) [OF sample_lib_laws f] k [unfolded sample_subnet_of]
      unfolding srv' by (simp add: stamped_def visits_def sample_server_def)
  qed
  with g show ?thesis by blast
qed

theorem reply_carries_the_lease_witness:
  "\<exists>srv' r l. GetResponse sample_lib (\<lambda>_. [''10.1.1.0/24'']) 1 1 sample_server (sample_request 1 [53 \<mapsto> [1]]) =
     Some (Returns (srv', Inr r)) \<and> YourIPAddr (resp_Response r) = lease_IP (srv_leases srv' ! l) \<and>
     lib_MessageType sample_lib (resp_Response r) = MessageTypeOffer"
proof -
  obtain srv' r where g: "GetResponse sample_lib (\<lambda>_. [''10.1.1.0/24'']) 1 1 sample_server
      (sample_request 1 [53 \<mapsto> [1]]) = Some (Returns (srv', Inr r))"
    using sample_offer by blast
  have "lib_MessageType sample_lib (req_DHCPv4 (sample_request 1 [53 \<mapsto> [1]])) = MessageTypeDiscover"
    by (simp add: sample_request_def code_message_type_def)
  with g reply_carries_the_lease [OF sample_lib_laws server_inv_typed [OF sample_server_inv] _ g] sample_visits show ?thesis by auto
qed

text \<open>
  The options of the reply. Here the server relies on \<^verbatim>\<open>UpdateOption\<close> writing the encoding
  of an option (\<open>enc\<close>) under its code; the codes are those of RFC 2132.
\<close>

definition option_code :: "pkt_option \<Rightarrow> byte" where
  "option_code x =
     (case x of GenericOption c _ \<Rightarrow> c | OptSubnetMask _ \<Rightarrow> 1 | OptIPAddressLeaseTime _ \<Rightarrow> 51 | OptDNS _ \<Rightarrow> 6
      | OptMessageType _ \<Rightarrow> 53)"

definition writes_options :: "dhcpv4_lib \<Rightarrow> (pkt_option \<Rightarrow> byte list) \<Rightarrow> bool" where
  "writes_options lib enc \<longleftrightarrow>
     (\<forall>x p. lib_UpdateOption lib x p = p\<lparr>Options := (Options p)(option_code x \<mapsto> enc x)\<rparr>)"

lemma sample_writes_options: "writes_options sample_lib (\<lambda>x. snd (sample_option x))"
  by (auto simp: writes_options_def sample_lib_def sample_option_def option_code_def split: pkt_option.split)

lemma fold_options:
  "writes_options lib enc \<Longrightarrow>
   Options (fold (lib_UpdateOption lib) xs p) = fold (\<lambda>x m. m(option_code x \<mapsto> enc x)) xs (Options p)"
  by (induction xs arbitrary: p) (simp_all add: writes_options_def)

lemma fold_upd_last:
  "option_code x \<notin> option_code ` set ys \<Longrightarrow>
   fold (\<lambda>x m. m(option_code x \<mapsto> enc x)) (xs @ x # ys) m (option_code x) = Some (enc x)"
  by (induction ys rule: rev_induct) auto

lemma fill_response_options:
  assumes "writes_options lib enc" "fill_response lib mt ip lease base = Inr (Some resp)"
  shows "\<exists>m. Options resp =
    fold (\<lambda>x m. m(option_code x \<mapsto> enc x))
      (map (\<lambda>x. GenericOption (opt_ID x) (OptString (opt_Value x))) (lease_Options lease) @ standard_options lease @ [OptMessageType m])
      (Options base)"
proof -
  have upd: "Options (lib_UpdateOption lib x p) = (Options p)(option_code x \<mapsto> enc x)" for x p
    using assms(1) by (simp add: writes_options_def)
  from assms(2) have "find (\<lambda>x. opt_Type x \<noteq> ''string'') (lease_Options lease) = None"
    by (cases "find (\<lambda>x. opt_Type x \<noteq> ''string'') (lease_Options lease)")
      (simp_all add: fill_response_def Let_def add_lease_options_eq)
  with assms(2) show ?thesis
    by (auto simp: fill_response_def Let_def add_lease_options_eq fold_options [OF assms(1)] upd split: MessageType.splits)
qed

text \<open>C9: a reply carries the mask, the lease time, the gateway, the name servers and the server's
  identity of its lease as options, the fixed text 123 as option 43, and the last option
  with its number that the lease configures, unless the server sets that number itself.\<close>

theorem reply_options:
  assumes "writes_options lib enc" "server_inv srv" "\<forall>ip. visits (ords ip) (srv_subnets srv)"
    and "GetResponse lib ords t now srv req = Some (Returns (srv', Inr r))"
    and "resp_Lease r = Some l" "lease = srv_leases srv' ! l" "opts = Options (resp_Response r)"
  shows "opts 1 = Some (enc (OptSubnetMask (To4 (ParseIP (lease_NetMask lease))))) \<and>
    opts 51 = Some (enc (OptIPAddressLeaseTime (int64 (lease_LeaseTime lease * Second)))) \<and>
    opts 3 = Some (enc (GenericOption 3 (OptIP (lease_Gateway lease)))) \<and>
    opts 6 = Some (enc (OptDNS (map (\<lambda>dns. To4 (ParseIP dns)) (lease_DNS lease)))) \<and>
    opts 54 = Some (enc (GenericOption 54 (OptIP (lease_ServerId lease)))) \<and>
    opts 43 = Some (enc (GenericOption 43 (OptionGeneric [49, 50, 51]))) \<and>
    (\<forall>xs x ys. lease_Options lease = xs @ x # ys \<longrightarrow> opt_ID x \<notin> opt_ID ` set ys \<union> {1, 3, 6, 43, 51, 53, 54} \<longrightarrow>
       opts (opt_ID x) = Some (enc (GenericOption (opt_ID x) (OptString (opt_Value x)))))"
  using assms(4)
proof (rule GetResponse_success)
  fix k h sn l' base
  assume k: "getSubnet ords srv req = Some k"
    and g: "GetLeaseForRequest lib t now (srv_leases srv) (the (srv_subnets srv k)) (req_DHCPv4 req) = Some (h, sn, Some l')"
    and f: "fill_response lib (lib_MessageType lib (req_DHCPv4 req)) (sn_serverIPAddress sn) (stamped sn (h ! l')) base =
       Inr (Some (resp_Response r))"
    and l': "resp_Lease r = Some l'" and srv': "srv' = set_subnet k (h[l' := stamped sn (h ! l')], sn) srv"
  obtain s where s: "srv_subnets srv k = Some s"
    using getSubnet_visited [OF assms(3) k] by blast
  have "l' < length h"
    using answer_lease_exists [OF GetLease_answerE [OF server_invD(3) [OF assms(2) s]] cache_ok_refs [OF server_invD(4) [OF assms(2) s]]] g s
    by simp
  then have lease: "stamped sn (h ! l') = lease"
    using l' assms(5,6) by (simp add: srv')
  obtain m where opts: "opts = fold (\<lambda>x m. m(option_code x \<mapsto> enc x))
      (map (\<lambda>x. GenericOption (opt_ID x) (OptString (opt_Value x))) (lease_Options lease) @ standard_options lease @ [OptMessageType m])
      (Options base)"
    using fill_response_options [OF assms(1) f [unfolded lease]] assms(7) by blast
  have conf: "opts (opt_ID x) = Some (enc (GenericOption (opt_ID x) (OptString (opt_Value x))))"
    if "lease_Options lease = xs @ x # ys" "opt_ID x \<notin> opt_ID ` set ys \<union> {1, 3, 6, 43, 51, 53, 54}" for xs x ys
  proof -
    let ?f = "\<lambda>x. GenericOption (opt_ID x) (OptString (opt_Value x))"
    have code: "option_code (?f y) = opt_ID y" for y by (simp add: option_code_def)
    have "option_code (?f x) \<notin> option_code ` set (map ?f ys @ standard_options lease @ [OptMessageType m])"
      using that(2) by (auto simp: code) (auto simp: option_code_def standard_options_def)
    from fold_upd_last [OF this, of enc "map ?f xs" "Options base"] show ?thesis
      by (simp add: opts that(1) code)
  qed
  show ?thesis
    using conf by (simp add: opts standard_options_def option_code_def)
qed

theorem reply_options_witness:
  "\<exists>srv' r l. GetResponse sample_lib (\<lambda>_. [''10.1.1.0/24'']) 1 1 sample_server (sample_request 1 [53 \<mapsto> [1]]) =
     Some (Returns (srv', Inr r)) \<and>
   Options (resp_Response r) 3 = Some (snd (sample_option (GenericOption 3 (OptIP (lease_Gateway (srv_leases srv' ! l)))))) \<and>
   Options (resp_Response r) 43 = Some [49, 50, 51]"
proof -
  obtain srv' r where g: "GetResponse sample_lib (\<lambda>_. [''10.1.1.0/24'']) 1 1 sample_server
      (sample_request 1 [53 \<mapsto> [1]]) = Some (Returns (srv', Inr r))"
    using sample_offer by blast
  have v: "\<forall>ip. visits ((\<lambda>_. [''10.1.1.0/24'']) ip) (srv_subnets sample_server)" using sample_visits by simp
  obtain l where "resp_Lease r = Some l"
    using g by (rule GetResponse_success) blast
  from reply_options [OF sample_writes_options sample_server_inv v g this refl refl]
  have "Options (resp_Response r) 3 = Some (snd (sample_option (GenericOption 3 (OptIP (lease_Gateway (srv_leases srv' ! l))))))"
    "Options (resp_Response r) 43 = Some (snd (sample_option (GenericOption 43 (OptionGeneric [49, 50, 51]))))"
    by blast+
  with g show ?thesis by (auto simp: sample_option_def sample_value_def)
qed

section \<open>Errors\<close>

text \<open>The identities of a new server are the texts of the local addresses.\<close>

lemma dom_fold_upd: "dom (fold (\<lambda>x m. m(g x \<mapsto> True)) xs m) = dom m \<union> g ` set xs"
  by (induction xs arbitrary: m) auto

lemma dom_server_ids: "dom (server_ids ipss) = (\<Union>ips \<in> set ipss. IP_String ` set ips)"
proof -
  have "dom (fold (\<lambda>ips m. fold (\<lambda>ip m. m(IP_String ip \<mapsto> True)) ips m) ipss m) =
      dom m \<union> (\<Union>ips \<in> set ipss. IP_String ` set ips)" for m
  proof (induction ipss arbitrary: m)
    case (Cons ips ipss)
    show ?case unfolding fold.simps comp_def Cons.IH dom_fold_upd by auto
  qed simp
  then show ?thesis by (simp add: server_ids_def)
qed

definition local_id :: "LocalIPAddresses \<Rightarrow> string \<Rightarrow> bool" where
  "local_id addrs k \<longleftrightarrow> (\<exists>name ips ip. addrs name = Some ips \<and> ip \<in> set ips \<and> k = IP_String ip)"

lemma NewServer_ids:
  assumes "NewServer udp getter ord c = NewServerResult (Some srv) e" "visits ord (srv_localIpAddresses srv)"
  shows "srv_serverIds srv k \<noteq> None \<longleftrightarrow> local_id (srv_localIpAddresses srv) k"
proof -
  have "srv_serverIds srv = server_ids (in_order ord (srv_localIpAddresses srv))"
    using assms(1) by (auto simp: NewServer_def Let_def split: if_splits sum.splits)
  moreover have "set (in_order ord (srv_localIpAddresses srv)) = ran (srv_localIpAddresses srv)"
    using assms(2) by (auto simp: in_order_def visits_def ran_def image_def) (metis domI option.sel)+
  ultimately have "dom (srv_serverIds srv) = (\<Union>ips \<in> ran (srv_localIpAddresses srv). IP_String ` set ips)"
    by (simp only: dom_server_ids)
  then show ?thesis by (auto simp: local_id_def ran_def set_eq_iff domIff)
qed

text \<open>
  Why a request is refused before a lease is looked for, given the local addresses of the
  host and the subnet that was found; the checks are tried in this order.
\<close>

definition refusal :: "dhcpv4_lib \<Rightarrow> LocalIPAddresses \<Rightarrow> SubnetAddrPrefix option \<Rightarrow> Request \<Rightarrow> dhcp_error option" where
  "refusal lib addrs found req =
     (let p = req_DHCPv4 req; sid = lib_ServerIdentifier lib p in
      if \<not> isAddressZero sid \<and> \<not> local_id addrs (IP_String sid) then Some (ErrUnknownServerId (IP_String sid))
      else if found = None then Some (ErrUnknownSubnet (req_Src req) (GatewayIPAddr p) (req_InterfaceName req))
      else if reply_type (lib_MessageType lib p) = None then Some (ErrUnknownPacketType (lib_MessageType lib p))
      else None)"

definition lease_errors :: "dhcp_error set" where
  "lease_errors = {ErrNilLease, ErrNoReply} \<union> range ErrReply \<union> range ErrUnknownOptionType"

lemma GetResponse_refusal:
  assumes "\<And>k. srv_serverIds srv k \<noteq> None \<longleftrightarrow> local_id addrs k"
  shows "case refusal lib addrs (getSubnet ords srv req) req of
      Some e \<Rightarrow> GetResponse lib ords t now srv req = Some (Returns (srv, Inl e))
    | None \<Rightarrow> \<forall>srv' e. GetResponse lib ords t now srv req = Some (Returns (srv', Inl e)) \<longrightarrow> e \<in> lease_errors"
proof -
  let ?p = "req_DHCPv4 req"
  have id: "local_id addrs k \<longleftrightarrow> srv_serverIds srv k \<noteq> None" for k using assms by blast
  have mt: "reply_type (lib_MessageType lib ?p) = None \<longleftrightarrow>
      lib_MessageType lib ?p \<noteq> MessageTypeDiscover \<and> lib_MessageType lib ?p \<noteq> MessageTypeRequest"
    by (simp add: reply_type_def split: MessageType.split)
  have fill: "e \<in> lease_errors" if "fill_response lib m ip lease base = Inl e" for m ip lease base e
    using that by (auto simp: fill_response_def Let_def add_lease_options_eq lease_errors_def
        split: option.splits MessageType.splits)
  have get: "e \<in> lease_errors" if "getResponse lib t now srv req k = Some (srv', resp, l, Some e)" for k srv' resp l e
    using that
    by (auto simp: getResponse_def Let_def dest: fill split: option.splits sum.splits prod.splits) (simp_all add: lease_errors_def)
  show ?thesis
    unfolding refusal_def GetResponse_def Let_def id mt isAddressZero_def
    by (auto dest: get split: option.splits)
qed


text \<open>A client that holds a lease and asks for another address, and a new client that asks for
  an address held by another client, get no reply: the error is the nil lease (the source
  sends no NAK) and the leases and the subnets stay as they are.\<close>

lemma conflicting_request_is_refused:
  assumes "accepts_id lib srv (req_DHCPv4 req)" "getSubnet ords srv req = Some k" "srv_subnets srv k = Some sn"
    "reply_type (lib_MessageType lib (req_DHCPv4 req)) \<noteq> None"
    "\<not> isAddressZero a" "lib_RequestedIPAddress lib (req_DHCPv4 req) = a"
    and conflict: "case sn_leaseCache sn (client_mac (req_DHCPv4 req)) of
       Some l \<Rightarrow> \<not> IP_Equal a (lease_IP (srv_leases srv ! l))
     | None \<Rightarrow> sn_leaseCache sn (IP_String a) \<noteq> None"
  shows "\<exists>srv'. GetResponse lib ords t now srv req = Some (Returns (srv', Inl ErrNilLease)) \<and>
    srv_subnets srv' = srv_subnets srv \<and> srv_leases srv' = srv_leases srv"
proof -
  have "GetLeaseForRequest lib t now (srv_leases srv) sn (req_DHCPv4 req) = Some (srv_leases srv, sn, None)"
    using assms(5,6) conflict
    by (cases "sn_leaseCache sn (client_mac (req_DHCPv4 req))") (auto simp: GetLease_known GetLease_requested)
  then have "getResponse lib t now srv req k = Some (set_subnet k (srv_leases srv, sn) srv, None, None, Some ErrNilLease)"
    by (simp add: getResponse_def assms(3))
  moreover have "lib_MessageType lib (req_DHCPv4 req) = MessageTypeDiscover \<or> lib_MessageType lib (req_DHCPv4 req) = MessageTypeRequest"
    using assms(4) by (auto simp: reply_type_def split: MessageType.splits)
  ultimately show ?thesis
    using assms(1-3) by (auto simp: GetResponse_def Let_def accepts_id_def isAddressZero_def fun_upd_idem)
qed

text \<open>A client known to \<open>full_subnet\<close> that asks for another address.\<close>

definition full_server :: Server where
  "full_server = empty_server\<lparr>srv_subnets := [''10.1.1.0/24'' \<mapsto> full_subnet], srv_leases := full_heap\<rparr>"

lemma full_subnet_of:
  "getSubnet (\<lambda>_. [''10.1.1.0/24'']) full_server (sample_request n opts) = Some ''10.1.1.0/24''"
  using sample_contains(1)
  by (simp add: getSubnet_def getSubnetForIp_def Let_def sample_request_def full_server_def empty_server_def
      Subnet_Contains_def full_subnet_def)


theorem conflicting_request_is_refused_witness:
  "\<exists>srv'. GetResponse sample_lib (\<lambda>_. [''10.1.1.0/24'']) 1 1 full_server (sample_request 1 [53 \<mapsto> [3], 50 \<mapsto> octets 134744072]) =
     Some (Returns (srv', Inl ErrNilLease))"
proof -
  have "\<not> isAddressZero (Some (octets 134744072))" "\<not> IP_Equal (Some (octets 134744072)) (ip_of 167837953)"
    by (simp_all add: isAddressZero_def IP_Equal_To4 IPv4zero_ip_of octets_inj)
  moreover have "srv_subnets full_server ''10.1.1.0/24'' = Some full_subnet" "srv_leases full_server = full_heap"
    by (simp_all add: full_server_def)
  ultimately show ?thesis
    using conflicting_request_is_refused [where lib = sample_lib and srv = full_server and t = 1 and now = 1 and
        req = "sample_request 1 [53 \<mapsto> [3], 50 \<mapsto> octets 134744072]" and a = "Some (octets 134744072)" and sn = full_subnet,
        OF _ full_subnet_of]
    by (auto simp: accepts_id_def isAddressZero_def reply_type_def code_message_type_def full_cache full_lease)
qed

section \<open>Subnets\<close>

lemma AddSubnet_cases:
  assumes "server_typed srv" "visits ordS (srv_subnets srv)"
  shows "(case InitializeSubnet sn (in_order ordL (srv_localIpAddresses srv)) of
      Inl e \<Rightarrow> Server_AddSubnet ordL ordS srv sn = (srv, Some e)
    | Inr s \<Rightarrow>
        if srv_subnets srv (sn_Subnet sn) \<noteq> None
        then Server_AddSubnet ordL ordS srv sn = (srv, Some (ErrOverlap (sn_Subnet sn) (sn_Subnet sn)))
        else Server_AddSubnet ordL ordS srv sn = (srv\<lparr>srv_subnets := (srv_subnets srv)(sn_Subnet sn \<mapsto> s)\<rparr>, None))"
proof (cases "InitializeSubnet sn (in_order ordL (srv_localIpAddresses srv))")
  case (Inr s)
  have s: "sn_Subnet s = sn_Subnet sn"
    using Inr by (rule InitializeSubnet_Inr) simp
  have key: "isOverlap (the (srv_subnets srv k)) s \<longleftrightarrow> k = sn_Subnet sn" if "srv_subnets srv k = Some x" for k x
    using server_typedD(1) [OF assms(1) that] that by (auto simp: isOverlap_def s)
  show ?thesis
  proof (cases "find (\<lambda>k. isOverlap (the (srv_subnets srv k)) s) ordS")
    case None
    have "srv_subnets srv (sn_Subnet sn) = None"
      using None [unfolded find_visited_None [OF assms(2)]] key by (metis not_Some_eq)
    then show ?thesis by (simp add: Server_AddSubnet_def Inr None s)
  next
    case (Some k)
    from find_visited [OF assms(2) Some] obtain x where x: "srv_subnets srv k = Some x" "k = sn_Subnet sn"
      using key by blast
    then show ?thesis
      using server_typedD(1) [OF assms(1) x(1)] by (simp add: Server_AddSubnet_def Inr Some s)
  qed
qed (simp add: Server_AddSubnet_def)

text \<open>C23: a subnet is added exactly when it initialises and no subnet with the same text is served;
  otherwise nothing changes. The subnets already served and their leases are not touched.\<close>

theorem AddSubnet_outcome:
  assumes "server_typed srv" "visits ordS (srv_subnets srv)"
  shows "(case InitializeSubnet sn (in_order ordL (srv_localIpAddresses srv)) of
      Inl e \<Rightarrow> Server_AddSubnet ordL ordS srv sn = (srv, Some e)
    | Inr s \<Rightarrow>
        if srv_subnets srv (sn_Subnet sn) \<noteq> None
        then Server_AddSubnet ordL ordS srv sn = (srv, Some (ErrOverlap (sn_Subnet sn) (sn_Subnet sn)))
        else Server_AddSubnet ordL ordS srv sn = (srv\<lparr>srv_subnets := (srv_subnets srv)(sn_Subnet sn \<mapsto> s)\<rparr>, None))"
  by (rule AddSubnet_cases [OF assms])

theorem AddSubnet_outcome_witness:
  "Server_AddSubnet [''eth0''] [''10.1.1.0/24''] sample_server spec_subnet =
     (sample_server, Some (ErrOverlap ''10.1.1.0/24'' ''10.1.1.0/24''))"
proof -
  have "in_order [''eth0''] (srv_localIpAddresses sample_server) = [[ip_of 167837953]]"
    by (simp add: in_order_def sample_server_def empty_server_def)
  moreover have "InitializeSubnet spec_subnet [[ip_of 167837953]] = Inr (sample_subnet\<lparr>sn_serverIPAddress := ip_of 167837953\<rparr>)"
    using sample_contains(1)
    by (simp add: InitializeSubnet_def spec_subnet_def sample_subnet_def sample_texts sample_mask
      pick_server_address_def defaultLeaseTime_def)
  ultimately show ?thesis
    using AddSubnet_outcome [OF server_inv_typed [OF sample_server_inv] sample_visits, of "[''eth0'']" spec_subnet]
    by (simp add: sample_server_def spec_subnet_def sample_subnet_def)
qed

definition networks_disjoint :: "Server \<Rightarrow> bool" where
  "networks_disjoint srv \<longleftrightarrow>
     (\<forall>j j' s s' ip. srv_subnets srv j = Some s \<longrightarrow> srv_subnets srv j' = Some s' \<longrightarrow>
        Subnet_Contains s ip \<longrightarrow> Subnet_Contains s' ip \<longrightarrow> j = j')"

lemma getSubnetForIp_Some:
  "visits ord (srv_subnets srv) \<Longrightarrow> getSubnetForIp ord srv ip = Some k \<Longrightarrow>
   \<exists>sn. srv_subnets srv k = Some sn \<and> Subnet_Contains sn ip"
  unfolding getSubnetForIp_def using find_visited by fastforce

lemma getSubnetForIp_iff:
  assumes "visits ord (srv_subnets srv)" "networks_disjoint srv"
  shows "getSubnetForIp ord srv ip = Some k \<longleftrightarrow> (\<exists>sn. srv_subnets srv k = Some sn \<and> Subnet_Contains sn ip)"
proof
  assume k: "\<exists>sn. srv_subnets srv k = Some sn \<and> Subnet_Contains sn ip"
  then have "getSubnetForIp ord srv ip \<noteq> None"
    unfolding getSubnetForIp_def find_visited_None [OF assms(1)] by force
  then obtain j where j: "getSubnetForIp ord srv ip = Some j" by blast
  with getSubnetForIp_Some [OF assms(1) j] k have "j = k"
    using assms(2) by (auto simp: networks_disjoint_def)
  with j show "getSubnetForIp ord srv ip = Some k" by simp
qed (rule getSubnetForIp_Some [OF assms(1)])

text \<open>When the served networks do not overlap, the subnet that is found for an address is the one
  that contains it, in whatever order the map of subnets is visited; an address outside
  all of them finds none.\<close>

lemma subnet_of_address:
  assumes "visits ord (srv_subnets srv)" "networks_disjoint srv"
  shows "getSubnetForIp ord srv ip = Some k \<longleftrightarrow> (\<exists>sn. srv_subnets srv k = Some sn \<and> Subnet_Contains sn ip)"
  by (rule getSubnetForIp_iff [OF assms])

lemma sample_disjoint: "networks_disjoint sample_server"
  by (simp add: networks_disjoint_def sample_server_def)

theorem subnet_of_address_witness:
  "getSubnetForIp [''10.1.1.0/24''] sample_server (ip_of 167837953) = Some ''10.1.1.0/24''"
proof -
  have "Subnet_Contains (sample_subnet\<lparr>sn_serverIPAddress := ip_of 167837953\<rparr>) (ip_of 167837953)"
    using sample_contains(1) by (simp add: Subnet_Contains_def)
  then show ?thesis
    by (subst subnet_of_address [OF sample_visits sample_disjoint]) (simp add: sample_server_def)
qed

text \<open>C24: overlap of networks is not checked, only equality of their texts: a subnet that initialises
  and has a text of its own is accepted beside any subnet it overlaps with. Both are then
  served, and for every address they share, which of the two is found depends on the order
  in which the map is visited.\<close>

theorem overlapping_subnets_accepted:
  assumes "server_typed srv" "visits ordS (srv_subnets srv)"
    and new: "InitializeSubnet sn (in_order ordL (srv_localIpAddresses srv)) = Inr s" "srv_subnets srv (sn_Subnet sn) = None"
    and old: "srv_subnets srv k = Some s0"
  shows "\<exists>srv'. Server_AddSubnet ordL ordS srv sn = (srv', None) \<and>
    srv_subnets srv' k = Some s0 \<and> srv_subnets srv' (sn_Subnet sn) = Some s \<and>
    (\<forall>ip. Subnet_Contains s0 ip \<and> Subnet_Contains s ip \<longrightarrow>
       (\<exists>ord. visits ord (srv_subnets srv') \<and> getSubnetForIp ord srv' ip = Some k) \<and>
       (\<exists>ord. visits ord (srv_subnets srv') \<and> getSubnetForIp ord srv' ip = Some (sn_Subnet sn)))"
proof -
  let ?srv = "srv\<lparr>srv_subnets := (srv_subnets srv)(sn_Subnet sn \<mapsto> s)\<rparr>"
  have add: "Server_AddSubnet ordL ordS srv sn = (?srv, None)"
    using AddSubnet_cases [OF assms(1,2), where sn = sn and ordL = ordL] new by simp
  have k: "k \<noteq> sn_Subnet sn" "k \<in> set ordS" using new(2) old assms(2) by (auto simp: visits_def)
  have fresh: "sn_Subnet sn \<notin> set ordS" using new(2) assms(2) by (auto simp: visits_def)
  have v: "visits (k # sn_Subnet sn # remove1 k ordS) (srv_subnets ?srv)" "visits (sn_Subnet sn # ordS) (srv_subnets ?srv)"
    using assms(2) k fresh by (auto simp: visits_def set_remove1_eq)
  have "(\<exists>ord. visits ord (srv_subnets ?srv) \<and> getSubnetForIp ord ?srv ip = Some k) \<and>
      (\<exists>ord. visits ord (srv_subnets ?srv) \<and> getSubnetForIp ord ?srv ip = Some (sn_Subnet sn))"
    if "Subnet_Contains s0 ip" "Subnet_Contains s ip" for ip
    using v that k(1) old
    by (intro conjI exI [of _ "k # sn_Subnet sn # remove1 k ordS"] exI [of _ "sn_Subnet sn # ordS"])
      (simp_all add: getSubnetForIp_def)
  with add k(1) old show ?thesis by (intro exI [of _ ?srv]) simp
qed

theorem overlapping_subnets_accepted_witness:
  "\<exists>srv ord ord'. Server_AddSubnet [''eth0''] [''10.1.1.0/24''] sample_server (spec_subnet\<lparr>sn_Subnet := ''10.1.1.0/25''\<rparr>) = (srv, None) \<and>
    getSubnetForIp ord srv (ip_of 167837953) = Some ''10.1.1.0/24'' \<and>
    getSubnetForIp ord' srv (ip_of 167837953) = Some ''10.1.1.0/25''"
proof -
  let ?new = "spec_subnet\<lparr>sn_Subnet := ''10.1.1.0/25''\<rparr>"
  have p: "ParseInt ''25'' 8 = Inr 25" by code_simp
  have "\<exists>s. InitializeSubnet ?new [[ip_of 167837953]] = Inr s"
    by (simp add: InitializeSubnet_def spec_subnet_def sample_subnet_def sample_texts p Let_def)
  then obtain s where s: "InitializeSubnet ?new [[ip_of 167837953]] = Inr s" by blast
  have key: "sn_Subnet s = ''10.1.1.0/25''" using s by (rule InitializeSubnet_Inr) simp
  have net: "sn_ipNet s = \<lparr>IPNet_IP = ip_of 167837952, IPNet_Mask = CIDRMask (int 25) 32\<rparr>"
    using s by (rule InitializeSubnet_Inr) (auto simp: p sample_texts)
  have c: "Subnet_Contains s (ip_of 167837953)"
    unfolding Subnet_Contains_def net using contains_ip_of [of 25 167837952 167837953]
    by (simp add: drop_bit_eq_div)
  have c': "Subnet_Contains (sample_subnet\<lparr>sn_serverIPAddress := ip_of 167837953\<rparr>) (ip_of 167837953)"
    using sample_contains(1) by (simp add: Subnet_Contains_def)
  have local: "in_order [''eth0''] (srv_localIpAddresses sample_server) = [[ip_of 167837953]]"
    by (simp add: in_order_def sample_server_def empty_server_def)
  have old: "srv_subnets sample_server ''10.1.1.0/24'' = Some (sample_subnet\<lparr>sn_serverIPAddress := ip_of 167837953\<rparr>)"
    and free: "srv_subnets sample_server (sn_Subnet ?new) = None"
    by (simp_all add: sample_server_def)
  from overlapping_subnets_accepted [OF server_inv_typed [OF sample_server_inv] sample_visits s [folded local] free old]
  obtain srv where "Server_AddSubnet [''eth0''] [''10.1.1.0/24''] sample_server ?new = (srv, None)"
    and "\<forall>ip. Subnet_Contains (sample_subnet\<lparr>sn_serverIPAddress := ip_of 167837953\<rparr>) ip \<and> Subnet_Contains s ip \<longrightarrow>
       (\<exists>ord. visits ord (srv_subnets srv) \<and> getSubnetForIp ord srv ip = Some ''10.1.1.0/24'') \<and>
       (\<exists>ord. visits ord (srv_subnets srv) \<and> getSubnetForIp ord srv ip = Some (sn_Subnet ?new))" by blast
  with c c' show ?thesis by fastforce
qed

section \<open>Hosts and listeners\<close>

text \<open>A network given by a dotted address and a prefix length up to 32.\<close>

definition ipv4_network :: "Subnet \<Rightarrow> bool" where
  "ipv4_network s \<longleftrightarrow> (\<exists>n p. p \<le> 32 \<and> sn_ipNet s = \<lparr>IPNet_IP = ip_of n, IPNet_Mask = CIDRMask (int p) 32\<rparr>)"

lemma ipv4_network_nil: "ipv4_network s \<Longrightarrow> \<not> IPNet_Contains (sn_ipNet s) None"
  using contains_needs_ipv4 [where ip = None] by (auto simp: ipv4_network_def To4_def ip_bytes_def)

text \<open>A host without an address cannot be added: no network contains the nil address, so the
  server returns an error and stays as it is. The host does not get an address of the pool.\<close>

lemma host_without_address_rejected:
  assumes "visits ord (srv_subnets srv)" "host_IP x = None"
    and "\<forall>k sn. srv_subnets srv k = Some sn \<longrightarrow> ipv4_network sn"
  shows "Server_AddHost ord srv x = (srv, Some (ErrNoSubnetForHost None (host_MAC x)))"
proof -
  have "find (\<lambda>k. IPNet_Contains (sn_ipNet (the (srv_subnets srv k))) (host_IP x)) ord = None"
    unfolding find_visited_None [OF assms(1)] using assms(2,3) ipv4_network_nil by auto
  then show ?thesis using assms(2) by (simp add: Server_AddHost_def)
qed

lemma sample_ipv4_network: "ipv4_network (sample_subnet\<lparr>sn_serverIPAddress := a\<rparr>)"
  unfolding ipv4_network_def
  by (rule exI [of _ 167837952], rule exI [of _ 24]) (simp add: sample_subnet_def sample_mask)

theorem host_without_address_rejected_witness:
  "Server_AddHost [''10.1.1.0/24''] sample_server (sample_host\<lparr>host_IP := None\<rparr>) =
     (sample_server, Some (ErrNoSubnetForHost None ''00:00:00:00:00:09''))"
proof -
  have "\<forall>k sn. srv_subnets sample_server k = Some sn \<longrightarrow> ipv4_network sn"
    by (simp add: sample_server_def sample_ipv4_network)
  from host_without_address_rejected [OF sample_visits _ this, of "sample_host\<lparr>host_IP := None\<rparr>"]
  show ?thesis by (simp add: sample_host_def)
qed

text \<open>A listener with a new name opens one socket and is registered under its name; a second one
  with that name is rejected before a socket is opened; deleting it closes exactly its
  socket and restores the listeners. A socket that fails to open leaves the server as it was.\<close>

lemma listener_lifecycle:
  assumes "srv_listeners srv (listen_Name l) = None" "listen_Name l' = listen_Name l"
  shows "case srv_socketFactory srv (listen_Addr l) (listen_Interface l) of
      Inl e \<Rightarrow> Server_AddListen srv l = (srv, Some (ErrSocket e))
    | Inr s \<Rightarrow> \<exists>srv1. Server_AddListen srv l = (srv1, None) \<and>
        map_option rp_socket (srv_listeners srv1 (listen_Name l)) = Some s \<and>
        Server_AddListen srv1 l' = (srv1, Some (ErrListenExists (listen_Name l))) \<and>
        Server_DeleteListen srv1 (listen_Name l) = (srv\<lparr>srv_closed := srv_closed srv @ [s]\<rparr>, None)"
  using assms
  by (simp add: Server_AddListen_def Server_DeleteListen_def NewRequestProcessor_def fun_upd_idem split: sum.split)

theorem listener_lifecycle_witness:
  "\<exists>srv1. Server_AddListen sample_server \<lparr>listen_Name = ''a'', listen_Interface = ''eth0'', listen_Addr = []\<rparr> = (srv1, None) \<and>
     Server_DeleteListen srv1 ''a'' = (sample_server\<lparr>srv_closed := [7]\<rparr>, None)"
  using listener_lifecycle [of sample_server "\<lparr>listen_Name = ''a'', listen_Interface = ''eth0'', listen_Addr = []\<rparr>"
      "\<lparr>listen_Name = ''a'', listen_Interface = ''eth0'', listen_Addr = []\<rparr>"]
  by (auto simp: sample_server_def empty_server_def sample_udp_def)

section \<open>Discover, then request\<close>

text \<open>The subnet of a client does not change with the state of the caches.\<close>

definition same_networks :: "Server \<Rightarrow> Server \<Rightarrow> bool" where
  "same_networks srv srv' \<longleftrightarrow> srv_localIpAddresses srv' = srv_localIpAddresses srv \<and>
     (\<forall>k. map_option sn_ipNet (srv_subnets srv' k) = map_option sn_ipNet (srv_subnets srv k))"

lemma getSubnet_stable:
  assumes "networks_disjoint srv" "same_networks srv srv'"
    and "\<forall>ip. visits (ords ip) (srv_subnets srv)" "\<forall>ip. visits (ords' ip) (srv_subnets srv')"
    and "GatewayIPAddr (req_DHCPv4 req') = GatewayIPAddr (req_DHCPv4 req)" "req_InterfaceName req' = req_InterfaceName req"
  shows "getSubnet ords' srv' req' = getSubnet ords srv req"
proof -
  have c: "(\<exists>sn. srv_subnets srv' k = Some sn \<and> Subnet_Contains sn ip) \<longleftrightarrow>
      (\<exists>sn. srv_subnets srv k = Some sn \<and> Subnet_Contains sn ip)" for k ip
  proof -
    have "map_option sn_ipNet (srv_subnets srv' k) = map_option sn_ipNet (srv_subnets srv k)"
      using assms(2) by (simp add: same_networks_def)
    then show ?thesis
      by (cases "srv_subnets srv k"; cases "srv_subnets srv' k") (simp_all add: Subnet_Contains_def)
  qed
  have d: "networks_disjoint srv'"
    using assms(1) c unfolding networks_disjoint_def by metis
  have eq: "getSubnetForIp (ords' ip) srv' ip = getSubnetForIp (ords ip) srv ip" for ip
    using getSubnetForIp_iff [OF spec [OF assms(3)] assms(1), of ip ip]
      getSubnetForIp_iff [OF spec [OF assms(4)] d, of ip ip] c [of _ ip]
    by (intro option_eqI) simp
  show ?thesis
    using assms(2,5,6) unfolding getSubnet_def Let_def eq by (simp add: same_networks_def)
qed

text \<open>A client that asked for no address and was answered is in the cache, unless the pool was exhausted.\<close>

lemma answer_cached:
  assumes "answer lib t now req (h, s) (h', s') (Some l)" "cache_ok (h, s)"
    and "isAddressZero (lib_RequestedIPAddress lib req)" "sn_leaseCache s (client_mac req) \<noteq> None \<or> \<not> pool_full s"
  shows "sn_leaseCache s' (client_mac req) = Some l"
  using assms(1)
proof cases
  case (allocated ip)
  let ?s = "(advance_pool s)\<lparr>sn_currentIP := ip\<rparr>"
  have "cache_ok (h, ?s)"
    using assms(2) cache_ok_cong(1) [of ?s s h] by (simp add: op_simps)
  from put_lease_cache [OF this, of "pool_lease (advance_pool s) now (client_mac req) ip"] allocated(1,2)
  show ?thesis by (simp add: prod_eq_iff)
qed (use assms(3,4) in \<open>auto simp: pool_full_def\<close>)

lemma same_networks_set:
  "srv_subnets srv k = Some s \<Longrightarrow> sn_ipNet s' = sn_ipNet s \<Longrightarrow> same_networks srv (set_subnet k (h, s') srv)"
  by (simp add: same_networks_def)

text \<open>
  The second message of a client on the state the first left: the same client over the
  same path, asking for the address it was offered.
\<close>

definition follows_up :: "dhcpv4_lib \<Rightarrow> Request \<Rightarrow> net_IP \<Rightarrow> Request \<Rightarrow> bool" where
  "follows_up lib req ip req' \<longleftrightarrow>
     client_mac (req_DHCPv4 req') = client_mac (req_DHCPv4 req) \<and>
     GatewayIPAddr (req_DHCPv4 req') = GatewayIPAddr (req_DHCPv4 req) \<and>
     req_InterfaceName req' = req_InterfaceName req \<and>
     lib_MessageType lib (req_DHCPv4 req') = MessageTypeRequest \<and>
     IP_Equal (lib_RequestedIPAddress lib (req_DHCPv4 req')) ip"

text \<open>C1: the handshake of discover and request. When the networks do not overlap, a client that
  asks for no particular address and is offered one, from its lease or from the pool, and
  then requests that address, is acknowledged: it gets the same lease with the same
  address, and the subnet binds the client to it.\<close>

theorem offered_address_is_acknowledged:
  assumes lib: "options_only lib" "type_read_back lib"
    and srv: "server_inv srv" "networks_disjoint srv" "\<forall>ip. visits (ords ip) (srv_subnets srv)"
    and offer: "isAddressZero (lib_RequestedIPAddress lib (req_DHCPv4 req))"
      "GetResponse lib ords t now srv req = Some (Returns (srv', Inr r))"
    and pool: "getSubnet ords srv req = Some k" "srv_subnets srv k = Some sn"
      "sn_leaseCache sn (client_mac (req_DHCPv4 req)) \<noteq> None \<or> \<not> pool_full sn"
    and req': "follows_up lib req (YourIPAddr (resp_Response r)) req'" "accepts_id lib srv' (req_DHCPv4 req')"
      "\<exists>base. lib_NewReplyFromRequest lib (req_DHCPv4 req') = Inr (Some base)"
      "\<forall>ip. visits (ords' ip) (srv_subnets srv')"
  shows "\<exists>srv'' r'. GetResponse lib ords' t' now' srv' req' = Some (Returns (srv'', Inr r')) \<and>
    lib_MessageType lib (resp_Response r') = MessageTypeAck \<and>
    resp_Lease r' = resp_Lease r \<and> YourIPAddr (resp_Response r') = YourIPAddr (resp_Response r) \<and>
    srv_bindings srv'' k (client_mac (req_DHCPv4 req)) = Some (IP_String (YourIPAddr (resp_Response r)))"
  using offer(2)
proof (rule GetResponse_success)
  fix k' h s l base
  let ?mac = "client_mac (req_DHCPv4 req)"
  assume k': "getSubnet ords srv req = Some k'"
    and g: "GetLeaseForRequest lib t now (srv_leases srv) (the (srv_subnets srv k')) (req_DHCPv4 req) = Some (h, s, Some l)"
    and f: "fill_response lib (lib_MessageType lib (req_DHCPv4 req)) (sn_serverIPAddress s) (stamped s (h ! l)) base =
       Inr (Some (resp_Response r))"
    and r: "resp_Lease r = Some l" and srv'_eq: "srv' = set_subnet k' (h[l := stamped s (h ! l)], s) srv"
  note sn = server_invD [OF srv(1) pool(2)]
  from k' pool(1) have kk: "k' = k" by simp
  have ans: "answer lib t now (req_DHCPv4 req) (srv_leases srv, sn) (h, s) (Some l)"
    using GetLease_answerE [OF sn(3)] g pool(2) kk by simp
  have l: "l < length h" by (rule answer_lease_exists [OF ans cache_ok_refs [OF sn(4)]])
  have cached: "sn_leaseCache s ?mac = Some l"
    by (rule answer_cached [OF ans sn(4) offer(1) pool(3)])
  have ip: "YourIPAddr (resp_Response r) = lease_IP (h ! l)"
    and opts: "\<forall>x \<in> set (lease_Options (h ! l)). opt_Type x = ''string''"
    using fill_response_success(2,6) [OF lib f] by (simp_all add: stamped_def)
  have sn': "srv_subnets srv' k = Some s" and h': "srv_leases srv' = h[l := stamped s (h ! l)]"
    by (simp_all add: srv'_eq kk)
  have net: "same_networks srv srv'"
    unfolding srv'_eq kk using answer_config [OF ans] same_config_fields(2) [of sn s]
    by (intro same_networks_set [OF pool(2)]) simp
  have k2: "getSubnet ords' srv' req' = Some k"
    using getSubnet_stable [OF srv(2) net srv(3) req'(4)] req'(1) pool(1) by (simp add: follows_up_def)
  have inv': "server_inv srv'" by (rule request_inv(1) [OF srv(1,3) offer(2)])
  have g': "GetLeaseForRequest lib t' now' (srv_leases srv') (the (srv_subnets srv' k)) (req_DHCPv4 req') =
      Some (srv_leases srv', s, Some l)"
    using cached req'(1) l by (simp add: GetLease_known sn' follows_up_def ip h' stamped_def)
  from req'(3) obtain base' where base': "lib_NewReplyFromRequest lib (req_DHCPv4 req') = Inr (Some base')" by blast
  have mt: "lib_MessageType lib (req_DHCPv4 req') = MessageTypeRequest" using req'(1) by (simp add: follows_up_def)
  obtain srv'' r' where ack: "GetResponse lib ords' t' now' srv' req' = Some (Returns (srv'', Inr r'))" "resp_Lease r' = Some l"
    using GetResponse_succeeds [OF req'(2) k2 _ g' base'] opts l mt by (auto simp: reply_type_def h' stamped_def)
  from ack(1) have fill: "YourIPAddr (resp_Response r') = lease_IP (h ! l)"
    "lib_MessageType lib (resp_Response r') = MessageTypeAck"
    by (rule GetResponse_success; use k2 g' l mt fill_response_success(1,2) [OF lib] in
      \<open>fastforce simp: h' stamped_def reply_type_def\<close>)+
  from request_inv(2) [OF inv' req'(4) ack(1)]
  have "srv_bindings srv'' k ?mac = Some (IP_String (lease_IP (h ! l)))"
    using cached l by (simp add: srv_bindings_def bindings_def sn' h' stamped_def)
  with ack fill ip r show ?thesis by auto
qed

theorem offered_address_is_acknowledged_witness:
  "\<exists>srv' srv'' r'. GetResponse sample_lib (\<lambda>_. [''10.1.1.0/24'']) 2 2 srv' (sample_request 1 [53 \<mapsto> [3], 50 \<mapsto> octets 167837953]) =
     Some (Returns (srv'', Inr r')) \<and> YourIPAddr (resp_Response r') = ip_of 167837953 \<and>
   srv_bindings srv'' ''10.1.1.0/24'' (HardwareAddr_String [0, 0, 0, 0, 0, 1]) = Some (IPv4_String 167837953)"
proof -
  let ?req = "sample_request 1 [53 \<mapsto> [1]]" and ?req' = "sample_request 1 [53 \<mapsto> [3], 50 \<mapsto> octets 167837953]"
  obtain srv' r where g: "GetResponse sample_lib (\<lambda>_. [''10.1.1.0/24'']) 1 1 sample_server ?req = Some (Returns (srv', Inr r))"
    "YourIPAddr (resp_Response r) = ip_of 167837953" "visits [''10.1.1.0/24''] (srv_subnets srv')"
    using sample_offer by blast
  have sn: "srv_subnets sample_server ''10.1.1.0/24'' = Some (sample_subnet\<lparr>sn_serverIPAddress := ip_of 167837953\<rparr>)"
    by (simp add: sample_server_def)
  have free: "\<not> pool_full (sample_subnet\<lparr>sn_serverIPAddress := ip_of 167837953\<rparr>)"
    unfolding pool_full_def not_all
    by (rule exI [of _ 167837954]) (simp add: in_ring_def ring_lo_def sample_subnet_def)
  have follow: "follows_up sample_lib ?req (YourIPAddr (resp_Response r)) ?req'"
    unfolding g(2) by (simp add: follows_up_def sample_request_def code_message_type_def IP_Equal_To4)
  have "\<exists>base. lib_NewReplyFromRequest sample_lib (req_DHCPv4 ?req') = Inr (Some base)" by (simp add: sample_lib_def)
  from offered_address_is_acknowledged [OF sample_lib_laws sample_server_inv sample_disjoint _ _ g(1) sample_subnet_of sn
      _ follow _ this, of "\<lambda>_. [''10.1.1.0/24'']" 2 2]
  show ?thesis
    using sample_visits g(2,3) free by (auto simp: isAddressZero_def accepts_id_def)
qed

section \<open>A client is bound\<close>

text \<open>The new server after a subnet was added and a client of it was offered an address.\<close>

lemma sample_bound:
  "\<exists>srv r. GetResponse sample_lib (\<lambda>_. [''10.1.1.0/24'']) 1 1 sample_server (sample_request 1 [53 \<mapsto> [1]]) = Some (Returns (srv, Inr r)) \<and>
     (careful_step sample_lib)\<^sup>*\<^sup>* empty_server srv \<and> srv_subnets srv ''10.1.1.0/24'' \<noteq> None \<and>
     srv_bindings srv ''10.1.1.0/24'' (HardwareAddr_String [0, 0, 0, 0, 0, 1]) = Some (IPv4_String 167837953)"
proof -
  let ?req = "sample_request 1 [53 \<mapsto> [1]]"
  obtain srv r where g: "GetResponse sample_lib (\<lambda>_. [''10.1.1.0/24'']) 1 1 sample_server ?req = Some (Returns (srv, Inr r))"
    "YourIPAddr (resp_Response r) = ip_of 167837953"
    using sample_offer by blast
  have v: "\<forall>ip. visits ((\<lambda>_. [''10.1.1.0/24'']) ip) (srv_subnets sample_server)" using sample_visits by simp
  have "careful_step sample_lib sample_server srv"
    by (rule careful_stepI [OF server_step.request [OF v g(1)]]) (simp add: admitted_def)
  then have reach: "(careful_step sample_lib)\<^sup>*\<^sup>* empty_server srv"
    using sample_reachable by (meson converse_rtranclp_into_rtranclp r_into_rtranclp)
  define sn where "sn = sample_subnet\<lparr>sn_serverIPAddress := ip_of 167837953\<rparr>"
  have sn: "srv_subnets sample_server ''10.1.1.0/24'' = Some sn" by (simp add: sample_server_def sn_def)
  note ok = server_invD [OF sample_server_inv sn]
  have free: "\<not> pool_full sn"
    unfolding pool_full_def not_all
    by (rule exI [of _ 167837954]) (simp add: in_ring_def ring_lo_def sample_subnet_def sn_def)
  have "srv_subnets srv ''10.1.1.0/24'' \<noteq> None \<and>
      srv_bindings srv ''10.1.1.0/24'' (HardwareAddr_String [0, 0, 0, 0, 0, 1]) = Some (IPv4_String 167837953)"
    using g(1)
  proof (rule GetResponse_success)
    fix k h s l base
    assume "getSubnet (\<lambda>_. [''10.1.1.0/24'']) sample_server ?req = Some k"
      and q: "GetLeaseForRequest sample_lib 1 1 (srv_leases sample_server) (the (srv_subnets sample_server k)) (req_DHCPv4 ?req) = Some (h, s, Some l)"
      and f: "fill_response sample_lib (lib_MessageType sample_lib (req_DHCPv4 ?req)) (sn_serverIPAddress s) (stamped s (h ! l)) base = Inr (Some (resp_Response r))"
      and srv: "srv = set_subnet k (h[l := stamped s (h ! l)], s) sample_server"
    then have k: "k = ''10.1.1.0/24''" by (simp add: sample_subnet_of)
    have ans: "answer sample_lib 1 1 (req_DHCPv4 ?req) (srv_leases sample_server, sn) (h, s) (Some l)"
      by (rule GetLease_answerE [OF ok(3)]) (use q [unfolded k sn option.sel] in assumption)
    have l: "l < length h" by (rule answer_lease_exists [OF ans cache_ok_refs [OF ok(4)]])
    have "sn_leaseCache s (client_mac (req_DHCPv4 ?req)) = Some l"
      by (rule answer_cached [OF ans ok(4)]) (use free in \<open>simp_all add: isAddressZero_def\<close>)
    moreover have "lease_IP (h ! l) = ip_of 167837953"
      using fill_response_success(2) [OF sample_lib_laws f] g(2) by (simp add: stamped_def)
    ultimately show ?thesis
      using l by (simp add: srv k srv_bindings_def bindings_def stamped_def)
  qed
  with g(1) reach show ?thesis by blast
qed

theorem reachable_no_double_booking_witness:
  "\<exists>srv. (careful_step sample_lib)\<^sup>*\<^sup>* empty_server srv \<and>
     srv_bindings srv ''10.1.1.0/24'' (HardwareAddr_String [0, 0, 0, 0, 0, 1]) = Some (IPv4_String 167837953) \<and>
     (\<forall>m. srv_bindings srv ''10.1.1.0/24'' m = Some (IPv4_String 167837953) \<longrightarrow> m = HardwareAddr_String [0, 0, 0, 0, 0, 1])"
proof -
  obtain srv sn where s: "(careful_step sample_lib)\<^sup>*\<^sup>* empty_server srv" "srv_subnets srv ''10.1.1.0/24'' = Some sn"
    "srv_bindings srv ''10.1.1.0/24'' (HardwareAddr_String [0, 0, 0, 0, 0, 1]) = Some (IPv4_String 167837953)"
    using sample_bound by blast
  from reachable_no_double_booking [OF sample_NewServer s(1,2)] s show ?thesis
    by (auto simp: srv_bindings_def exclusive_def)
qed

theorem request_binds_only_its_client_witness:
  "\<exists>srv ip. srv_bindings srv ''10.1.1.0/24'' =
     (srv_bindings sample_server ''10.1.1.0/24'')(HardwareAddr_String [0, 0, 0, 0, 0, 1] \<mapsto> IPv4_String ip)"
proof -
  obtain srv r where g: "GetResponse sample_lib (\<lambda>_. [''10.1.1.0/24'']) 1 1 sample_server (sample_request 1 [53 \<mapsto> [1]]) = Some (Returns (srv, Inr r))"
    "srv_bindings srv ''10.1.1.0/24'' (HardwareAddr_String [0, 0, 0, 0, 0, 1]) = Some (IPv4_String 167837953)"
    using sample_bound by blast
  have v: "\<forall>ip. visits ((\<lambda>_. [''10.1.1.0/24'']) ip) (srv_subnets sample_server)" using sample_visits by simp
  have "srv_bindings sample_server ''10.1.1.0/24'' = Map.empty"
    by (auto simp: srv_bindings_def sample_server_def bindings_def sample_subnet_def)
  with g(2) have "srv_bindings srv \<noteq> srv_bindings sample_server" by auto
  with request_binds_only_its_client [OF sample_NewServer r_into_rtranclp [of "careful_step sample_lib", OF sample_reachable] v g(1)]
  show ?thesis by (auto simp: sample_subnet_of) (metis fun_upd_same)
qed

section \<open>Callers that do not respect their obligations\<close>

text \<open>Where a host goes when exactly one subnet contains its address.\<close>

definition only_subnet :: "Server \<Rightarrow> SubnetAddrPrefix \<Rightarrow> net_IP \<Rightarrow> bool" where
  "only_subnet srv k ip \<longleftrightarrow> (\<forall>j s. srv_subnets srv j = Some s \<longrightarrow> (IPNet_Contains (sn_ipNet s) ip \<longleftrightarrow> j = k))"

lemma find_only_subnet:
  assumes "visits ord (srv_subnets srv)" "srv_subnets srv k = Some s" "only_subnet srv k ip"
  shows "find (\<lambda>k. IPNet_Contains (sn_ipNet (the (srv_subnets srv k))) ip) ord = Some k"
proof -
  let ?P = "\<lambda>k. IPNet_Contains (sn_ipNet (the (srv_subnets srv k))) ip"
  have "find ?P ord \<noteq> None" unfolding find_visited_None [OF assms(1)] using assms(2,3) by (force simp: only_subnet_def)
  then obtain j where j: "find ?P ord = Some j" by blast
  with find_visited [OF assms(1) j] assms(3) have "j = k" by (fastforce simp: only_subnet_def)
  with j show ?thesis by simp
qed

lemma AddHost_at:
  "visits ord (srv_subnets srv) \<Longrightarrow> srv_subnets srv k = Some s \<Longrightarrow> only_subnet srv k (host_IP x) \<Longrightarrow>
   Server_AddHost ord srv x = (set_subnet k (Subnet_AddHost (srv_leases srv) s x) srv, None)"
  by (simp add: Server_AddHost_def find_only_subnet)

lemma DeleteHost_at:
  "visits ord (srv_subnets srv) \<Longrightarrow> srv_subnets srv k = Some s \<Longrightarrow> only_subnet srv k (host_IP x) \<Longrightarrow>
   Server_DeleteHost ord srv x = (set_subnet k (srv_leases srv, Subnet_DeleteHost s x) srv, None)"
  by (simp add: Server_DeleteHost_def find_only_subnet)

lemma only_subnet_set:
  assumes "srv_subnets srv k = Some s" "sn_ipNet (snd st) = sn_ipNet s" "only_subnet srv k ip" "visits ord (srv_subnets srv)"
  shows "only_subnet (set_subnet k st srv) k ip" "visits ord (srv_subnets (set_subnet k st srv))"
  using assms by (auto simp: only_subnet_def visits_def)

text \<open>
  Without the obligations an address is booked twice. A static host is added at an address,
  a deletion names another client at that address, which removes the address but leaves
  the first client's entry, and a third client is given the address.
\<close>

lemma foreign_delete_books_twice:
  assumes "srv_subnets srv k = Some s" "only_subnet srv k (ip_of i)" "visits ord (srv_subnets srv)"
    and macs: "mac_key m1" "mac_key m2" "mac_key m3" "m1 \<noteq> m2" "m1 \<noteq> m3" and free: "sn_leaseCache s (IPv4_String i) = None"
  shows "\<exists>srv1 srv2 srv3. server_step lib srv (AddHost (x\<lparr>host_MAC := m1, host_IP := ip_of i\<rparr>)) srv1 \<and>
    server_step lib srv1 (DeleteHost (x\<lparr>host_MAC := m2, host_IP := ip_of i\<rparr>)) srv2 \<and>
    server_step lib srv2 (AddHost (x\<lparr>host_MAC := m3, host_IP := ip_of i\<rparr>)) srv3 \<and>
    srv_bindings srv3 k m1 = Some (IPv4_String i) \<and> srv_bindings srv3 k m3 = Some (IPv4_String i)"
proof -
  define x1 x2 x3 where "x1 = x\<lparr>host_MAC := m1, host_IP := ip_of i\<rparr>" and "x2 = x\<lparr>host_MAC := m2, host_IP := ip_of i\<rparr>"
    and "x3 = x\<lparr>host_MAC := m3, host_IP := ip_of i\<rparr>"
  define h where "h = srv_leases srv"
  define st1 where "st1 = Subnet_AddHost h s x1"
  define s2 where "s2 = Subnet_DeleteHost (snd st1) x2"
  define st3 where "st3 = Subnet_AddHost (fst st1) s2 x3"
  define srv1 where "srv1 = set_subnet k st1 srv"
  define srv2 where "srv2 = set_subnet k (fst st1, s2) srv1"
  define srv3 where "srv3 = set_subnet k st3 srv2"
  have net: "sn_ipNet (snd st1) = sn_ipNet s" "sn_ipNet s2 = sn_ipNet s"
    by (simp_all add: st1_def s2_def Subnet_AddHost_def Subnet_AddLease_def Subnet_DeleteHost_def Let_def)
  note v1 = only_subnet_set [OF assms(1) _ assms(2,3), of st1, OF net(1), folded srv1_def]
  have at1: "srv_subnets srv1 k = Some (snd st1)" "srv_leases srv1 = fst st1" by (simp_all add: srv1_def)
  note v2 = only_subnet_set [OF at1(1) _ v1(1,2), of "(fst st1, s2)", folded srv2_def]
  have at2: "srv_subnets srv2 k = Some s2" "srv_leases srv2 = fst st1" by (simp_all add: srv2_def)
  have step1: "server_step lib srv (AddHost x1) srv1"
    using server_step.add_host [OF assms(3), of lib x1] AddHost_at [OF assms(3,1), of x1] assms(2)
    by (simp add: srv1_def st1_def h_def x1_def)
  have step2: "server_step lib srv1 (DeleteHost x2) srv2"
    using server_step.delete_host [OF v1(2), of lib x2] DeleteHost_at [OF v1(2) at1(1), of x2] v1(1)
    by (simp add: srv2_def s2_def at1(2) x2_def)
  have step3: "server_step lib srv2 (AddHost x3) srv3"
    using server_step.add_host [OF v2(2), of lib x3] AddHost_at [OF v2(2) at2(1), of x3] v2(1) net
    by (simp add: srv3_def st3_def at2(2) x3_def)
  have n: "m1 \<noteq> IPv4_String i" "m2 \<noteq> IPv4_String i" "m3 \<noteq> IPv4_String i" using macs by auto
  have c1: "sn_leaseCache (snd st1) = (sn_leaseCache s)(IPv4_String i \<mapsto> length h, m1 \<mapsto> length h)" "fst st1 = h @ [host_lease s x1]"
    using free by (simp_all add: st1_def AddHost_cache x1_def)
  have c2: "sn_leaseCache s2 m1 = Some (length h)" "sn_leaseCache s2 (IPv4_String i) = None"
    using n macs by (simp_all add: s2_def Subnet_DeleteHost_def c1 x2_def)
  have c3: "sn_leaseCache (snd st3) m1 = Some (length h)" "sn_leaseCache (snd st3) m3 = Some (Suc (length h))"
    "fst st3 = h @ [host_lease s x1, host_lease s2 x3]"
    using c1 c2 n macs by (simp_all add: st3_def AddHost_cache x3_def)
  have "srv_bindings srv3 k m1 = Some (IPv4_String i) \<and> srv_bindings srv3 k m3 = Some (IPv4_String i)"
    using c3 macs by (simp add: srv_bindings_def bindings_def srv3_def nth_append x1_def x3_def)
  with step1 step2 step3 show ?thesis unfolding x1_def x2_def x3_def by blast
qed

end
