(* ===== verification/K8s_Controllers.thy ===== *)
theory K8s_Controllers
  imports K8s_Cache Dhcp_Server_Props
begin

text \<open>
  \<^verbatim>\<open>controllers\<close>: the three reconcilers and the callback that saves leases. The answer of
  the Kubernetes API to \<^verbatim>\<open>Get\<close> and \<^verbatim>\<open>List\<close> is an argument of a reconciliation; the callback
  works on a cluster of subnet objects whose reads and writes may fail. \<open>ordS\<close> and \<open>ordL\<close>
  are the orders in which the maps of subnets and local addresses are visited in a state.
\<close>

section \<open>State and results\<close>

record Operator =
  op_server :: Server
  op_cache :: ObjectsCache
  op_hostsCache :: "string \<rightharpoonup> Host"
  op_SubnetCache :: "string \<rightharpoonup> SubnetAddrPrefix"
  op_SubnetToObjectKey :: "SubnetAddrPrefix \<rightharpoonup> ObjectKey"

datatype api_error = NotFound | ApiError string

datatype rec_error = DhcpError dhcp_error | GetError api_error | UnknownDeleted string

record ctrl_Result =
  res_Requeue :: bool
  res_RequeueAfter :: int

definition done_result :: ctrl_Result where
  "done_result = \<lparr>res_Requeue = False, res_RequeueAfter = 0\<rparr>"

definition requeue_after :: "int \<Rightarrow> ctrl_Result" where
  "requeue_after n = \<lparr>res_Requeue = True, res_RequeueAfter = n * Second\<rparr>"

definition new_operator :: "Server \<Rightarrow> Operator" where
  "new_operator srv =
     \<lparr>op_server = srv, op_cache = NewObjectsCache, op_hostsCache = Map.empty, op_SubnetCache = Map.empty,
      op_SubnetToObjectKey = Map.empty\<rparr>"

section \<open>Hosts\<close>

definition HostReconcile ::
  "(Server \<Rightarrow> SubnetAddrPrefix list) \<Rightarrow> (api_error, DHCPHost) result \<Rightarrow> Operator \<Rightarrow> ObjectKey
   \<Rightarrow> Operator \<times> ctrl_Result \<times> rec_error option" where
  "HostReconcile ordS get st req =
     (let key = fst req @ ''/'' @ snd req in
      case get of
        Inl NotFound \<Rightarrow>
          (case op_hostsCache st key of
             None \<Rightarrow> (st, done_result, Some (UnknownDeleted key))
           | Some host \<Rightarrow>
               (case Server_DeleteHost (ordS (op_server st)) (op_server st) host of
                  (srv, err) \<Rightarrow> (st\<lparr>op_server := srv\<rparr>, done_result, map_option DhcpError err)))
      | Inl e \<Rightarrow> (st, requeue_after 30, Some (GetError e))
      | Inr host \<Rightarrow>
          (case AddHostIfNotKnown (op_cache st) host of
             (cache, saved) \<Rightarrow>
               let st = st\<lparr>op_cache := cache\<rparr> in
               if saved then (st, done_result, None)
               else (st\<lparr>op_server := fst (Server_AddHost (ordS (op_server st)) (op_server st) (ToDHCPHost host))\<rparr>,
                     done_result, None)))"

section \<open>Subnets\<close>

text \<open>The hosts that waited are added one by one; an error is logged and the next one follows.\<close>

fun add_hosts :: "(Server \<Rightarrow> SubnetAddrPrefix list) \<Rightarrow> DHCPHost list \<Rightarrow> Server \<Rightarrow> Server" where
  "add_hosts ordS [] srv = srv"
| "add_hosts ordS (h # hs) srv = add_hosts ordS hs (fst (Server_AddHost (ordS srv) srv (ToDHCPHost h)))"

definition SubnetReconcile ::
  "(Server \<Rightarrow> interfaceName list) \<Rightarrow> (Server \<Rightarrow> SubnetAddrPrefix list) \<Rightarrow> (api_error, DHCPSubnet) result
   \<Rightarrow> Operator \<Rightarrow> ObjectKey \<Rightarrow> Operator \<times> ctrl_Result \<times> rec_error option" where
  "SubnetReconcile ordL ordS get st req =
     (case get of
        Inl NotFound \<Rightarrow>
          (case op_SubnetCache st (snd req) of
             None \<Rightarrow> (st, done_result, Some (UnknownDeleted (snd req)))
           | Some sn \<Rightarrow>
               (case Server_DeleteSubnet (op_server st) sn of
                  (srv, err) \<Rightarrow>
                    (st\<lparr>op_SubnetToObjectKey := (op_SubnetToObjectKey st)(sn := None), op_server := srv\<rparr>,
                     done_result, map_option DhcpError err)))
      | Inl e \<Rightarrow> (st, requeue_after 30, Some (GetError e))
      | Inr subnet \<Rightarrow>
          (let st = st\<lparr>op_SubnetToObjectKey := (op_SubnetToObjectKey st)
                 (sspec_Subnet (subnet_Spec subnet) \<mapsto> subnet_Key subnet)\<rparr>;
               s = ToSubnet subnet
           in case AddSubnetIfNotKnown (op_cache st) s of
                (cache, False) \<Rightarrow> (st\<lparr>op_cache := cache\<rparr>, done_result, None)
              | (cache, True) \<Rightarrow>
                  (let st = st\<lparr>op_cache := cache, op_SubnetCache := (op_SubnetCache st)(snd req \<mapsto> sn_Subnet s)\<rparr> in
                   case Server_AddSubnet (ordL (op_server st)) (ordS (op_server st)) (op_server st) s of
                     (srv, Some e) \<Rightarrow> (st\<lparr>op_server := srv\<rparr>, done_result, Some (DhcpError e))
                   | (srv, None) \<Rightarrow>
                       (case PopUnknownHosts cache (sn_Subnet s) of
                          (cache', hosts) \<Rightarrow>
                            (st\<lparr>op_cache := cache', op_server := add_hosts ordS hosts srv\<rparr>, done_result, None)))))"

section \<open>Servers\<close>

fun Initialize_loop ::
  "(Server \<Rightarrow> interfaceName list) \<Rightarrow> (Server \<Rightarrow> SubnetAddrPrefix list) \<Rightarrow> DHCPSubnet list \<Rightarrow> Server \<Rightarrow> Server \<times> rec_error option" where
  "Initialize_loop ordL ordS [] srv = (srv, None)"
| "Initialize_loop ordL ordS (sn # sns) srv =
     (case Server_AddSubnet (ordL srv) (ordS srv) srv (ToSubnet sn) of
        (srv', Some e) \<Rightarrow> (srv', Some (DhcpError e))
      | (srv', None) \<Rightarrow> Initialize_loop ordL ordS sns srv')"

definition Initialize ::
  "(Server \<Rightarrow> interfaceName list) \<Rightarrow> (Server \<Rightarrow> SubnetAddrPrefix list) \<Rightarrow> (api_error, DHCPSubnet list) result
   \<Rightarrow> Server \<Rightarrow> Server \<times> rec_error option" where
  "Initialize ordL ordS subnets srv =
     (case subnets of Inl e \<Rightarrow> (srv, Some (GetError e)) | Inr sns \<Rightarrow> Initialize_loop ordL ordS sns srv)"

definition listen_and_initialize ::
  "(Server \<Rightarrow> interfaceName list) \<Rightarrow> (Server \<Rightarrow> SubnetAddrPrefix list) \<Rightarrow> (api_error, DHCPSubnet list) result
   \<Rightarrow> DHCPServer \<Rightarrow> string \<Rightarrow> Operator \<Rightarrow> Operator \<times> ctrl_Result \<times> rec_error option" where
  "listen_and_initialize ordL ordS subnets sv name st =
     (case Server_AddListen (op_server st) (ToListen sv) of
        (srv, err) \<Rightarrow>
          (let known = oc_knownListens (op_cache st);
               known = (if err = None then known(name \<mapsto> sv) else known);
               st = st\<lparr>op_server := srv, op_cache := (op_cache st)\<lparr>oc_knownListens := known\<rparr>\<rparr>
           in if known = Map.empty then
                (case Initialize ordL ordS subnets srv of
                   (srv', Some e) \<Rightarrow> (st\<lparr>op_server := srv'\<rparr>, \<lparr>res_Requeue = True, res_RequeueAfter = 0\<rparr>, Some e)
                 | (srv', None) \<Rightarrow> (st\<lparr>op_server := srv'\<rparr>, done_result, None))
              else (st, done_result, map_option DhcpError err)))"

definition ServerReconcile ::
  "(Server \<Rightarrow> interfaceName list) \<Rightarrow> (Server \<Rightarrow> SubnetAddrPrefix list) \<Rightarrow> (api_error, DHCPSubnet list) result
   \<Rightarrow> (api_error, DHCPServer) result \<Rightarrow> Operator \<Rightarrow> ObjectKey \<Rightarrow> Operator \<times> ctrl_Result \<times> rec_error option" where
  "ServerReconcile ordL ordS subnets get st req =
     (let name = snd req; known = oc_knownListens (op_cache st) in
      case get of
        Inl NotFound \<Rightarrow>
          (case Server_DeleteListen (op_server st) name of
             (srv, err) \<Rightarrow>
               (st\<lparr>op_server := srv, op_cache := (op_cache st)\<lparr>oc_knownListens := known(name := None)\<rparr>\<rparr>,
                done_result, map_option DhcpError err))
      | Inl e \<Rightarrow> (st, requeue_after 10, Some (GetError e))
      | Inr sv \<Rightarrow>
          if known name \<noteq> None then
            (case Server_DeleteListen (op_server st) name of
               (srv, Some e) \<Rightarrow> (st\<lparr>op_server := srv\<rparr>, requeue_after 10, Some (DhcpError e))
             | (srv, None) \<Rightarrow> listen_and_initialize ordL ordS subnets sv name (st\<lparr>op_server := srv\<rparr>))
          else listen_and_initialize ordL ordS subnets sv name st)"

section \<open>Saving leases\<close>

text \<open>
  The leases of a batch grouped by subnet; then for every group the status of its object
  is read, extended and written. \<open>get_err\<close> and \<open>update_err\<close> are the failures of the API,
  \<open>now\<close> the reading of the clock for each lease. The responses carry their lease, which
  the worker has already written to.
\<close>

type_synonym cluster = "ObjectKey \<rightharpoonup> DHCPSubnet"

definition group_leases :: "lease_heap \<Rightarrow> Response list \<Rightarrow> (SubnetAddrPrefix \<rightharpoonup> Lease list)" where
  "group_leases h responses =
     foldl (\<lambda>m r. let l = h ! the (resp_Lease r) in
        case m (lease_Subnet l) of
          None \<Rightarrow> m(lease_Subnet l \<mapsto> [l])
        | Some ls \<Rightarrow> m(lease_Subnet l \<mapsto> ls @ [l])) Map.empty responses"

definition record_leases :: "(Lease \<Rightarrow> go_time) \<Rightarrow> Lease list \<Rightarrow> (string \<rightharpoonup> ApiLease) \<Rightarrow> (string \<rightharpoonup> ApiLease)" where
  "record_leases now ls m =
     fold (\<lambda>l m. m(lease_MAC l \<mapsto> \<lparr>alease_IP = IP_String (lease_IP l), alease_UpdatedAt = now l\<rparr>)) ls m"

definition save_group ::
  "(ObjectKey \<Rightarrow> api_error option) \<Rightarrow> (ObjectKey \<Rightarrow> api_error option) \<Rightarrow> (Lease \<Rightarrow> go_time) \<Rightarrow> ObjectKey \<Rightarrow> Lease list
   \<Rightarrow> cluster \<Rightarrow> (api_error, cluster) result" where
  "save_group get_err update_err now key leases c =
     (case get_err key of
        Some e \<Rightarrow> Inl e
      | None \<Rightarrow>
          (case c key of
             None \<Rightarrow> Inl NotFound
           | Some subnet \<Rightarrow>
               (let m = (case sstat_Leases (subnet_Status subnet) of None \<Rightarrow> Map.empty | Some m \<Rightarrow> m);
                    status = (subnet_Status subnet)\<lparr>sstat_Leases := Some (record_leases now leases m)\<rparr>
                in case update_err key of
                     Some e \<Rightarrow> Inl e
                   | None \<Rightarrow> Inr (c(key \<mapsto> subnet\<lparr>subnet_Status := status\<rparr>)))))"

fun save_loop ::
  "(ObjectKey \<Rightarrow> api_error option) \<Rightarrow> (ObjectKey \<Rightarrow> api_error option) \<Rightarrow> (Lease \<Rightarrow> go_time) \<Rightarrow> (SubnetAddrPrefix \<rightharpoonup> ObjectKey)
   \<Rightarrow> (SubnetAddrPrefix \<rightharpoonup> Lease list) \<Rightarrow> SubnetAddrPrefix list \<Rightarrow> cluster \<Rightarrow> cluster \<times> api_error option" where
  "save_loop get_err update_err now keys groups [] c = (c, None)"
| "save_loop get_err update_err now keys groups (p # ps) c =
     (case keys p of
        None \<Rightarrow> save_loop get_err update_err now keys groups ps c
      | Some key \<Rightarrow>
          (case save_group get_err update_err now key (the (groups p)) c of
             Inl e \<Rightarrow> (c, Some e)
           | Inr c' \<Rightarrow> save_loop get_err update_err now keys groups ps c'))"

definition CallbackSaveLeases ::
  "(ObjectKey \<Rightarrow> api_error option) \<Rightarrow> (ObjectKey \<Rightarrow> api_error option) \<Rightarrow> (Lease \<Rightarrow> go_time) \<Rightarrow> SubnetAddrPrefix list
   \<Rightarrow> Operator \<Rightarrow> cluster \<Rightarrow> Response list \<Rightarrow> cluster \<times> api_error option" where
  "CallbackSaveLeases get_err update_err now ord st c responses =
     save_loop get_err update_err now (op_SubnetToObjectKey st)
       (group_leases (srv_leases (op_server st)) responses) ord c"

end
