(* ===== verification/K8s_Props.thy ===== *)
theory K8s_Props
  imports K8s_Controllers
begin

text \<open>
  Properties of the reconcilers and of the callback that saves leases. Several of them
  state where an object of the cluster and the running server part for good.
\<close>

section \<open>Subnets\<close>

lemma SubnetReconcile_known:
  assumes "oc_knownSubnets (op_cache st) (sspec_Subnet (subnet_Spec sn)) \<noteq> None"
  shows "\<exists>st'. SubnetReconcile ordL ordS (Inr sn) st req = (st', done_result, None) \<and>
    op_server st' = op_server st \<and> op_cache st' = op_cache st"
  using assms by (auto simp: SubnetReconcile_def AddSubnetIfNotKnown_def Let_def)

lemma set_subnet_keeps: "srv_subnets srv k \<noteq> None \<Longrightarrow> srv_subnets (set_subnet j x srv) k \<noteq> None"
  by simp

lemma AddHost_keeps_subnets:
  "srv_subnets srv k \<noteq> None \<Longrightarrow> srv_subnets (fst (Server_AddHost ord srv x)) k \<noteq> None"
  by (simp add: Server_AddHost_def split: option.split)

lemma add_hosts_keeps_subnets: "srv_subnets srv k \<noteq> None \<Longrightarrow> srv_subnets (add_hosts ordS hs srv) k \<noteq> None"
proof (induction hs arbitrary: srv)
  case (Cons h hs)
  show ?case
    using Cons.IH [OF AddHost_keeps_subnets [OF Cons.prems]] by simp
qed simp

lemma AddSubnet_ok:
  assumes "Server_AddSubnet ordL ordS srv sn = (srv', None)"
  obtains s where "InitializeSubnet sn (in_order ordL (srv_localIpAddresses srv)) = Inr s" "sn_Subnet s = sn_Subnet sn"
    "srv' = srv\<lparr>srv_subnets := (srv_subnets srv)(sn_Subnet sn \<mapsto> s)\<rparr>"
proof -
  from assms obtain s where s: "InitializeSubnet sn (in_order ordL (srv_localIpAddresses srv)) = Inr s"
    "srv' = srv\<lparr>srv_subnets := (srv_subnets srv)(sn_Subnet s \<mapsto> s)\<rparr>"
    by (auto simp: Server_AddSubnet_def split: sum.splits option.splits)
  have "sn_Subnet s = sn_Subnet sn" using s(1) by (rule InitializeSubnet_Inr) simp
  with that s show ?thesis by simp
qed

text \<open>What a first reconciliation of a subnet does when it succeeds.\<close>

lemma SubnetReconcile_new:
  assumes "SubnetReconcile ordL ordS (Inr sn) st req = (st', res, None)"
    "oc_knownSubnets (op_cache st) (sspec_Subnet (subnet_Spec sn)) = None"
  obtains srv where
    "Server_AddSubnet (ordL (op_server st)) (ordS (op_server st)) (op_server st) (ToSubnet sn) = (srv, None)"
    "op_server st' = add_hosts ordS (waiting_hosts (op_cache st) (sspec_Subnet (subnet_Spec sn))) srv"
    "op_SubnetCache st' (snd req) = Some (sspec_Subnet (subnet_Spec sn))"
    "oc_knownSubnets (op_cache st') (sspec_Subnet (subnet_Spec sn)) \<noteq> None"
  using assms that
  by (auto simp: SubnetReconcile_def AddSubnetIfNotKnown_def Let_def waiting_hosts_def PopUnknownHosts_def
      split: prod.splits option.splits)

text \<open>C32: a subnet object that is created, deleted and created again is not served: the third
  reconciliation finds the subnet among the known ones, reports success and leaves the
  server without it.\<close>

theorem recreated_subnet_is_not_served:
  assumes "SubnetReconcile ordL ordS (Inr sn) st req = (st1, res, None)"
    and "oc_knownSubnets (op_cache st) (sspec_Subnet (subnet_Spec sn)) = None"
    and "sspec_Subnet (subnet_Spec sn') = sspec_Subnet (subnet_Spec sn)"
  shows "\<exists>st2 st3. SubnetReconcile ordL ordS (Inl NotFound) st1 req = (st2, done_result, None) \<and>
    SubnetReconcile ordL ordS (Inr sn') st2 req = (st3, done_result, None) \<and>
    srv_subnets (op_server st1) (sspec_Subnet (subnet_Spec sn)) \<noteq> None \<and>
    srv_subnets (op_server st3) (sspec_Subnet (subnet_Spec sn)) = None"
proof -
  let ?k = "sspec_Subnet (subnet_Spec sn)"
  obtain srv where s: "Server_AddSubnet (ordL (op_server st)) (ordS (op_server st)) (op_server st) (ToSubnet sn) = (srv, None)"
    "op_server st1 = add_hosts ordS (waiting_hosts (op_cache st) ?k) srv"
    "op_SubnetCache st1 (snd req) = Some ?k" "oc_knownSubnets (op_cache st1) ?k \<noteq> None"
    by (rule SubnetReconcile_new [OF assms(1,2)])
  have "srv_subnets srv ?k \<noteq> None" using s(1) by (rule AddSubnet_ok) simp
  then have served: "srv_subnets (op_server st1) ?k \<noteq> None"
    unfolding s(2) by (rule add_hosts_keeps_subnets)
  define st2 where "st2 = st1\<lparr>op_SubnetToObjectKey := (op_SubnetToObjectKey st1)(?k := None),
      op_server := (op_server st1)\<lparr>srv_subnets := (srv_subnets (op_server st1))(?k := None)\<rparr>\<rparr>"
  have del: "SubnetReconcile ordL ordS (Inl NotFound) st1 req = (st2, done_result, None)"
    using served s(3) by (simp add: SubnetReconcile_def Server_DeleteSubnet_def st2_def)
  have "oc_knownSubnets (op_cache st2) (sspec_Subnet (subnet_Spec sn')) \<noteq> None"
    using s(4) by (simp add: st2_def assms(3))
  from SubnetReconcile_known [OF this, of ordL ordS req]
  obtain st3 where "SubnetReconcile ordL ordS (Inr sn') st2 req = (st3, done_result, None)" "op_server st3 = op_server st2"
    by blast
  with del served show ?thesis by (auto simp: st2_def)
qed

definition sample_k8s_subnet :: DHCPSubnet where
  "sample_k8s_subnet = \<lparr>subnet_Key = (''default'', ''net''),
     subnet_Spec = \<lparr>sspec_Subnet = ''10.1.1.0/24'', sspec_RangeFrom = ''10.1.1.1'', sspec_RangeTo = ''10.1.1.3'',
       sspec_Gateway = [], sspec_DNS = [], sspec_Options = [], sspec_ServerHostName = [], sspec_BootFileName = [],
       sspec_LeaseTime = 0\<rparr>,
     subnet_Status = \<lparr>sstat_ErrorMessage = [], sstat_Leases = None\<rparr>\<rparr>"

lemma sample_ToSubnet: "ToSubnet sample_k8s_subnet = spec_subnet"
  by (simp add: ToSubnet_def sample_k8s_subnet_def spec_subnet_def sample_subnet_def to_options_def)

lemma sample_subnet_reconcile:
  "SubnetReconcile (\<lambda>_. [''eth0'']) (\<lambda>_. []) (Inr sample_k8s_subnet) (new_operator empty_server) (''default'', ''net'') =
    (\<lparr>op_server = sample_server, op_cache = NewObjectsCache\<lparr>oc_knownSubnets := [''10.1.1.0/24'' \<mapsto> spec_subnet]\<rparr>,
      op_hostsCache = Map.empty, op_SubnetCache = [''net'' \<mapsto> ''10.1.1.0/24''],
      op_SubnetToObjectKey = [''10.1.1.0/24'' \<mapsto> (''default'', ''net'')]\<rparr>, done_result, None)"
proof -
  have "sn_Subnet spec_subnet = ''10.1.1.0/24''" by (simp add: spec_subnet_def sample_subnet_def)
  moreover have "sspec_Subnet (subnet_Spec sample_k8s_subnet) = ''10.1.1.0/24''" "subnet_Key sample_k8s_subnet = (''default'', ''net'')"
    by (simp_all add: sample_k8s_subnet_def)
  ultimately show ?thesis
    by (simp add: SubnetReconcile_def AddSubnetIfNotKnown_def new_operator_def NewObjectsCache_def sample_ToSubnet
        sample_AddSubnet PopUnknownHosts_def)
qed

theorem recreated_subnet_is_not_served_witness:
  "\<exists>st2 st3. SubnetReconcile (\<lambda>_. [''eth0'']) (\<lambda>_. []) (Inr sample_k8s_subnet) st2 (''default'', ''net'') = (st3, done_result, None) \<and>
     srv_subnets (op_server st3) ''10.1.1.0/24'' = None"
proof -
  have k: "sspec_Subnet (subnet_Spec sample_k8s_subnet) = ''10.1.1.0/24''"
    by (simp add: sample_k8s_subnet_def)
  from recreated_subnet_is_not_served [OF sample_subnet_reconcile, of sample_k8s_subnet] show ?thesis
    by (auto simp: k new_operator_def NewObjectsCache_def)
qed

text \<open>A subnet whose specification the server rejected is remembered as known, so that the
  corrected object, with the same network, is reported as done and is not served either.\<close>

lemma corrected_subnet_is_not_served:
  assumes "oc_knownSubnets (op_cache st) (sspec_Subnet (subnet_Spec sn)) = None"
    and "InitializeSubnet (ToSubnet sn) (in_order (ordL (op_server st)) (srv_localIpAddresses (op_server st))) = Inl e"
    and "sspec_Subnet (subnet_Spec sn') = sspec_Subnet (subnet_Spec sn)"
  shows "\<exists>st1 st2. SubnetReconcile ordL ordS (Inr sn) st req = (st1, done_result, Some (DhcpError e)) \<and>
    SubnetReconcile ordL ordS (Inr sn') st1 req = (st2, done_result, None) \<and> op_server st2 = op_server st"
proof -
  have "\<exists>st1. SubnetReconcile ordL ordS (Inr sn) st req = (st1, done_result, Some (DhcpError e)) \<and>
      op_server st1 = op_server st \<and> oc_knownSubnets (op_cache st1) (sspec_Subnet (subnet_Spec sn')) \<noteq> None"
    using assms by (simp add: SubnetReconcile_def AddSubnetIfNotKnown_def Server_AddSubnet_def Let_def)
  then show ?thesis using SubnetReconcile_known by metis
qed

theorem corrected_subnet_is_not_served_witness:
  "\<exists>st1 st2. SubnetReconcile (\<lambda>_. [''eth0'']) (\<lambda>_. []) (Inr sample_k8s_subnet) st1 (''default'', ''net'') = (st2, done_result, None) \<and>
     op_server st2 = empty_server"
proof -
  let ?bad = "sample_k8s_subnet\<lparr>subnet_Spec := (subnet_Spec sample_k8s_subnet)\<lparr>sspec_RangeTo := []\<rparr>\<rparr>"
  have p: "ParseIPv4 [] = Inl (InvalidIPv4 [])" by code_simp
  have "InitializeSubnet (ToSubnet ?bad) (in_order ((\<lambda>_. [''eth0'']) (op_server (new_operator empty_server)))
      (srv_localIpAddresses (op_server (new_operator empty_server)))) = Inl (ErrIPv4 (InvalidIPv4 []))"
    by (simp add: InitializeSubnet_def ToSubnet_def sample_k8s_subnet_def sample_texts p)
  moreover have "oc_knownSubnets (op_cache (new_operator empty_server)) (sspec_Subnet (subnet_Spec ?bad)) = None"
    by (simp add: new_operator_def NewObjectsCache_def)
  moreover have "sspec_Subnet (subnet_Spec sample_k8s_subnet) = sspec_Subnet (subnet_Spec ?bad)" by simp
  moreover have "op_server (new_operator empty_server) = empty_server" by (simp add: new_operator_def)
  ultimately show ?thesis
    using corrected_subnet_is_not_served [where ordL = "\<lambda>_. [''eth0'']" and ordS = "\<lambda>_. []" and req = "(''default'', ''net'')"]
    by metis
qed

section \<open>Hosts\<close>

text \<open>The order in which a reconciler visits the subnets: any order of the finitely many there are.\<close>

definition any_order :: "(Server \<Rightarrow> SubnetAddrPrefix list) \<Rightarrow> bool" where
  "any_order ordS \<longleftrightarrow> (\<forall>srv. finite (dom (srv_subnets srv)) \<longrightarrow> visits (ordS srv) (srv_subnets srv))"

text \<open>Adding hosts, whatever they are, keeps the networks, so the subnet of an address stays the same.\<close>

lemma AddHost_networks:
  assumes "visits ord (srv_subnets srv)" "srv_subnets srv k \<noteq> None" "only_subnet srv k ip"
  shows "finite (dom (srv_subnets (fst (Server_AddHost ord srv x))))" "srv_subnets (fst (Server_AddHost ord srv x)) k \<noteq> None"
    "only_subnet (fst (Server_AddHost ord srv x)) k ip"
proof -
  let ?f = "find (\<lambda>k. IPNet_Contains (sn_ipNet (the (srv_subnets srv k))) (host_IP x)) ord"
  have fin: "finite (dom (srv_subnets srv))" using assms(1) by (metis finite_set visits_def)
  have net: "sn_ipNet (snd (Subnet_AddHost h s y)) = sn_ipNet s" for h s y
    by (simp add: Subnet_AddHost_def Subnet_AddLease_def Let_def)
  have all: "finite (dom (srv_subnets (fst (Server_AddHost ord srv x)))) \<and> srv_subnets (fst (Server_AddHost ord srv x)) k \<noteq> None \<and>
      only_subnet (fst (Server_AddHost ord srv x)) k ip"
  proof (cases ?f)
    case (Some j)
    then obtain s where "srv_subnets srv j = Some s" using find_visited [OF assms(1)] by blast
    with Some fin assms(2,3) net show ?thesis
      by (auto simp: Server_AddHost_def only_subnet_def)
  qed (use fin assms(2,3) in \<open>simp add: Server_AddHost_def\<close>)
  then show "finite (dom (srv_subnets (fst (Server_AddHost ord srv x))))" "srv_subnets (fst (Server_AddHost ord srv x)) k \<noteq> None"
    "only_subnet (fst (Server_AddHost ord srv x)) k ip" by blast+
qed

lemma add_hosts_networks:
  assumes "any_order ordS" "finite (dom (srv_subnets srv))" "srv_subnets srv k \<noteq> None" "only_subnet srv k ip"
  shows "finite (dom (srv_subnets (add_hosts ordS hs srv))) \<and> srv_subnets (add_hosts ordS hs srv) k \<noteq> None \<and>
    only_subnet (add_hosts ordS hs srv) k ip"
  using assms(2-4)
proof (induction hs arbitrary: srv)
  case (Cons h hs)
  have v: "visits (ordS srv) (srv_subnets srv)" using assms(1) Cons.prems(1) by (simp add: any_order_def)
  show ?case
    using Cons.IH [OF AddHost_networks [OF v Cons.prems(2,3)]] by simp
qed simp

lemma add_hosts_append: "add_hosts ordS (xs @ ys) srv = add_hosts ordS ys (add_hosts ordS xs srv)"
  by (induction xs arbitrary: srv) simp_all

text \<open>The host that is added last is bound, whatever the cache held before.\<close>

lemma AddHost_binds:
  assumes "visits ord (srv_subnets srv)" "srv_subnets srv k \<noteq> None" "only_subnet srv k (host_IP x)" "mac_key (host_MAC x)"
  shows "srv_bindings (fst (Server_AddHost ord srv x)) k (host_MAC x) = Some (IP_String (host_IP x))"
proof -
  from assms(2) obtain s where s: "srv_subnets srv k = Some s" by blast
  show ?thesis
    using assms(4) by (simp add: AddHost_at [OF assms(1) s assms(3)] srv_bindings_def bindings_def AddHost_cache split_beta
        case_prod_beta)
qed

lemma waiting_after_host:
  assumes "oc_knownSubnets c k = None" "hspec_Subnet (host_Spec host) = k"
  shows "\<exists>c'. AddHostIfNotKnown c host = (c', True) \<and> waiting_hosts c' k = waiting_hosts c k @ [host] \<and>
    oc_knownSubnets c' = oc_knownSubnets c \<and> oc_knownListens c' = oc_knownListens c \<and> oc_knownLeases c' = oc_knownLeases c \<and>
    (oc_unknownHosts c')(k := None) = (oc_unknownHosts c)(k := None)"
  using assms by (simp add: AddHostIfNotKnown_def waiting_hosts_def PopUnknownHosts_def Let_def split: option.split)

text \<open>What the first reconciliation of a subnet that the server accepts leaves behind.\<close>

lemma SubnetReconcile_accepted:
  assumes "oc_knownSubnets (op_cache st) k = None" "sspec_Subnet (subnet_Spec sn) = k"
    and "Server_AddSubnet (ordL (op_server st)) (ordS (op_server st)) (op_server st) (ToSubnet sn) = (srv, None)"
  shows "SubnetReconcile ordL ordS (Inr sn) st req =
    (st\<lparr>op_SubnetToObjectKey := (op_SubnetToObjectKey st)(k \<mapsto> subnet_Key sn),
       op_SubnetCache := (op_SubnetCache st)(snd req \<mapsto> k),
       op_cache := (op_cache st)\<lparr>oc_knownSubnets := (oc_knownSubnets (op_cache st))(k \<mapsto> ToSubnet sn),
         oc_unknownHosts := (oc_unknownHosts (op_cache st))(k := None)\<rparr>,
       op_server := add_hosts ordS (waiting_hosts (op_cache st) k) srv\<rparr>, done_result, None)"
  using assms by (simp add: SubnetReconcile_def AddSubnetIfNotKnown_def Let_def PopUnknownHosts_def waiting_hosts_def)

text \<open>C11: a host and its subnet may appear in either order. When the subnet is new to the operator
  and the server accepts it, reconciling the host first, which then waits, and the subnet
  second ends in the very same state as the other way round, whichever other hosts wait
  for the subnet. In that state the subnet binds the host's hardware address to its fixed
  address, provided the subnet is the only served one that contains the address.\<close>

theorem host_and_subnet_in_either_order:
  assumes new: "oc_knownSubnets (op_cache st) k = None" "sspec_Subnet (subnet_Spec sn) = k"
    and host: "hspec_Subnet (host_Spec host) = k" "hspec_IP (host_Spec host) = IPv4_String i" "mac_key (hspec_MAC (host_Spec host))"
    and add: "Server_AddSubnet (ordL (op_server st)) (ordS (op_server st)) (op_server st) (ToSubnet sn) = (srv, None)"
    and net: "any_order ordS" "finite (dom (srv_subnets srv))" "only_subnet srv k (ip_of i)"
  shows "\<exists>waiting served final.
    HostReconcile ordS (Inr host) st hreq = (waiting, done_result, None) \<and> op_server waiting = op_server st \<and>
    SubnetReconcile ordL ordS (Inr sn) waiting sreq = (final, done_result, None) \<and>
    SubnetReconcile ordL ordS (Inr sn) st sreq = (served, done_result, None) \<and>
    HostReconcile ordS (Inr host) served hreq = (final, done_result, None) \<and>
    srv_bindings (op_server final) k (hspec_MAC (host_Spec host)) = Some (IPv4_String i)"
proof -
  let ?hs = "waiting_hosts (op_cache st) k"
  let ?last = "add_hosts ordS ?hs srv"
  obtain c' where c': "AddHostIfNotKnown (op_cache st) host = (c', True)" "waiting_hosts c' k = ?hs @ [host]"
    "oc_knownSubnets c' = oc_knownSubnets (op_cache st)" "oc_knownListens c' = oc_knownListens (op_cache st)"
    "oc_knownLeases c' = oc_knownLeases (op_cache st)"
    "(oc_unknownHosts c')(k := None) = (oc_unknownHosts (op_cache st))(k := None)"
    using waiting_after_host [OF new(1) host(1)] by blast
  define waiting where "waiting = st\<lparr>op_cache := c'\<rparr>"
  define served where "served = fst (SubnetReconcile ordL ordS (Inr sn) st sreq)"
  define final where "final = fst (SubnetReconcile ordL ordS (Inr sn) waiting sreq)"
  have w: "op_server waiting = op_server st" "op_cache waiting = c'" "oc_knownSubnets (op_cache waiting) k = None"
    using c'(3) new(1) by (simp_all add: waiting_def)
  note first = SubnetReconcile_accepted [OF new, of ordL ordS srv sreq, OF add]
  note second = SubnetReconcile_accepted [OF w(3) new(2), of ordL ordS srv sreq, unfolded w(1), OF add]
  have srv_k: "srv_subnets srv k \<noteq> None" using add by (rule AddSubnet_ok) (simp add: new(2))
  note last = add_hosts_networks [OF net(1,2) srv_k net(3), of ?hs]
  have "visits (ordS ?last) (srv_subnets ?last)" using net(1) last by (simp add: any_order_def)
  then have bound: "srv_bindings (fst (Server_AddHost (ordS ?last) ?last (ToDHCPHost host))) k (hspec_MAC (host_Spec host)) = Some (IPv4_String i)"
    using AddHost_binds [of "ordS ?last" ?last k "ToDHCPHost host"] last host by simp
  have final: "final = served\<lparr>op_server := fst (Server_AddHost (ordS ?last) ?last (ToDHCPHost host))\<rparr>"
    unfolding final_def served_def first second by (simp add: waiting_def c' add_hosts_append)
  have "HostReconcile ordS (Inr host) st hreq = (waiting, done_result, None)"
    by (simp add: HostReconcile_def c'(1) waiting_def)
  moreover have "HostReconcile ordS (Inr host) served hreq = (final, done_result, None)"
    unfolding final unfolding served_def first using host(1)
    by (simp add: HostReconcile_def AddHostIfNotKnown_def Let_def)
  moreover have "SubnetReconcile ordL ordS (Inr sn) waiting sreq = (final, done_result, None)"
    "SubnetReconcile ordL ordS (Inr sn) st sreq = (served, done_result, None)"
    unfolding final_def served_def first second by simp_all
  ultimately show ?thesis using w(1) bound final by auto
qed

lemma sample_k8s_host_fields:
  "hspec_Subnet (host_Spec sample_k8s_host) = ''10.1.1.0/24''" "mac_key (hspec_MAC (host_Spec sample_k8s_host))"
  "hspec_MAC (host_Spec sample_k8s_host) = ''00:00:00:00:00:09''"
  "hspec_IP (host_Spec sample_k8s_host) = IPv4_String 167837954"
proof -
  have "''10.1.1.2'' = IPv4_String 167837954" by code_simp
  then show "hspec_IP (host_Spec sample_k8s_host) = IPv4_String 167837954" by (simp add: sample_k8s_host_def)
qed (simp_all add: sample_k8s_host_def mac_key_def)

definition some_order :: "Server \<Rightarrow> SubnetAddrPrefix list" where
  "some_order srv = (SOME xs. visits xs (srv_subnets srv))"

lemma any_order_some: "any_order some_order"
proof -
  have "\<exists>xs. visits xs (srv_subnets srv)" if "finite (dom (srv_subnets srv))" for srv
    using finite_distinct_list [OF that] by (auto simp: visits_def)
  then show ?thesis unfolding any_order_def some_order_def by (metis someI_ex)
qed

lemma some_order_empty: "some_order empty_server = []"
proof -
  have "srv_subnets empty_server = Map.empty" by (simp add: empty_server_def)
  then show ?thesis
    using any_order_some [unfolded any_order_def, THEN spec, of empty_server] by (simp add: visits_def)
qed

theorem host_and_subnet_in_either_order_witness:
  "\<exists>waiting final. SubnetReconcile (\<lambda>_. [''eth0'']) some_order (Inr sample_k8s_subnet) waiting (''default'', ''net'') = (final, done_result, None) \<and>
    srv_bindings (op_server final) ''10.1.1.0/24'' ''00:00:00:00:00:09'' = Some (IPv4_String 167837954)"
proof -
  let ?st = "new_operator empty_server"
  have e: "op_server ?st = empty_server" by (simp add: new_operator_def)
  have add: "Server_AddSubnet ((\<lambda>_. [''eth0'']) (op_server ?st)) (some_order (op_server ?st)) (op_server ?st) (ToSubnet sample_k8s_subnet) =
      (sample_server, None)"
    by (simp add: e sample_ToSubnet sample_AddSubnet some_order_empty)
  have "Subnet_Contains (sample_subnet\<lparr>sn_serverIPAddress := ip_of 167837953\<rparr>) (ip_of 167837954)"
    using contains_ip_of [of 24 167837952 167837954]
    by (simp add: Subnet_Contains_def sample_mask sample_subnet_def drop_bit_eq_div)
  then have net: "only_subnet sample_server ''10.1.1.0/24'' (ip_of 167837954)"
    by (simp add: only_subnet_def sample_server_def Subnet_Contains_def)
  have cache: "oc_knownSubnets (op_cache ?st) ''10.1.1.0/24'' = None" "sspec_Subnet (subnet_Spec sample_k8s_subnet) = ''10.1.1.0/24''"
    by (simp_all add: new_operator_def NewObjectsCache_def sample_k8s_subnet_def)
  have fin: "finite (dom (srv_subnets sample_server))" by (simp add: sample_server_def)
  from host_and_subnet_in_either_order [OF cache sample_k8s_host_fields(1,4,2), of "\<lambda>_. [''eth0'']" some_order, OF add any_order_some fin net]
  show ?thesis unfolding sample_k8s_host_fields(3) by blast
qed

text \<open>
  Steps of the operator: any of the three reconcilers with any answer of the API, and
  whatever the DHCP server does between them.
\<close>

inductive operator_step :: "Operator \<Rightarrow> Operator \<Rightarrow> bool" where
  host_step: "operator_step st (fst (HostReconcile ordS get st req))"
| subnet_step: "operator_step st (fst (SubnetReconcile ordL ordS get' st req))"
| listener_step: "operator_step st (fst (ServerReconcile ordL ordS subnets get'' st req))"
| serving_step: "operator_step st (st\<lparr>op_server := srv\<rparr>)"

inductive_cases operator_stepE: "operator_step st st'"

lemma listen_and_initialize_hosts:
  "op_hostsCache (fst (listen_and_initialize ordL ordS subnets sv name st)) = op_hostsCache st"
  by (simp add: listen_and_initialize_def Let_def split: prod.split option.split)

lemma hosts_cache_unwritten: "operator_step st st' \<Longrightarrow> op_hostsCache st' = op_hostsCache st"
  by (elim operator_stepE)
    (auto simp: HostReconcile_def SubnetReconcile_def ServerReconcile_def Let_def listen_and_initialize_hosts
      split: prod.splits option.splits sum.splits api_error.splits bool.splits)

interpretation operator: invariant_system operator_step "\<lambda>st. op_hostsCache st = Map.empty"
  by unfold_locales (simp add: hosts_cache_unwritten)

text \<open>C33: deleting a host object never takes the host from the server: the cache the reconciler looks
  the host up in is written nowhere, so that in every reachable state the deletion ends
  with an error and the server unchanged.\<close>

theorem deleted_host_stays:
  assumes "operator_step\<^sup>*\<^sup>* (new_operator srv) st"
  shows "HostReconcile ordS (Inl NotFound) st (ns, name) = (st, done_result, Some (UnknownDeleted (ns @ ''/'' @ name)))"
proof -
  have "op_hostsCache st = Map.empty"
    using operator.reach_inv [OF assms] by (simp add: new_operator_def)
  then show ?thesis by (simp add: HostReconcile_def)
qed

theorem deleted_host_stays_witness:
  "HostReconcile (\<lambda>_. []) (Inl NotFound) (fst (HostReconcile (\<lambda>_. []) (Inr sample_k8s_host) (new_operator empty_server) (''default'', ''pxe'')))
     (''default'', ''pxe'') =
   (fst (HostReconcile (\<lambda>_. []) (Inr sample_k8s_host) (new_operator empty_server) (''default'', ''pxe'')), done_result,
    Some (UnknownDeleted ''default/pxe''))"
  using deleted_host_stays [OF r_into_rtranclp [of operator_step, OF operator_step.host_step [of "new_operator empty_server"
      "\<lambda>_. []" "Inr sample_k8s_host" "(''default'', ''pxe'')"]], of "\<lambda>_. []" "''default''" "''pxe''"]
  by simp

section \<open>Listeners\<close>

text \<open>C34: an update of a listener that fails to open its socket cannot be repaired by a further update:
  the old listener is gone, its name stays among the known ones, and as long as the object
  exists every later reconciliation of it, however correct, fails to delete what does not
  exist and changes nothing. Only deleting the object helps, which itself reports an error:
  it forgets the name, and an object created anew under it is served when its socket opens.\<close>

theorem failed_listener_update_needs_deletion:
  assumes "oc_knownListens (op_cache st) name \<noteq> None" "srv_listeners (op_server st) name = Some rp"
    and "snd (server_Key sv) = name"
    and "srv_socketFactory (op_server st) (vspec_ListenAddress (server_Spec sv)) (vspec_ListenInterface (server_Spec sv)) = Inl e"
  shows "\<exists>failed deleted.
    ServerReconcile ordL ordS subnets (Inr sv) st (ns, name) = (failed, done_result, Some (DhcpError (ErrSocket e))) \<and>
    srv_listeners (op_server failed) name = None \<and>
    (\<forall>sv'. ServerReconcile ordL ordS subnets (Inr sv') failed (ns, name) =
       (failed, requeue_after 10, Some (DhcpError (ErrUnknownListen name)))) \<and>
    ServerReconcile ordL ordS subnets (Inl NotFound) failed (ns, name) =
       (deleted, done_result, Some (DhcpError (ErrUnknownListen name))) \<and>
    (\<forall>sv' socket. snd (server_Key sv') = name \<longrightarrow>
       srv_socketFactory (op_server st) (vspec_ListenAddress (server_Spec sv')) (vspec_ListenInterface (server_Spec sv')) = Inr socket \<longrightarrow>
       (\<exists>created. ServerReconcile ordL ordS subnets (Inr sv') deleted (ns, name) = (created, done_result, None) \<and>
          map_option rp_socket (srv_listeners (op_server created) name) = Some socket))"
proof -
  define srv where "srv = (op_server st)\<lparr>srv_closed := srv_closed (op_server st) @ [rp_socket rp],
      srv_listeners := (srv_listeners (op_server st))(name := None)\<rparr>"
  define failed where "failed = st\<lparr>op_server := srv\<rparr>"
  define deleted where "deleted = failed\<lparr>op_cache := (op_cache st)\<lparr>oc_knownListens := (oc_knownListens (op_cache st))(name := None)\<rparr>\<rparr>"
  have del: "Server_DeleteListen (op_server st) name = (srv, None)"
    using assms(2) by (simp add: Server_DeleteListen_def srv_def)
  have add: "Server_AddListen srv (ToListen sv) = (srv, Some (ErrSocket e))"
    using assms(3,4) by (simp add: Server_AddListen_def NewRequestProcessor_def ToListen_def srv_def)
  have known: "oc_knownListens (op_cache st) \<noteq> Map.empty" using assms(1) by auto
  have first: "ServerReconcile ordL ordS subnets (Inr sv) st (ns, name) = (failed, done_result, Some (DhcpError (ErrSocket e)))"
    using assms(1) known by (auto simp: ServerReconcile_def del listen_and_initialize_def add failed_def)
  have gone: "Server_DeleteListen srv name = (srv, Some (ErrUnknownListen name))"
    by (simp add: Server_DeleteListen_def srv_def)
  have stuck: "ServerReconcile ordL ordS subnets (Inr sv') failed (ns, name) =
      (failed, requeue_after 10, Some (DhcpError (ErrUnknownListen name)))" for sv'
    using assms(1) by (auto simp: ServerReconcile_def gone failed_def)
  have forget: "ServerReconcile ordL ordS subnets (Inl NotFound) failed (ns, name) =
      (deleted, done_result, Some (DhcpError (ErrUnknownListen name)))"
    by (simp add: ServerReconcile_def gone failed_def deleted_def)
  have "\<exists>created. ServerReconcile ordL ordS subnets (Inr sv') deleted (ns, name) = (created, done_result, None) \<and>
      map_option rp_socket (srv_listeners (op_server created) name) = Some socket"
    if "snd (server_Key sv') = name"
      "srv_socketFactory (op_server st) (vspec_ListenAddress (server_Spec sv')) (vspec_ListenInterface (server_Spec sv')) = Inr socket"
    for sv' socket
  proof -
    have "\<exists>srv'. Server_AddListen srv (ToListen sv') = (srv', None) \<and> map_option rp_socket (srv_listeners srv' name) = Some socket"
      using that by (simp add: Server_AddListen_def NewRequestProcessor_def ToListen_def srv_def)
    then show ?thesis
      by (auto simp: ServerReconcile_def listen_and_initialize_def deleted_def failed_def Let_def fun_eq_iff)
  qed
  moreover have "srv_listeners (op_server failed) name = None" by (simp add: failed_def srv_def)
  ultimately show ?thesis using first stuck forget by blast
qed

definition sample_k8s_server :: "string \<Rightarrow> DHCPServer" where
  "sample_k8s_server addr = \<lparr>server_Key = (''default'', ''a''),
     server_Spec = \<lparr>vspec_ListenInterface = ''eth0'', vspec_ListenAddress = addr, vspec_ReuseAddr = False\<rparr>,
     server_Status = \<lparr>vstat_ErrorMessage = [], vstat_LastUpdate = 0\<rparr>\<rparr>"

definition listening_operator :: Operator where
  "listening_operator = (new_operator (empty_server\<lparr>srv_listeners := [''a'' \<mapsto> \<lparr>rp_socket = 7, rp_name = []\<rparr>],
       srv_socketFactory := (\<lambda>addr iface. if addr = ''1.2.3.4'' then Inl ''bind'' else Inr 8)\<rparr>))
     \<lparr>op_cache := NewObjectsCache\<lparr>oc_knownListens := [''a'' \<mapsto> sample_k8s_server []]\<rparr>\<rparr>"

theorem failed_listener_update_needs_deletion_witness:
  "\<exists>failed deleted created. ServerReconcile (\<lambda>_. []) (\<lambda>_. []) (Inr []) (Inr (sample_k8s_server [])) failed (''default'', ''a'') =
     (failed, requeue_after 10, Some (DhcpError (ErrUnknownListen ''a''))) \<and>
   ServerReconcile (\<lambda>_. []) (\<lambda>_. []) (Inr []) (Inr (sample_k8s_server [])) deleted (''default'', ''a'') = (created, done_result, None) \<and>
   map_option rp_socket (srv_listeners (op_server created) ''a'') = Some 8"
proof -
  have f: "oc_knownListens (op_cache listening_operator) ''a'' \<noteq> None"
    "srv_listeners (op_server listening_operator) ''a'' = Some \<lparr>rp_socket = 7, rp_name = []\<rparr>"
    "snd (server_Key (sample_k8s_server ''1.2.3.4'')) = ''a''"
    "srv_socketFactory (op_server listening_operator) (vspec_ListenAddress (server_Spec (sample_k8s_server ''1.2.3.4'')))
       (vspec_ListenInterface (server_Spec (sample_k8s_server ''1.2.3.4''))) = Inl ''bind''"
    by (simp_all add: listening_operator_def sample_k8s_server_def new_operator_def)
  have s: "snd (server_Key (sample_k8s_server [])) = ''a''"
    "srv_socketFactory (op_server listening_operator) (vspec_ListenAddress (server_Spec (sample_k8s_server [])))
       (vspec_ListenInterface (server_Spec (sample_k8s_server []))) = Inr 8"
    by (simp_all add: listening_operator_def sample_k8s_server_def new_operator_def)
  from failed_listener_update_needs_deletion [OF f, of "\<lambda>_. []" "\<lambda>_. []" "Inr []" "''default''"] s
  show ?thesis by blast
qed

section \<open>Saving leases\<close>

definition resp_lease :: "lease_heap \<Rightarrow> Response \<Rightarrow> Lease" where
  "resp_lease h r = h ! the (resp_Lease r)"

lemma group_leases_eq:
  "group_leases h rs k =
    (let ls = filter (\<lambda>l. lease_Subnet l = k) (map (resp_lease h) rs) in if ls = [] then None else Some ls)"
proof -
  have "group_leases h rs = (\<lambda>k. let ls = filter (\<lambda>l. lease_Subnet l = k) (map (resp_lease h) rs) in if ls = [] then None else Some ls)"
    unfolding group_leases_def
    by (induction rs rule: rev_induct) (auto simp: fun_eq_iff resp_lease_def Let_def split: option.split)
  then show ?thesis by simp
qed

lemma record_leases_entry:
  "record_leases now ls m mac =
    (case filter (\<lambda>l. lease_MAC l = mac) ls of
       [] \<Rightarrow> m mac
     | l # ls' \<Rightarrow> Some \<lparr>alease_IP = IP_String (lease_IP (last (l # ls'))), alease_UpdatedAt = now (last (l # ls'))\<rparr>)"
proof (induction ls rule: rev_induct)
  case (snoc x xs)
  then show ?case
    by (auto simp: record_leases_def split: list.splits)
qed (simp add: record_leases_def)

text \<open>The entry of a client in the status of an object.\<close>

definition saved_ip :: "cluster \<Rightarrow> ObjectKey \<Rightarrow> string \<Rightarrow> string option" where
  "saved_ip c key mac =
     (case c key of None \<Rightarrow> None
      | Some sn \<Rightarrow> (case sstat_Leases (subnet_Status sn) of None \<Rightarrow> None | Some m \<Rightarrow> map_option alease_IP (m mac)))"

lemma save_group_entry:
  assumes "save_group get_err update_err now key ls c = Inr c'"
  shows "saved_ip c' k mac =
    (case filter (\<lambda>l. lease_MAC l = mac) ls of
       [] \<Rightarrow> saved_ip c k mac
     | l # ls' \<Rightarrow> if k = key then Some (IP_String (lease_IP (last (l # ls')))) else saved_ip c k mac)"
proof -
  from assms obtain sn where sn: "c key = Some sn"
    and c': "c' = c(key \<mapsto> sn\<lparr>subnet_Status := (subnet_Status sn)\<lparr>sstat_Leases := Some (record_leases now ls
      (case sstat_Leases (subnet_Status sn) of None \<Rightarrow> Map.empty | Some m \<Rightarrow> m))\<rparr>\<rparr>)"
    by (auto simp: save_group_def Let_def split: option.splits)
  show ?thesis
  proof (cases "k = key")
    case True
    then show ?thesis
      using sn by (auto simp: c' saved_ip_def record_leases_entry split: option.split list.split)
  next
    case False
    then show ?thesis by (simp add: c' saved_ip_def split: list.split)
  qed
qed

text \<open>An entry, once written for a group, is only replaced by one of another group.\<close>

definition entry_from :: "Lease set \<Rightarrow> cluster \<Rightarrow> ObjectKey \<Rightarrow> string \<Rightarrow> bool" where
  "entry_from L c key mac \<longleftrightarrow> (\<exists>l \<in> L. lease_MAC l = mac \<and> saved_ip c key mac = Some (IP_String (lease_IP l)))"

lemma save_group_from:
  assumes "save_group get_err update_err now key ls c = Inr c'" "set ls \<subseteq> L"
  shows "entry_from L c k mac \<Longrightarrow> entry_from L c' k mac"
    and "l \<in> set ls \<Longrightarrow> entry_from L c' key (lease_MAC l)"
proof -
  have last: "last (filter P ls) \<in> L \<and> P (last (filter P ls))" if "filter P ls \<noteq> []" for P
    using last_in_set [OF that] assms(2) by auto
  show "entry_from L c' k mac" if "entry_from L c k mac"
    using that last [of "\<lambda>l. lease_MAC l = mac"] save_group_entry [OF assms(1), of k mac]
    by (cases "filter (\<lambda>l. lease_MAC l = mac) ls") (auto simp: entry_from_def)
  show "entry_from L c' key (lease_MAC l)" if l: "l \<in> set ls"
  proof -
    let ?f = "filter (\<lambda>x. lease_MAC x = lease_MAC l) ls"
    have ne: "?f \<noteq> []" using l by (auto simp: filter_empty_conv)
    then obtain x xs where "?f = x # xs" by (cases ?f) auto
    then show ?thesis
      using last [OF ne] save_group_entry [OF assms(1), of key "lease_MAC l"] by (auto simp: entry_from_def)
  qed
qed

lemma save_loop_from:
  assumes "save_loop get_err update_err now keys groups ps c = (c', None)"
    and "\<And>p ls. p \<in> set ps \<Longrightarrow> groups p = Some ls \<Longrightarrow> set ls \<subseteq> L" "set ps \<subseteq> dom groups"
  shows "entry_from L c k mac \<Longrightarrow> entry_from L c' k mac"
    and "p \<in> set ps \<Longrightarrow> keys p = Some key \<Longrightarrow> groups p = Some ls \<Longrightarrow> l \<in> set ls \<Longrightarrow> entry_from L c' key (lease_MAC l)"
proof -
  have "(\<forall>k mac. entry_from L c k mac \<longrightarrow> entry_from L c' k mac) \<and>
      (\<forall>p key ls l. p \<in> set ps \<longrightarrow> keys p = Some key \<longrightarrow> groups p = Some ls \<longrightarrow> l \<in> set ls \<longrightarrow> entry_from L c' key (lease_MAC l))"
    using assms
  proof (induction ps arbitrary: c)
    case (Cons q qs)
    let ?kept = "\<lambda>c. \<forall>k mac. entry_from L c k mac \<longrightarrow> entry_from L c' k mac"
    let ?written = "\<lambda>ps. \<forall>p key ls l. p \<in> set ps \<longrightarrow> keys p = Some key \<longrightarrow> groups p = Some ls \<longrightarrow> l \<in> set ls \<longrightarrow>
      entry_from L c' key (lease_MAC l)"
    have "set qs \<subseteq> dom groups" using Cons.prems(3) by simp
    note ih = Cons.IH [OF _ Cons.prems(2) this, OF _ list.set_intros(2)]
    show ?case
    proof (cases "keys q")
      case None
      with Cons.prems(1) have "?kept c \<and> ?written qs" by (intro ih) simp_all
      with None show ?thesis by auto
    next
      case (Some key)
      from Cons.prems(3) obtain ls where ls: "groups q = Some ls" by auto
      from Cons.prems(1) Some obtain c1 where c1: "save_group get_err update_err now key (the (groups q)) c = Inr c1"
        "save_loop get_err update_err now keys groups qs c1 = (c', None)"
        by (cases "save_group get_err update_err now key (the (groups q)) c") auto
      have "set ls \<subseteq> L" by (rule Cons.prems(2) [OF list.set_intros(1) ls])
      note step = save_group_from [OF c1(1) [unfolded ls option.sel] this]
      have "?kept c1 \<and> ?written qs" using c1(2) by (intro ih)
      with step Some ls show ?thesis by auto
    qed
  qed simp
  then show "entry_from L c k mac \<Longrightarrow> entry_from L c' k mac"
    "p \<in> set ps \<Longrightarrow> keys p = Some key \<Longrightarrow> groups p = Some ls \<Longrightarrow> l \<in> set ls \<Longrightarrow> entry_from L c' key (lease_MAC l)"
    by blast+
qed

text \<open>
  When the callback reports success, the status of the subnet object of every lease of the
  batch holds an entry for the client with the address of a lease of that client in the batch.
\<close>

lemma saved_leases_are_in_the_status:
  assumes "CallbackSaveLeases get_err update_err now ord st c rs = (c', None)"
    and "visits ord (group_leases (srv_leases (op_server st)) rs)"
    and "r \<in> set rs" "l = resp_lease (srv_leases (op_server st)) r"
    and "op_SubnetToObjectKey st (lease_Subnet l) = Some key"
  shows "\<exists>l' \<in> resp_lease (srv_leases (op_server st)) ` set rs. lease_MAC l' = lease_MAC l \<and>
    saved_ip c' key (lease_MAC l) = Some (IP_String (lease_IP l'))"
proof -
  let ?h = "srv_leases (op_server st)"
  let ?L = "resp_lease ?h ` set rs"
  let ?ls = "filter (\<lambda>x. lease_Subnet x = lease_Subnet l) (map (resp_lease ?h) rs)"
  have l: "l \<in> set ?ls" using assms(3,4) by auto
  then have g: "group_leases ?h rs (lease_Subnet l) = Some ?ls"
    by (auto simp: group_leases_eq Let_def filter_empty_conv)
  have sub: "\<And>p ls. p \<in> set ord \<Longrightarrow> group_leases ?h rs p = Some ls \<Longrightarrow> set ls \<subseteq> ?L"
    by (auto simp: group_leases_eq Let_def split: if_splits)
  have dom: "set ord \<subseteq> dom (group_leases ?h rs)" "lease_Subnet l \<in> set ord"
    using assms(2) g by (auto simp: visits_def)
  have "entry_from ?L c' key (lease_MAC l)"
    by (rule save_loop_from(2) [OF assms(1) [unfolded CallbackSaveLeases_def] sub dom(1) dom(2) assms(5) g l])
  then show ?thesis by (simp add: entry_from_def)
qed

lemma group_single: "visits [lease_Subnet (resp_lease h r)] (group_leases h [r])"
  by (auto simp: visits_def group_leases_eq dom_def split: if_splits)

definition saving_operator :: Operator where
  "saving_operator = (new_operator (sample_server\<lparr>srv_leases := full_heap\<rparr>))
     \<lparr>op_SubnetToObjectKey := [''10.1.1.0/24'' \<mapsto> (''default'', ''net'')]\<rparr>"

definition sample_cluster :: cluster where
  "sample_cluster = [(''default'', ''net'') \<mapsto> sample_k8s_subnet]"

definition lease_response :: Response where
  "lease_response = \<lparr>resp_Request = sample_request 1 Map.empty, resp_Response = sample_packet 1 Map.empty, resp_Lease = Some 0\<rparr>"

lemma saving_lease:
  "resp_lease (srv_leases (op_server saving_operator)) lease_response =
     NewLease sample_subnet 1000 (HardwareAddr_String [0, 0, 0, 0, 0, 1]) (ip_of 167837953)"
  "lease_Subnet (resp_lease (srv_leases (op_server saving_operator)) lease_response) = ''10.1.1.0/24''"
  by (simp_all add: resp_lease_def saving_operator_def new_operator_def lease_response_def full_lease)
    (simp add: NewLease_def sample_subnet_def)

theorem saved_leases_are_in_the_status_witness:
  "\<exists>c'. saved_ip c' (''default'', ''net'') (HardwareAddr_String [0, 0, 0, 0, 0, 1]) = Some (IPv4_String 167837953)"
proof -
  let ?h = "srv_leases (op_server saving_operator)"
  have key: "op_SubnetToObjectKey saving_operator ''10.1.1.0/24'' = Some (''default'', ''net'')"
    by (simp add: saving_operator_def)
  have visits: "visits [''10.1.1.0/24''] (group_leases ?h [lease_response])"
    using group_single [of ?h lease_response] by (simp only: saving_lease(2))
  obtain c' where save: "CallbackSaveLeases (\<lambda>_. None) (\<lambda>_. None) (\<lambda>_. 0) [''10.1.1.0/24''] saving_operator sample_cluster
      [lease_response] = (c', None)"
    by (simp add: CallbackSaveLeases_def key save_group_def sample_cluster_def Let_def)
  have "\<exists>l' \<in> resp_lease ?h ` set [lease_response].
      lease_MAC l' = lease_MAC (resp_lease ?h lease_response) \<and>
      saved_ip c' (''default'', ''net'') (lease_MAC (resp_lease ?h lease_response)) = Some (IP_String (lease_IP l'))"
    by (rule saved_leases_are_in_the_status [OF save visits _ refl]) (simp_all add: saving_lease(2) key)
  then show ?thesis by (auto simp: saving_lease(1))
qed

text \<open>
  Runs of the operator in which every subnet object names a network. The condition is on the
  objects: the reconciler registers the network of an object before the server rejects it,
  so an object with an empty network would be registered under it.
\<close>

inductive named_step :: "Operator \<Rightarrow> Operator \<Rightarrow> bool" where
  host_named: "named_step st (fst (HostReconcile ordS get st req))"
| subnet_named: "(\<And>sn. get' = Inr sn \<Longrightarrow> sspec_Subnet (subnet_Spec sn) \<noteq> []) \<Longrightarrow>
    named_step st (fst (SubnetReconcile ordL ordS get' st req))"
| listener_named: "named_step st (fst (ServerReconcile ordL ordS subnets get'' st req))"
| serving_named: "named_step st (st\<lparr>op_server := srv\<rparr>)"

inductive_cases named_stepE: "named_step st st'"

lemma SubnetReconcile_keys:
  assumes "op_SubnetToObjectKey st p = None" "\<And>sn. get = Inr sn \<Longrightarrow> sspec_Subnet (subnet_Spec sn) \<noteq> p"
  shows "op_SubnetToObjectKey (fst (SubnetReconcile ordL ordS get st req)) p = None"
  using assms
  by (auto simp: SubnetReconcile_def Let_def split: prod.splits option.splits sum.splits api_error.splits bool.splits)

lemma other_reconcilers_keys:
  "op_SubnetToObjectKey (fst (HostReconcile ordS get st req)) = op_SubnetToObjectKey st"
  "op_SubnetToObjectKey (fst (ServerReconcile ordL ordS subnets get' st req)) = op_SubnetToObjectKey st"
proof -
  have "op_SubnetToObjectKey (fst (listen_and_initialize ordL ordS subnets sv name s)) = op_SubnetToObjectKey s" for sv name s
    by (simp add: listen_and_initialize_def Let_def split: prod.split option.split)
  then show "op_SubnetToObjectKey (fst (ServerReconcile ordL ordS subnets get' st req)) = op_SubnetToObjectKey st"
    by (auto simp: ServerReconcile_def Let_def split: prod.split option.split sum.split api_error.split)
  show "op_SubnetToObjectKey (fst (HostReconcile ordS get st req)) = op_SubnetToObjectKey st"
    by (auto simp: HostReconcile_def Let_def split: prod.split option.split sum.split api_error.split)
qed

interpretation named: invariant_system named_step "\<lambda>st. op_SubnetToObjectKey st [] = None"
  by unfold_locales (auto elim!: named_stepE simp: other_reconcilers_keys intro: SubnetReconcile_keys)

lemma save_loop_skips:
  assumes "\<And>p. p \<in> set ps \<Longrightarrow> \<not> P p \<Longrightarrow> keys p = None" "\<And>p. P p \<Longrightarrow> keys p \<noteq> None \<Longrightarrow> groups p = groups' p"
  shows "save_loop get_err update_err now keys groups ps c = save_loop get_err update_err now keys groups' (filter P ps) c"
  using assms(1)
proof (induction ps arbitrary: c)
  case (Cons p ps)
  then have ih: "save_loop get_err update_err now keys groups ps c' = save_loop get_err update_err now keys groups' (filter P ps) c'" for c'
    by simp
  show ?case
    using Cons.prems [of p] assms(2) [of p] by (auto simp: ih split: option.split sum.split)
qed simp

text \<open>C35: the lease of a static host is never saved, as long as every subnet object that was reconciled
  names a network: the lease carries no subnet, no object is registered under the empty
  network, and the callback does, and reports, exactly what it would for the rest of the
  batch without the replies to static hosts.\<close>

theorem static_host_lease_is_not_saved:
  assumes "named_step\<^sup>*\<^sup>* (new_operator srv) st" "h = srv_leases (op_server st)" "visits ord (group_leases h rs)"
    and static: "static = (\<lambda>r. \<exists>sn x a b. resp_lease h r = (host_lease sn x)\<lparr>lease_ServerId := a, lease_AckSent := b\<rparr>)"
  shows "\<exists>ord'. visits ord' (group_leases h (filter (\<lambda>r. \<not> static r) rs)) \<and>
    CallbackSaveLeases get_err update_err now ord st c rs =
      CallbackSaveLeases get_err update_err now ord' st c (filter (\<lambda>r. \<not> static r) rs)"
proof -
  let ?rest = "filter (\<lambda>r. \<not> static r) rs"
  let ?P = "\<lambda>p. group_leases h ?rest p \<noteq> None"
  have none: "op_SubnetToObjectKey st [] = None"
    using named.reach_inv [OF assms(1)] by (simp add: new_operator_def)
  have sub: "lease_Subnet (resp_lease h r) = []" if "static r" for r
    using that by (auto simp: static host_lease_def)
  have same: "group_leases h rs p = group_leases h ?rest p" if "p \<noteq> []" for p
  proof -
    have "filter (\<lambda>l. lease_Subnet l = p) (map (resp_lease h) rs) = filter (\<lambda>l. lease_Subnet l = p) (map (resp_lease h) ?rest)"
      using sub that by (induction rs) auto
    then show ?thesis by (simp add: group_leases_eq)
  qed
  have more: "group_leases h rs p \<noteq> None" if "?P p" for p
    using that by (auto simp: group_leases_eq Let_def filter_empty_conv split: if_splits)
  have "visits (filter ?P ord) (group_leases h ?rest)"
    using assms(3) more by (auto simp: visits_def dom_def)
  moreover have "save_loop get_err update_err now (op_SubnetToObjectKey st) (group_leases h rs) ord c =
      save_loop get_err update_err now (op_SubnetToObjectKey st) (group_leases h ?rest) (filter ?P ord) c"
  proof (rule save_loop_skips)
    fix p
    assume "p \<in> set ord" "\<not> ?P p"
    then have "p = []" using assms(3) same [of p] by (auto simp: visits_def)
    then show "op_SubnetToObjectKey st p = None" using none by simp
  next
    fix p
    assume "?P p" "op_SubnetToObjectKey st p \<noteq> None"
    then have "p \<noteq> []" using none by auto
    then show "group_leases h rs p = group_leases h ?rest p" by (rule same)
  qed
  ultimately show ?thesis unfolding CallbackSaveLeases_def assms(2) by blast
qed

theorem static_host_lease_is_not_saved_witness:
  "\<exists>st. named_step\<^sup>*\<^sup>* (new_operator empty_server) st \<and>
     CallbackSaveLeases (\<lambda>_. None) (\<lambda>_. None) (\<lambda>_. 0) [[]] st sample_cluster [lease_response] = (sample_cluster, None)"
proof -
  define lease where "lease = (host_lease sample_subnet sample_host)\<lparr>lease_ServerId := None, lease_AckSent := True\<rparr>"
  define st where "st = (new_operator empty_server)\<lparr>op_server := sample_server\<lparr>srv_leases := [lease]\<rparr>\<rparr>"
  let ?h = "srv_leases (op_server st)"
  have run: "named_step\<^sup>*\<^sup>* (new_operator empty_server) st"
    unfolding st_def by (rule r_into_rtranclp) (rule named_step.serving_named)
  have l: "resp_lease ?h lease_response = lease" by (simp add: resp_lease_def lease_response_def st_def)
  have sub: "lease_Subnet lease = []" by (simp add: lease_def host_lease_def)
  have v: "visits [[]] (group_leases ?h [lease_response])" using group_single [of ?h lease_response] by (simp add: l sub)
  let ?static = "\<lambda>r. \<exists>sn x a b. resp_lease ?h r = (host_lease sn x)\<lparr>lease_ServerId := a, lease_AckSent := b\<rparr>"
  have "?static lease_response" unfolding l lease_def by blast
  then have empty: "filter (\<lambda>r. \<not> ?static r) [lease_response] = []" by simp
  obtain ord' where o: "visits ord' (group_leases ?h [])"
    "CallbackSaveLeases (\<lambda>_. None) (\<lambda>_. None) (\<lambda>_. 0) [[]] st sample_cluster [lease_response] =
     CallbackSaveLeases (\<lambda>_. None) (\<lambda>_. None) (\<lambda>_. 0) ord' st sample_cluster []"
    using static_host_lease_is_not_saved [OF run refl v refl, of "\<lambda>_. None" "\<lambda>_. None" "\<lambda>_. 0" sample_cluster, unfolded empty] by blast
  from o(1) have "ord' = []" by (simp add: visits_def group_leases_def)
  with o(2) run show ?thesis by (auto simp: CallbackSaveLeases_def)
qed

end
