(* ===== verification/Deep_Copy.thy ===== *)
theory Deep_Copy
  imports Dhcp_Prelude
begin

text \<open>
  Copying in a store of shared cells. Slices and maps of Go are references: a struct
  assignment copies the reference and both structs go on sharing the array behind it. The
  store is the list of the cells allocated so far, an address is an index, allocation
  appends. The locale \<^term>\<open>heap_value\<close> says how a value with references reads its store, the
  locale \<^term>\<open>deep_copier\<close> what a deep copy promises, and the lemmas on pairs and on views
  build the copier of a struct from the copiers of its fields.
\<close>

section \<open>Values that read a store\<close>

text \<open>
  \<^term>\<open>reach\<close> are the addresses a value depends on, \<^term>\<open>ok\<close> that they exist and hold cells of the
  right kind, \<^term>\<open>den\<close> the value the references denote.
\<close>

locale heap_value =
  fixes ok :: "'s list \<Rightarrow> 'a \<Rightarrow> bool"
    and reach :: "'s list \<Rightarrow> 'a \<Rightarrow> nat set"
    and den :: "'s list \<Rightarrow> 'a \<Rightarrow> 'v"
  assumes reach_bound: "ok st a \<Longrightarrow> p \<in> reach st a \<Longrightarrow> p < length st"
    and frame: "ok st a \<Longrightarrow> length st \<le> length st' \<Longrightarrow> (\<And>p. p \<in> reach st a \<Longrightarrow> st' ! p = st ! p) \<Longrightarrow>
      ok st' a \<and> reach st' a = reach st a \<and> den st' a = den st a"
begin

lemma grow:
  assumes "ok st a"
  shows "ok (st @ ys) a" "reach (st @ ys) a = reach st a" "den (st @ ys) a = den st a"
  using frame [OF assms, of "st @ ys"] reach_bound [OF assms] by (simp_all add: nth_append)

lemma unreached_write:
  assumes "ok st a" and "p \<notin> reach st a"
  shows "ok (st[p := c]) a" "reach (st[p := c]) a = reach st a" "den (st[p := c]) a = den st a"
proof -
  have "st[p := c] ! q = st ! q" if "q \<in> reach st a" for q
    using that assms(2) by (metis nth_list_update_neq)
  then show "ok (st[p := c]) a" "reach (st[p := c]) a = reach st a" "den (st[p := c]) a = den st a"
    using frame [OF assms(1), of "st[p := c]"] by simp_all
qed

end

section \<open>Deep copies\<close>

definition fresh_copy ::
  "('s list \<Rightarrow> 'a \<Rightarrow> bool) \<Rightarrow> ('s list \<Rightarrow> 'a \<Rightarrow> nat set) \<Rightarrow> ('s list \<Rightarrow> 'a \<Rightarrow> 'v) \<Rightarrow>
   's list \<Rightarrow> 'a \<Rightarrow> 's list \<times> 'a \<Rightarrow> bool" where
  "fresh_copy ok reach den st a r \<longleftrightarrow>
     (\<exists>ys. fst r = st @ ys) \<and> ok (fst r) (snd r) \<and> den (fst r) (snd r) = den st a \<and>
     reach (fst r) (snd r) \<subseteq> {length st ..< length (fst r)}"

locale deep_copier = heap_value ok reach den
  for ok :: "'s list \<Rightarrow> 'a \<Rightarrow> bool" and reach :: "'s list \<Rightarrow> 'a \<Rightarrow> nat set" and den :: "'s list \<Rightarrow> 'a \<Rightarrow> 'v" +
  fixes copier :: "'s list \<Rightarrow> 'a \<Rightarrow> 's list \<times> 'a"
  assumes copies: "ok st a \<Longrightarrow> fresh_copy ok reach den st a (copier st a)"
begin

lemma copyE:
  assumes "ok st a" and "copier st a = (st', b)"
  obtains ys where "st' = st @ ys" "ok st' b" "den st' b = den st a"
    "reach st' b \<subseteq> {length st ..< length st'}"
  using copies [OF assms(1)] assms(2) by (auto simp: fresh_copy_def)

lemma original_kept:
  assumes "ok st a" and "copier st a = (st', b)"
  shows "ok st' a" "reach st' a = reach st a" "den st' a = den st a"
  using copyE [OF assms] grow [OF assms(1)] by metis+

lemma copy_disjoint:
  assumes "ok st a" and "copier st a = (st', b)"
  shows "reach st' a \<inter> reach st' b = {}"
  using copyE [OF assms] original_kept(2) [OF assms] reach_bound [OF assms(1)]
  by (metis (no_types, lifting) Int_emptyI atLeastLessThan_iff in_mono linorder_not_less)

text \<open>A write through the copy leaves the original as it was, and the other way round.\<close>

theorem independent:
  assumes "ok st a" and "copier st a = (st', b)"
  shows "p \<in> reach st' b \<Longrightarrow> den (st'[p := c]) a = den st a"
    and "p \<in> reach st' a \<Longrightarrow> den (st'[p := c]) b = den st a"
proof -
  show "den (st'[p := c]) a = den st a" if "p \<in> reach st' b"
  proof -
    have "p \<notin> reach st' a" using copy_disjoint [OF assms] that by auto
    then show ?thesis
      using unreached_write(3) [OF original_kept(1) [OF assms]] original_kept(3) [OF assms] by simp
  qed
  show "den (st'[p := c]) b = den st a" if "p \<in> reach st' a"
  proof -
    have "ok st' b" "den st' b = den st a" using copyE [OF assms] by metis+
    then show ?thesis
      using unreached_write(3) [of st' b p c] copy_disjoint [OF assms] that by auto
  qed
qed

end

section \<open>Building copiers\<close>

text \<open>A plain value holds no reference: assignment copies it.\<close>

lemma copier_plain:
  assumes "\<And>a. f a = a"
  shows "deep_copier (\<lambda>st a. True) (\<lambda>st a. {}) (\<lambda>st a. a) (\<lambda>st a. (st, f a))"
  using assms by unfold_locales (simp_all add: fresh_copy_def)

definition copy_pair ::
  "('s list \<Rightarrow> 'a \<Rightarrow> 's list \<times> 'a) \<Rightarrow> ('s list \<Rightarrow> 'b \<Rightarrow> 's list \<times> 'b) \<Rightarrow>
   's list \<Rightarrow> 'a \<times> 'b \<Rightarrow> 's list \<times> ('a \<times> 'b)" where
  "copy_pair c d st x =
     (let (st1, a) = c st (fst x); (st2, b) = d st1 (snd x) in (st2, (a, b)))"

lemma copier_pair:
  assumes c: "deep_copier ok1 reach1 den1 c" and d: "deep_copier ok2 reach2 den2 d"
  shows "deep_copier (\<lambda>st x. ok1 st (fst x) \<and> ok2 st (snd x)) (\<lambda>st x. reach1 st (fst x) \<union> reach2 st (snd x))
           (\<lambda>st x. (den1 st (fst x), den2 st (snd x))) (copy_pair c d)"
proof -
  note c1 = deep_copier.axioms(1) [OF c] and d1 = deep_copier.axioms(1) [OF d]
  show ?thesis
  proof
    fix st and x p
    assume "ok1 st (fst x) \<and> ok2 st (snd x)" "p \<in> reach1 st (fst x) \<union> reach2 st (snd x)"
    then show "p < length st"
      using heap_value.reach_bound [OF c1] heap_value.reach_bound [OF d1] by blast
  next
    fix st st' and x
    assume ok: "ok1 st (fst x) \<and> ok2 st (snd x)" and le: "length st \<le> length st'"
      and same: "\<And>p. p \<in> reach1 st (fst x) \<union> reach2 st (snd x) \<Longrightarrow> st' ! p = st ! p"
    show "(ok1 st' (fst x) \<and> ok2 st' (snd x)) \<and>
      reach1 st' (fst x) \<union> reach2 st' (snd x) = reach1 st (fst x) \<union> reach2 st (snd x) \<and>
      (den1 st' (fst x), den2 st' (snd x)) = (den1 st (fst x), den2 st (snd x))"
      using heap_value.frame [OF c1 _ le] heap_value.frame [OF d1 _ le] ok same by simp
  next
    fix st and x
    assume ok: "ok1 st (fst x) \<and> ok2 st (snd x)"
    obtain st1 a where a: "c st (fst x) = (st1, a)" by fastforce
    obtain st2 b where b: "d st1 (snd x) = (st2, b)" by fastforce
    obtain ys where ys: "st1 = st @ ys" "ok1 st1 a" "den1 st1 a = den1 st (fst x)"
      "reach1 st1 a \<subseteq> {length st ..< length st1}"
      using deep_copier.copyE [OF c _ a] ok by metis
    have okb: "ok2 st1 (snd x)" and denb: "den2 st1 (snd x) = den2 st (snd x)"
      using heap_value.grow [OF d1] ok ys(1) by metis+
    obtain zs where zs: "st2 = st1 @ zs" "ok2 st2 b" "den2 st2 b = den2 st1 (snd x)"
      "reach2 st2 b \<subseteq> {length st1 ..< length st2}"
      using deep_copier.copyE [OF d okb b] by metis
    have a2: "ok1 st2 a" "den1 st2 a = den1 st1 a" "reach1 st2 a = reach1 st1 a"
      using heap_value.grow [OF c1 ys(2)] zs(1) by metis+
    have le: "length st \<le> length st1" "length st1 \<le> length st2" using ys(1) zs(1) by simp_all
    have "reach1 st2 a \<union> reach2 st2 b \<subseteq> {length st ..< length st2}"
      using ys(4) zs(4) le unfolding a2(3) by force
    moreover have "copy_pair c d st x = (st2, (a, b))" by (simp add: copy_pair_def a b)
    moreover have "\<exists>us. st2 = st @ us" using ys(1) zs(1) by simp
    ultimately show "fresh_copy (\<lambda>st x. ok1 st (fst x) \<and> ok2 st (snd x)) (\<lambda>st x. reach1 st (fst x) \<union> reach2 st (snd x))
        (\<lambda>st x. (den1 st (fst x), den2 st (snd x))) st x (copy_pair c d st x)"
      using a2(1,2) ys(3) zs(2,3) denb by (simp add: fresh_copy_def)
  qed
qed

text \<open>A struct whose references are all in one view of it.\<close>

lemma copier_view:
  assumes c: "deep_copier ok reach den c"
    and get: "\<And>x b. view (replace x b) = b"
    and rest: "\<And>x b v. make (replace x b) v = make x v"
    and copies: "\<And>st x. copy' st x = (let (st', b) = c st (view x) in (st', replace x b))"
  shows "deep_copier (\<lambda>st x. ok st (view x)) (\<lambda>st x. reach st (view x)) (\<lambda>st x. make x (den st (view x))) copy'"
proof -
  note c1 = deep_copier.axioms(1) [OF c]
  show ?thesis
  proof
    fix st and x p
    assume "ok st (view x)" "p \<in> reach st (view x)"
    then show "p < length st" using heap_value.reach_bound [OF c1] by blast
  next
    fix st st' and x
    assume ok: "ok st (view x)" and le: "length st \<le> length st'"
      and same: "\<And>p. p \<in> reach st (view x) \<Longrightarrow> st' ! p = st ! p"
    show "ok st' (view x) \<and> reach st' (view x) = reach st (view x) \<and>
      make x (den st' (view x)) = make x (den st (view x))"
      using heap_value.frame [OF c1 ok le same] by simp
  next
    fix st and x
    assume ok: "ok st (view x)"
    obtain st' b where b: "c st (view x) = (st', b)" by fastforce
    then show "fresh_copy (\<lambda>st x. ok st (view x)) (\<lambda>st x. reach st (view x)) (\<lambda>st x. make x (den st (view x))) st x (copy' st x)"
      using deep_copier.copies [OF c ok] by (simp add: fresh_copy_def copies get rest)
  qed
qed

section \<open>Slices\<close>

text \<open>
  A slice is a window of an array; nil is \<^term>\<open>None\<close>. A cell of the store holds one array. Which
  kind of array is said by an embedding and a partial projection.
\<close>

record slice =
  sl_arr :: nat
  sl_off :: nat
  sl_len :: nat

definition elems :: "('s \<Rightarrow> 'e list option) \<Rightarrow> 's list \<Rightarrow> slice \<Rightarrow> 'e list" where
  "elems prj st s = (case prj (st ! sl_arr s) of Some xs \<Rightarrow> take (sl_len s) (drop (sl_off s) xs) | None \<Rightarrow> [])"

definition window_ok :: "('s \<Rightarrow> 'e list option) \<Rightarrow> 's list \<Rightarrow> slice \<Rightarrow> bool" where
  "window_ok prj st s \<longleftrightarrow> sl_arr s < length st \<and>
     (case prj (st ! sl_arr s) of Some xs \<Rightarrow> sl_off s + sl_len s \<le> length xs | None \<Rightarrow> False)"

text \<open>\<^verbatim>\<open>make([]T, n)\<close>, \<^verbatim>\<open>copy(dst, src)\<close> and \<^verbatim>\<open>dst[i] = x\<close>.\<close>

definition make_slice :: "('e list \<Rightarrow> 's) \<Rightarrow> 'e \<Rightarrow> nat \<Rightarrow> 's list \<Rightarrow> 's list \<times> slice" where
  "make_slice emb z n st = (st @ [emb (replicate n z)], \<lparr>sl_arr = length st, sl_off = 0, sl_len = n\<rparr>)"

definition copy_slice :: "('e list \<Rightarrow> 's) \<Rightarrow> ('s \<Rightarrow> 'e list option) \<Rightarrow> 's list \<Rightarrow> slice \<Rightarrow> slice \<Rightarrow> 's list" where
  "copy_slice emb prj st dst src =
     (case prj (st ! sl_arr dst) of
        None \<Rightarrow> st
      | Some ys \<Rightarrow>
          let n = min (sl_len dst) (sl_len src) in
          st[sl_arr dst := emb (take (sl_off dst) ys @ take n (elems prj st src) @ drop (sl_off dst + n) ys)])"

definition store_elem ::
  "('e list \<Rightarrow> 's) \<Rightarrow> ('s \<Rightarrow> 'e list option) \<Rightarrow> 's list \<Rightarrow> slice \<Rightarrow> nat \<Rightarrow> 'e \<Rightarrow> 's list" where
  "store_elem emb prj st dst i x =
     (case prj (st ! sl_arr dst) of None \<Rightarrow> st | Some ys \<Rightarrow> st[sl_arr dst := emb (ys[sl_off dst + i := x])])"

text \<open>
  The block \<^verbatim>\<open>if in.F != nil { *out = make(...); copy(*out, *in) }\<close> of an array of plain values,
  and the block that copies the elements of an array one by one.
\<close>

definition clone_slice ::
  "('e list \<Rightarrow> 's) \<Rightarrow> ('s \<Rightarrow> 'e list option) \<Rightarrow> 'e \<Rightarrow> 's list \<Rightarrow> slice option \<Rightarrow> 's list \<times> slice option" where
  "clone_slice emb prj z st v =
     (case v of
        None \<Rightarrow> (st, None)
      | Some src \<Rightarrow> let (st, dst) = make_slice emb z (sl_len src) st in (copy_slice emb prj st dst src, Some dst))"

definition clone_items ::
  "('e list \<Rightarrow> 's) \<Rightarrow> ('s \<Rightarrow> 'e list option) \<Rightarrow> 'e \<Rightarrow> ('s list \<Rightarrow> 'e \<Rightarrow> 's list \<times> 'e) \<Rightarrow>
   's list \<Rightarrow> slice option \<Rightarrow> 's list \<times> slice option" where
  "clone_items emb prj z copier st v =
     (case v of
        None \<Rightarrow> (st, None)
      | Some src \<Rightarrow>
          let (st, dst) = make_slice emb z (sl_len src) st in
          (foldl (\<lambda>st i. let (st, x) = copier st (elems prj st src ! i) in store_elem emb prj st dst i x)
             st [0..<sl_len src], Some dst))"

definition slice_ok :: "('s \<Rightarrow> 'e list option) \<Rightarrow> 's list \<Rightarrow> slice option \<Rightarrow> bool" where
  "slice_ok prj st v = (case v of None \<Rightarrow> True | Some s \<Rightarrow> window_ok prj st s)"

definition slice_reach :: "'s list \<Rightarrow> slice option \<Rightarrow> nat set" where
  "slice_reach st v = (case v of None \<Rightarrow> {} | Some s \<Rightarrow> {sl_arr s})"

definition slice_den :: "('s \<Rightarrow> 'e list option) \<Rightarrow> 's list \<Rightarrow> slice option \<Rightarrow> 'e list option" where
  "slice_den prj st v = map_option (elems prj st) v"

definition items_ok ::
  "('s \<Rightarrow> 'e list option) \<Rightarrow> ('s list \<Rightarrow> 'e \<Rightarrow> bool) \<Rightarrow> 's list \<Rightarrow> slice option \<Rightarrow> bool" where
  "items_ok prj ok st v = (case v of None \<Rightarrow> True | Some s \<Rightarrow> window_ok prj st s \<and> list_all (ok st) (elems prj st s))"

definition items_reach ::
  "('s \<Rightarrow> 'e list option) \<Rightarrow> ('s list \<Rightarrow> 'e \<Rightarrow> nat set) \<Rightarrow> 's list \<Rightarrow> slice option \<Rightarrow> nat set" where
  "items_reach prj reach st v =
     (case v of None \<Rightarrow> {} | Some s \<Rightarrow> insert (sl_arr s) (\<Union>x\<in>set (elems prj st s). reach st x))"

definition items_den ::
  "('s \<Rightarrow> 'e list option) \<Rightarrow> ('s list \<Rightarrow> 'e \<Rightarrow> 'v) \<Rightarrow> 's list \<Rightarrow> slice option \<Rightarrow> 'v list option" where
  "items_den prj den st v = map_option (\<lambda>s. map (den st) (elems prj st s)) v"

lemma length_elems: "window_ok prj st s \<Longrightarrow> length (elems prj st s) = sl_len s"
  by (auto simp: window_ok_def elems_def split: option.splits)

lemma window_grow:
  assumes "window_ok prj st s"
  shows "window_ok prj (st @ ys) s" "elems prj (st @ ys) s = elems prj st s"
  using assms by (auto simp: window_ok_def elems_def nth_append split: option.splits)

lemma window_frame:
  assumes "window_ok prj st s" and "length st \<le> length st'" and "st' ! sl_arr s = st ! sl_arr s"
  shows "window_ok prj st' s" "elems prj st' s = elems prj st s"
  using assms by (auto simp: window_ok_def elems_def split: option.splits)

lemmas slice_defs = slice_ok_def slice_reach_def slice_den_def clone_slice_def make_slice_def copy_slice_def
lemmas items_defs = items_ok_def items_reach_def items_den_def clone_items_def make_slice_def

text \<open>The invariant of a copying loop: the elements copied so far, behind the array being filled.\<close>

definition copied ::
  "('s list \<Rightarrow> 'e \<Rightarrow> bool) \<Rightarrow> ('s list \<Rightarrow> 'e \<Rightarrow> nat set) \<Rightarrow> ('s list \<Rightarrow> 'e \<Rightarrow> 'v) \<Rightarrow>
   's list \<Rightarrow> 'e list \<Rightarrow> 'e list \<Rightarrow> 's list \<Rightarrow> bool" where
  "copied ok reach den st0 xs bs st \<longleftrightarrow>
     map (den st) bs = map (den st0) xs \<and>
     (\<forall>b\<in>set bs. ok st b \<and> reach st b \<subseteq> {length st0 <..< length st})"

lemma copied_step:
  assumes c: "deep_copier ok reach den copier"
    and pre: "copied ok reach den st0 xs bs (st0 @ cell # zs)" and okx: "ok st0 x"
    and b: "copier (st0 @ cell # zs) x = (st', b)"
  shows "\<exists>us. st' = st0 @ cell # zs @ us \<and> copied ok reach den st0 (xs @ [x]) (bs @ [b]) (st'[length st0 := cell'])"
proof -
  note c1 = deep_copier.axioms(1) [OF c]
  define st where "st = st0 @ cell # zs"
  define st2 where "st2 = st'[length st0 := cell']"
  obtain us where us: "st' = st @ us" "ok st' b" "den st' b = den st x" "reach st' b \<subseteq> {length st ..< length st'}"
    using deep_copier.copyE [OF c heap_value.grow(1) [OF c1 okx] b] unfolding st_def by metis
  have untouched: "ok st2 y \<and> reach st2 y = reach st' y \<and> den st2 y = den st' y"
    if "ok st' y" "reach st' y \<subseteq> {length st0 <..< length st'}" for y
  proof -
    have "length st0 \<notin> reach st' y" using that(2) by auto
    then show ?thesis unfolding st2_def using heap_value.unreached_write [OF c1 that(1)] by simp
  qed
  have old: "ok st2 y \<and> reach st2 y \<subseteq> {length st0 <..< length st2} \<and> den st2 y = den st y" if "y \<in> set bs" for y
  proof -
    from pre that have y: "ok st y" "reach st y \<subseteq> {length st0 <..< length st}" by (simp_all add: copied_def st_def)
    then have "ok st' y" "reach st' y = reach st y" "den st' y = den st y"
      using heap_value.grow [OF c1 y(1), of us] us(1) by simp_all
    moreover have "{length st0 <..< length st} \<subseteq> {length st0 <..< length st'}" by (auto simp: us(1))
    ultimately show ?thesis using untouched [of y] y(2) by (auto simp: st2_def)
  qed
  have "length st0 < length st" by (simp add: st_def)
  then have "reach st' b \<subseteq> {length st0 <..< length st'}" using us(4) by auto
  then have new: "ok st2 b \<and> reach st2 b \<subseteq> {length st0 <..< length st2} \<and> den st2 b = den st0 x"
    using untouched [OF us(2)] us(3) heap_value.grow(3) [OF c1 okx, of "cell # zs"] by (simp add: st2_def st_def)
  have "map (den st2) bs = map (den st0) xs"
    using pre old by (simp add: copied_def st_def cong: map_cong)
  then have "copied ok reach den st0 (xs @ [x]) (bs @ [b]) st2"
    using old new by (simp add: copied_def)
  then show ?thesis using us(1) by (auto simp: st_def st2_def)
qed

text \<open>Arrays of plain values.\<close>

locale cell_kind =
  fixes emb :: "'e list \<Rightarrow> 's" and prj :: "'s \<Rightarrow> 'e list option"
  assumes prj_emb [simp]: "prj (emb xs) = Some xs"
begin

lemma clone_slice_window:
  assumes "window_ok prj st src"
  shows "clone_slice emb prj z st (Some src) =
    (st @ [emb (elems prj st src)], Some \<lparr>sl_arr = length st, sl_off = 0, sl_len = sl_len src\<rparr>)"
  using window_grow(2) [OF assms] length_elems [OF assms]
  by (simp add: slice_defs Let_def)

lemma whole_cell:
  "window_ok prj (st @ emb xs # ys) \<lparr>sl_arr = length st, sl_off = 0, sl_len = length xs\<rparr>"
  "elems prj (st @ emb xs # ys) \<lparr>sl_arr = length st, sl_off = 0, sl_len = length xs\<rparr> = xs"
  by (simp_all add: window_ok_def elems_def nth_append)

sublocale slices: deep_copier "slice_ok prj" slice_reach "slice_den prj" "clone_slice emb prj z"
proof
  fix st v p
  assume "slice_ok prj st v" "p \<in> slice_reach st v"
  then show "p < length st" by (auto simp: slice_defs window_ok_def split: option.splits)
next
  fix st st' :: "'s list" and v
  assume ok: "slice_ok prj st v" and le: "length st \<le> length st'"
    and same: "\<And>p. p \<in> slice_reach st v \<Longrightarrow> st' ! p = st ! p"
  show "slice_ok prj st' v \<and> slice_reach st' v = slice_reach st v \<and> slice_den prj st' v = slice_den prj st v"
    using window_frame [OF _ le, of prj] ok same by (cases v) (auto simp: slice_defs)
next
  fix st v
  assume ok: "slice_ok prj st v"
  show "fresh_copy (slice_ok prj) slice_reach (slice_den prj) st v (clone_slice emb prj z st v)"
  proof (cases v)
    case None then show ?thesis by (simp add: slice_defs fresh_copy_def)
  next
    case (Some src)
    then have w: "window_ok prj st src" using ok by (simp add: slice_ok_def)
    show ?thesis
      using whole_cell [of st "elems prj st src" "[]"] clone_slice_window [OF w, of z] length_elems [OF w]
      by (simp add: Some fresh_copy_def slice_ok_def slice_reach_def slice_den_def)
  qed
qed

text \<open>Arrays of structs that hold references themselves.\<close>

lemma copy_loop:
  assumes c: "deep_copier ok reach den copier"
    and w: "window_ok prj st0 src" and oks: "list_all (ok st0) (elems prj st0 src)"
    and dst: "dst = \<lparr>sl_arr = length st0, sl_off = 0, sl_len = sl_len src\<rparr>"
    and k: "k \<le> sl_len src"
  shows "\<exists>bs zs. foldl (\<lambda>st i. let (st, x) = copier st (elems prj st src ! i) in store_elem emb prj st dst i x)
        (st0 @ [emb (replicate (sl_len src) z)]) [0..<k] = st0 @ emb (bs @ replicate (sl_len src - k) z) # zs \<and>
      length bs = k \<and>
      copied ok reach den st0 (take k (elems prj st0 src)) bs (st0 @ emb (bs @ replicate (sl_len src - k) z) # zs)"
  using k
proof (induction k)
  case 0 show ?case by (intro exI [of _ "[]"]) (simp add: copied_def)
next
  case (Suc k)
  define n where "n = sl_len src"
  define loop where "loop j = foldl (\<lambda>st i. let (st, x) = copier st (elems prj st src ! i) in store_elem emb prj st dst i x)
        (st0 @ [emb (replicate n z)]) [0..<j]" for j
  obtain bs zs where st: "loop k = st0 @ emb (bs @ replicate (n - k) z) # zs" and len: "length bs = k"
    and pre: "copied ok reach den st0 (take k (elems prj st0 src)) bs (st0 @ emb (bs @ replicate (n - k) z) # zs)"
    using Suc by (auto simp: n_def loop_def)
  have kn: "k < n" and kl: "k < length (elems prj st0 src)" using Suc.prems length_elems [OF w] by (simp_all add: n_def)
  define x where "x = elems prj st0 src ! k"
  have read: "elems prj (loop k) src ! k = x" by (simp add: st window_grow(2) [OF w] x_def)
  have okx: "ok st0 x" using oks kl by (simp add: list_all_length x_def)
  obtain st' b where b: "copier (loop k) x = (st', b)" by fastforce
  from copied_step [OF c pre okx b [unfolded st], of "emb ((bs @ [b]) @ replicate (n - Suc k) z)"]
  obtain us where us: "st' = st0 @ emb (bs @ replicate (n - k) z) # zs @ us"
    and post: "copied ok reach den st0 (take k (elems prj st0 src) @ [x]) (bs @ [b]) (st'[length st0 := emb ((bs @ [b]) @ replicate (n - Suc k) z)])"
    by blast
  have "n - k = Suc (n - Suc k)" using kn by simp
  then have "(bs @ replicate (n - k) z)[k := b] = (bs @ [b]) @ replicate (n - Suc k) z"
    using len by (simp add: list_update_append)
  then have "store_elem emb prj st' dst k b = st0 @ emb ((bs @ [b]) @ replicate (n - Suc k) z) # zs @ us"
    by (simp add: store_elem_def dst us nth_append)
  then have "loop (Suc k) = st0 @ emb ((bs @ [b]) @ replicate (n - Suc k) z) # zs @ us"
    using read b by (simp add: loop_def)
  then show ?case
    using len post kl unfolding n_def [symmetric] loop_def [symmetric]
    by (intro exI [of _ "bs @ [b]"] exI [of _ "zs @ us"]) (simp add: us take_Suc_conv_app_nth x_def)
qed

lemma copier_items:
  assumes c: "deep_copier ok reach den copier"
  shows "deep_copier (items_ok prj ok) (items_reach prj reach) (items_den prj den) (clone_items emb prj z copier)"
proof -
  note c1 = deep_copier.axioms(1) [OF c]
  show ?thesis
  proof
    fix st v p
    assume "items_ok prj ok st v" "p \<in> items_reach prj reach st v"
    then show "p < length st"
      using heap_value.reach_bound [OF c1]
      by (auto simp: items_defs window_ok_def list_all_iff split: option.splits)
  next
    fix st st' :: "'s list" and v
    assume ok: "items_ok prj ok st v" and le: "length st \<le> length st'"
      and same: "\<And>p. p \<in> items_reach prj reach st v \<Longrightarrow> st' ! p = st ! p"
    show "items_ok prj ok st' v \<and> items_reach prj reach st' v = items_reach prj reach st v \<and>
        items_den prj den st' v = items_den prj den st v"
    proof (cases v)
      case None then show ?thesis by (simp add: items_defs)
    next
      case (Some s)
      then have w: "window_ok prj st s" and each: "\<And>x. x \<in> set (elems prj st s) \<Longrightarrow> ok st x"
        and here: "st' ! sl_arr s = st ! sl_arr s"
        and there: "\<And>x p. x \<in> set (elems prj st s) \<Longrightarrow> p \<in> reach st x \<Longrightarrow> st' ! p = st ! p"
        using ok same by (auto simp: items_defs list_all_iff)
      have "ok st' x \<and> reach st' x = reach st x \<and> den st' x = den st x" if "x \<in> set (elems prj st s)" for x
        using heap_value.frame [OF c1 each [OF that] le there [OF that]] by blast
      then show ?thesis
        using window_frame [OF w le here] by (simp add: Some items_defs list_all_iff)
    qed
  next
    fix st v
    assume ok: "items_ok prj ok st v"
    show "fresh_copy (items_ok prj ok) (items_reach prj reach) (items_den prj den) st v (clone_items emb prj z copier st v)"
    proof (cases v)
      case None then show ?thesis by (simp add: items_defs fresh_copy_def)
    next
      case (Some src)
      then have w: "window_ok prj st src" and oks: "list_all (ok st) (elems prj st src)"
        using ok by (simp_all add: items_ok_def)
      define dst where "dst = \<lparr>sl_arr = length st, sl_off = 0, sl_len = sl_len src\<rparr>"
      from copy_loop [OF c w oks dst_def order_refl, of z] obtain bs zs where
        r: "clone_items emb prj z copier st v = (st @ emb bs # zs, Some dst)" and len: "length bs = sl_len src"
        and all: "copied ok reach den st (elems prj st src) bs (st @ emb bs # zs)"
        using length_elems [OF w] by (auto simp: Some clone_items_def make_slice_def dst_def)
      have "window_ok prj (st @ emb bs # zs) dst" "elems prj (st @ emb bs # zs) dst = bs"
        using whole_cell [of st bs zs] by (simp_all add: dst_def len)
      then show ?thesis
        using all unfolding r fresh_copy_def
        by (force simp: Some items_ok_def items_reach_def items_den_def copied_def list_all_iff dst_def)
    qed
  qed
qed

end

end
