(* ===== verification/K8s_DeepCopy.thy ===== *)
theory K8s_DeepCopy
  imports K8s_Types Deep_Copy "HOL-Library.AList"
begin

text \<open>
  \<^verbatim>\<open>api/v1alpha1/zz_generated.deepcopy.go\<close>: the deep copies of the Kubernetes objects, on the
  objects as Go lays them out. A struct is a value; its slices and maps are references into
  a store of cells. The metadata of an object (\<^verbatim>\<open>TypeMeta\<close>, \<^verbatim>\<open>ObjectMeta\<close>, \<^verbatim>\<open>ListMeta\<close>,
  \<^verbatim>\<open>OwnerReference\<close>) and the copies of it are those of the Kubernetes library: their types and
  functions are parameters, with cells of their own in the store. The theorems say that the
  copy of every object denotes the value of the original and shares no cell with it.
\<close>

section \<open>The objects\<close>

record DHCPHostSpec_obj =
  oh_Subnet :: string
  oh_MAC :: string
  oh_IP :: string
  oh_Gateway :: string
  oh_HostName :: string
  oh_DNS :: "slice option"
  oh_Options :: "slice option"
  oh_ServerHostName :: string
  oh_BootFileName :: string
  oh_LeaseTime :: int

type_synonym DHCPHostStatus = unit

record ('t, 'm) DHCPHost_obj =
  oh_TypeMeta :: 't
  oh_ObjectMeta :: 'm
  oh_Spec :: DHCPHostSpec_obj
  oh_Status :: DHCPHostStatus

record ('t, 'm) DHCPHostList =
  ohl_TypeMeta :: 't
  ohl_ListMeta :: 'm
  ohl_Items :: "slice option"

record ('t, 'm) DHCPServer_obj =
  ov_TypeMeta :: 't
  ov_ObjectMeta :: 'm
  ov_Spec :: DHCPServerSpec
  ov_Status :: DHCPServerStatus

record ('t, 'm) DHCPServerList =
  ovl_TypeMeta :: 't
  ovl_ListMeta :: 'm
  ovl_Items :: "slice option"

record 'm DHCPSubnetSpec_obj =
  os_Subnet :: string
  os_RangeFrom :: string
  os_RangeTo :: string
  os_Gateway :: string
  os_DNS :: "slice option"
  os_Options :: "slice option"
  os_ServerHostName :: string
  os_BootFileName :: string
  os_LeaseTime :: int
  os_Server :: 'm

text \<open>A map is the address of its cell, nil is \<^term>\<open>None\<close>.\<close>

record DHCPSubnetStatus_obj =
  os_ErrorMessage :: string
  os_Leases :: "nat option"

record ('t, 'm) DHCPSubnet_obj =
  os_TypeMeta :: 't
  os_ObjectMeta :: 'm
  os_Spec :: "'m DHCPSubnetSpec_obj"
  os_Status :: DHCPSubnetStatus_obj

record ('t, 'm) DHCPSubnetList =
  osl_TypeMeta :: 't
  osl_ListMeta :: 'm
  osl_Items :: "slice option"

section \<open>The store\<close>

datatype ('x, 't, 'm) cell =
  StringArray "string list"
| OptionArray "ApiOption list"
| LeaseMap "(string \<times> ApiLease) list"
| HostArray "('t, 'm) DHCPHost_obj list"
| ServerArray "('t, 'm) DHCPServer_obj list"
| SubnetArray "('t, 'm) DHCPSubnet_obj list"
| LibraryCell 'x

fun strings_of :: "('x, 't, 'm) cell \<Rightarrow> string list option" where
  "strings_of (StringArray xs) = Some xs" | "strings_of _ = None"

fun options_of :: "('x, 't, 'm) cell \<Rightarrow> ApiOption list option" where
  "options_of (OptionArray xs) = Some xs" | "options_of _ = None"

fun leases_of :: "('x, 't, 'm) cell \<Rightarrow> (string \<times> ApiLease) list option" where
  "leases_of (LeaseMap xs) = Some xs" | "leases_of _ = None"

fun hosts_of :: "('x, 't, 'm) cell \<Rightarrow> ('t, 'm) DHCPHost_obj list option" where
  "hosts_of (HostArray xs) = Some xs" | "hosts_of _ = None"

fun servers_of :: "('x, 't, 'm) cell \<Rightarrow> ('t, 'm) DHCPServer_obj list option" where
  "servers_of (ServerArray xs) = Some xs" | "servers_of _ = None"

fun subnets_of :: "('x, 't, 'm) cell \<Rightarrow> ('t, 'm) DHCPSubnet_obj list option" where
  "subnets_of (SubnetArray xs) = Some xs" | "subnets_of _ = None"

interpretation strings: cell_kind StringArray strings_of by unfold_locales simp
interpretation options: cell_kind OptionArray options_of by unfold_locales simp
interpretation hosts: cell_kind HostArray hosts_of by unfold_locales simp
interpretation servers: cell_kind ServerArray servers_of by unfold_locales simp
interpretation subnets: cell_kind SubnetArray subnets_of by unfold_locales simp

type_synonym ('x, 't, 'm) store = "('x, 't, 'm) cell list"

text \<open>
  What the generated code calls of the Kubernetes library, with the zero values of its
  types for the arrays that \<^verbatim>\<open>make\<close> returns.
\<close>

record ('x, 't, 'm) apimachinery =
  ObjectMeta_DeepCopyInto :: "('x, 't, 'm) store \<Rightarrow> 'm \<Rightarrow> ('x, 't, 'm) store \<times> 'm"
  ListMeta_DeepCopyInto :: "('x, 't, 'm) store \<Rightarrow> 'm \<Rightarrow> ('x, 't, 'm) store \<times> 'm"
  OwnerReference_DeepCopyInto :: "('x, 't, 'm) store \<Rightarrow> 'm \<Rightarrow> ('x, 't, 'm) store \<times> 'm"
  Time_DeepCopyInto :: "go_time \<Rightarrow> go_time"
  zero_TypeMeta :: 't
  zero_ObjectMeta :: 'm
  zero_OwnerReference :: 'm
  zero_Time :: go_time

definition zero_option :: ApiOption where
  "zero_option = \<lparr>aopt_ID = 0, aopt_Type = [], aopt_Value = []\<rparr>"

definition zero_host :: "('x, 't, 'm) apimachinery \<Rightarrow> ('t, 'm) DHCPHost_obj" where
  "zero_host lib =
     \<lparr>oh_TypeMeta = zero_TypeMeta lib, oh_ObjectMeta = zero_ObjectMeta lib,
      oh_Spec = \<lparr>oh_Subnet = [], oh_MAC = [], oh_IP = [], oh_Gateway = [], oh_HostName = [], oh_DNS = None,
        oh_Options = None, oh_ServerHostName = [], oh_BootFileName = [], oh_LeaseTime = 0\<rparr>,
      oh_Status = ()\<rparr>"

definition zero_server :: "('x, 't, 'm) apimachinery \<Rightarrow> ('t, 'm) DHCPServer_obj" where
  "zero_server lib =
     \<lparr>ov_TypeMeta = zero_TypeMeta lib, ov_ObjectMeta = zero_ObjectMeta lib,
      ov_Spec = \<lparr>vspec_ListenInterface = [], vspec_ListenAddress = [], vspec_ReuseAddr = False\<rparr>,
      ov_Status = \<lparr>vstat_ErrorMessage = [], vstat_LastUpdate = zero_Time lib\<rparr>\<rparr>"

definition zero_subnet :: "('x, 't, 'm) apimachinery \<Rightarrow> ('t, 'm) DHCPSubnet_obj" where
  "zero_subnet lib =
     \<lparr>os_TypeMeta = zero_TypeMeta lib, os_ObjectMeta = zero_ObjectMeta lib,
      os_Spec = \<lparr>os_Subnet = [], os_RangeFrom = [], os_RangeTo = [], os_Gateway = [], os_DNS = None, os_Options = None,
        os_ServerHostName = [], os_BootFileName = [], os_LeaseTime = 0, os_Server = zero_OwnerReference lib\<rparr>,
      os_Status = \<lparr>os_ErrorMessage = [], os_Leases = None\<rparr>\<rparr>"

section \<open>The generated functions\<close>

text \<open>
  \<^verbatim>\<open>DeepCopyInto\<close> starts with \<^verbatim>\<open>*out = *in\<close>, so what \<^verbatim>\<open>out\<close> held before is gone: the functions
  map the receiver to what \<^verbatim>\<open>out\<close> holds afterwards. \<^verbatim>\<open>DeepCopy\<close> and \<^verbatim>\<open>DeepCopyObject\<close> take a
  pointer that may be nil.
\<close>

definition new_copy :: "('s \<Rightarrow> 'a \<Rightarrow> 's \<times> 'a) \<Rightarrow> 's \<Rightarrow> 'a option \<Rightarrow> 's \<times> 'a option" where
  "new_copy into st p =
     (case p of None \<Rightarrow> (st, None) | Some i \<Rightarrow> let (st, out) = into st i in (st, Some out))"

definition as_object :: "('a \<Rightarrow> 'o) \<Rightarrow> 's \<times> 'a option \<Rightarrow> 's \<times> 'o option" where
  "as_object C r = (case r of (st, Some c) \<Rightarrow> (st, Some (C c)) | (st, None) \<Rightarrow> (st, None))"

subsection \<open>Options and leases\<close>

definition Option_DeepCopyInto :: "'s \<Rightarrow> ApiOption \<Rightarrow> 's \<times> ApiOption" where
  "Option_DeepCopyInto st i = (let out = i in (st, out))"

definition Option_DeepCopy :: "'s \<Rightarrow> ApiOption option \<Rightarrow> 's \<times> ApiOption option" where
  "Option_DeepCopy st p = new_copy Option_DeepCopyInto st p"

definition Lease_DeepCopyInto :: "('x, 't, 'm) apimachinery \<Rightarrow> 's \<Rightarrow> ApiLease \<Rightarrow> 's \<times> ApiLease" where
  "Lease_DeepCopyInto lib st i =
     (let out = i;
          out = out\<lparr>alease_UpdatedAt := Time_DeepCopyInto lib (alease_UpdatedAt i)\<rparr> in
      (st, out))"

definition Lease_DeepCopy :: "('x, 't, 'm) apimachinery \<Rightarrow> 's \<Rightarrow> ApiLease option \<Rightarrow> 's \<times> ApiLease option" where
  "Lease_DeepCopy lib st p = new_copy (Lease_DeepCopyInto lib) st p"

subsection \<open>Hosts\<close>

definition DHCPHostSpec_DeepCopyInto ::
  "('x, 't, 'm) store \<Rightarrow> DHCPHostSpec_obj \<Rightarrow> ('x, 't, 'm) store \<times> DHCPHostSpec_obj" where
  "DHCPHostSpec_DeepCopyInto st i =
     (let out = i;
          (st, dns) = clone_slice StringArray strings_of [] st (oh_DNS i);
          out = out\<lparr>oh_DNS := dns\<rparr>;
          (st, opts) = clone_slice OptionArray options_of zero_option st (oh_Options i);
          out = out\<lparr>oh_Options := opts\<rparr> in
      (st, out))"

definition DHCPHostSpec_DeepCopy ::
  "('x, 't, 'm) store \<Rightarrow> DHCPHostSpec_obj option \<Rightarrow> ('x, 't, 'm) store \<times> DHCPHostSpec_obj option" where
  "DHCPHostSpec_DeepCopy st p = new_copy DHCPHostSpec_DeepCopyInto st p"

definition DHCPHostStatus_DeepCopyInto :: "'s \<Rightarrow> DHCPHostStatus \<Rightarrow> 's \<times> DHCPHostStatus" where
  "DHCPHostStatus_DeepCopyInto st i = (let out = i in (st, out))"

definition DHCPHostStatus_DeepCopy :: "'s \<Rightarrow> DHCPHostStatus option \<Rightarrow> 's \<times> DHCPHostStatus option" where
  "DHCPHostStatus_DeepCopy st p = new_copy DHCPHostStatus_DeepCopyInto st p"

definition DHCPHost_DeepCopyInto ::
  "('x, 't, 'm) apimachinery \<Rightarrow> ('x, 't, 'm) store \<Rightarrow> ('t, 'm) DHCPHost_obj \<Rightarrow>
   ('x, 't, 'm) store \<times> ('t, 'm) DHCPHost_obj" where
  "DHCPHost_DeepCopyInto lib st i =
     (let out = i;
          out = out\<lparr>oh_TypeMeta := oh_TypeMeta i\<rparr>;
          (st, meta) = ObjectMeta_DeepCopyInto lib st (oh_ObjectMeta i);
          out = out\<lparr>oh_ObjectMeta := meta\<rparr>;
          (st, spec) = DHCPHostSpec_DeepCopyInto st (oh_Spec i);
          out = out\<lparr>oh_Spec := spec\<rparr>;
          out = out\<lparr>oh_Status := oh_Status i\<rparr> in
      (st, out))"

definition DHCPHost_DeepCopy ::
  "('x, 't, 'm) apimachinery \<Rightarrow> ('x, 't, 'm) store \<Rightarrow> ('t, 'm) DHCPHost_obj option \<Rightarrow>
   ('x, 't, 'm) store \<times> ('t, 'm) DHCPHost_obj option" where
  "DHCPHost_DeepCopy lib st p = new_copy (DHCPHost_DeepCopyInto lib) st p"

definition DHCPHostList_DeepCopyInto ::
  "('x, 't, 'm) apimachinery \<Rightarrow> ('x, 't, 'm) store \<Rightarrow> ('t, 'm) DHCPHostList \<Rightarrow>
   ('x, 't, 'm) store \<times> ('t, 'm) DHCPHostList" where
  "DHCPHostList_DeepCopyInto lib st i =
     (let out = i;
          out = out\<lparr>ohl_TypeMeta := ohl_TypeMeta i\<rparr>;
          (st, meta) = ListMeta_DeepCopyInto lib st (ohl_ListMeta i);
          out = out\<lparr>ohl_ListMeta := meta\<rparr>;
          (st, items) = clone_items HostArray hosts_of (zero_host lib) (DHCPHost_DeepCopyInto lib) st (ohl_Items i);
          out = out\<lparr>ohl_Items := items\<rparr> in
      (st, out))"

definition DHCPHostList_DeepCopy ::
  "('x, 't, 'm) apimachinery \<Rightarrow> ('x, 't, 'm) store \<Rightarrow> ('t, 'm) DHCPHostList option \<Rightarrow>
   ('x, 't, 'm) store \<times> ('t, 'm) DHCPHostList option" where
  "DHCPHostList_DeepCopy lib st p = new_copy (DHCPHostList_DeepCopyInto lib) st p"

subsection \<open>Servers\<close>

definition DHCPServerSpec_DeepCopyInto :: "'s \<Rightarrow> DHCPServerSpec \<Rightarrow> 's \<times> DHCPServerSpec" where
  "DHCPServerSpec_DeepCopyInto st i = (let out = i in (st, out))"

definition DHCPServerSpec_DeepCopy :: "'s \<Rightarrow> DHCPServerSpec option \<Rightarrow> 's \<times> DHCPServerSpec option" where
  "DHCPServerSpec_DeepCopy st p = new_copy DHCPServerSpec_DeepCopyInto st p"

definition DHCPServerStatus_DeepCopyInto ::
  "('x, 't, 'm) apimachinery \<Rightarrow> 's \<Rightarrow> DHCPServerStatus \<Rightarrow> 's \<times> DHCPServerStatus" where
  "DHCPServerStatus_DeepCopyInto lib st i =
     (let out = i;
          out = out\<lparr>vstat_LastUpdate := Time_DeepCopyInto lib (vstat_LastUpdate i)\<rparr> in
      (st, out))"

definition DHCPServerStatus_DeepCopy ::
  "('x, 't, 'm) apimachinery \<Rightarrow> 's \<Rightarrow> DHCPServerStatus option \<Rightarrow> 's \<times> DHCPServerStatus option" where
  "DHCPServerStatus_DeepCopy lib st p = new_copy (DHCPServerStatus_DeepCopyInto lib) st p"

definition DHCPServer_DeepCopyInto ::
  "('x, 't, 'm) apimachinery \<Rightarrow> ('x, 't, 'm) store \<Rightarrow> ('t, 'm) DHCPServer_obj \<Rightarrow>
   ('x, 't, 'm) store \<times> ('t, 'm) DHCPServer_obj" where
  "DHCPServer_DeepCopyInto lib st i =
     (let out = i;
          out = out\<lparr>ov_TypeMeta := ov_TypeMeta i\<rparr>;
          (st, meta) = ObjectMeta_DeepCopyInto lib st (ov_ObjectMeta i);
          out = out\<lparr>ov_ObjectMeta := meta\<rparr>;
          out = out\<lparr>ov_Spec := ov_Spec i\<rparr>;
          (st, status) = DHCPServerStatus_DeepCopyInto lib st (ov_Status i);
          out = out\<lparr>ov_Status := status\<rparr> in
      (st, out))"

definition DHCPServer_DeepCopy ::
  "('x, 't, 'm) apimachinery \<Rightarrow> ('x, 't, 'm) store \<Rightarrow> ('t, 'm) DHCPServer_obj option \<Rightarrow>
   ('x, 't, 'm) store \<times> ('t, 'm) DHCPServer_obj option" where
  "DHCPServer_DeepCopy lib st p = new_copy (DHCPServer_DeepCopyInto lib) st p"

definition DHCPServerList_DeepCopyInto ::
  "('x, 't, 'm) apimachinery \<Rightarrow> ('x, 't, 'm) store \<Rightarrow> ('t, 'm) DHCPServerList \<Rightarrow>
   ('x, 't, 'm) store \<times> ('t, 'm) DHCPServerList" where
  "DHCPServerList_DeepCopyInto lib st i =
     (let out = i;
          out = out\<lparr>ovl_TypeMeta := ovl_TypeMeta i\<rparr>;
          (st, meta) = ListMeta_DeepCopyInto lib st (ovl_ListMeta i);
          out = out\<lparr>ovl_ListMeta := meta\<rparr>;
          (st, items) = clone_items ServerArray servers_of (zero_server lib) (DHCPServer_DeepCopyInto lib) st (ovl_Items i);
          out = out\<lparr>ovl_Items := items\<rparr> in
      (st, out))"

definition DHCPServerList_DeepCopy ::
  "('x, 't, 'm) apimachinery \<Rightarrow> ('x, 't, 'm) store \<Rightarrow> ('t, 'm) DHCPServerList option \<Rightarrow>
   ('x, 't, 'm) store \<times> ('t, 'm) DHCPServerList option" where
  "DHCPServerList_DeepCopy lib st p = new_copy (DHCPServerList_DeepCopyInto lib) st p"

subsection \<open>Subnets\<close>

definition DHCPSubnetSpec_DeepCopyInto ::
  "('x, 't, 'm) apimachinery \<Rightarrow> ('x, 't, 'm) store \<Rightarrow> 'm DHCPSubnetSpec_obj \<Rightarrow>
   ('x, 't, 'm) store \<times> 'm DHCPSubnetSpec_obj" where
  "DHCPSubnetSpec_DeepCopyInto lib st i =
     (let out = i;
          (st, dns) = clone_slice StringArray strings_of [] st (os_DNS i);
          out = out\<lparr>os_DNS := dns\<rparr>;
          (st, opts) = clone_slice OptionArray options_of zero_option st (os_Options i);
          out = out\<lparr>os_Options := opts\<rparr>;
          (st, owner) = OwnerReference_DeepCopyInto lib st (os_Server i);
          out = out\<lparr>os_Server := owner\<rparr> in
      (st, out))"

definition DHCPSubnetSpec_DeepCopy ::
  "('x, 't, 'm) apimachinery \<Rightarrow> ('x, 't, 'm) store \<Rightarrow> 'm DHCPSubnetSpec_obj option \<Rightarrow>
   ('x, 't, 'm) store \<times> 'm DHCPSubnetSpec_obj option" where
  "DHCPSubnetSpec_DeepCopy lib st p = new_copy (DHCPSubnetSpec_DeepCopyInto lib) st p"

text \<open>
  The cell of a map holds its entries in the order a \<^verbatim>\<open>range\<close> visits them. \<^verbatim>\<open>val.DeepCopy()\<close> is
  called on the address of the loop variable, which is never nil.
\<close>

definition map_entries :: "('x, 't, 'm) store \<Rightarrow> nat \<Rightarrow> (string \<times> ApiLease) list" where
  "map_entries st p = (case leases_of (st ! p) of Some xs \<Rightarrow> xs | None \<Rightarrow> [])"

definition map_store :: "('x, 't, 'm) store \<Rightarrow> nat \<Rightarrow> string \<Rightarrow> ApiLease \<Rightarrow> ('x, 't, 'm) store" where
  "map_store st p k v = st[p := LeaseMap (AList.update k v (map_entries st p))]"

definition clone_leases ::
  "('x, 't, 'm) apimachinery \<Rightarrow> ('x, 't, 'm) store \<Rightarrow> nat option \<Rightarrow> ('x, 't, 'm) store \<times> nat option" where
  "clone_leases lib st v =
     (case v of
        None \<Rightarrow> (st, None)
      | Some i \<Rightarrow>
          let out = length st; st = st @ [LeaseMap []] in
          (foldl (\<lambda>st (key, val). let (st, p) = Lease_DeepCopy lib st (Some val) in map_store st out key (the p))
             st (map_entries st i), Some out))"

definition DHCPSubnetStatus_DeepCopyInto ::
  "('x, 't, 'm) apimachinery \<Rightarrow> ('x, 't, 'm) store \<Rightarrow> DHCPSubnetStatus_obj \<Rightarrow>
   ('x, 't, 'm) store \<times> DHCPSubnetStatus_obj" where
  "DHCPSubnetStatus_DeepCopyInto lib st i =
     (let out = i;
          (st, leases) = clone_leases lib st (os_Leases i);
          out = out\<lparr>os_Leases := leases\<rparr> in
      (st, out))"

definition DHCPSubnetStatus_DeepCopy ::
  "('x, 't, 'm) apimachinery \<Rightarrow> ('x, 't, 'm) store \<Rightarrow> DHCPSubnetStatus_obj option \<Rightarrow>
   ('x, 't, 'm) store \<times> DHCPSubnetStatus_obj option" where
  "DHCPSubnetStatus_DeepCopy lib st p = new_copy (DHCPSubnetStatus_DeepCopyInto lib) st p"

definition DHCPSubnet_DeepCopyInto ::
  "('x, 't, 'm) apimachinery \<Rightarrow> ('x, 't, 'm) store \<Rightarrow> ('t, 'm) DHCPSubnet_obj \<Rightarrow>
   ('x, 't, 'm) store \<times> ('t, 'm) DHCPSubnet_obj" where
  "DHCPSubnet_DeepCopyInto lib st i =
     (let out = i;
          out = out\<lparr>os_TypeMeta := os_TypeMeta i\<rparr>;
          (st, meta) = ObjectMeta_DeepCopyInto lib st (os_ObjectMeta i);
          out = out\<lparr>os_ObjectMeta := meta\<rparr>;
          (st, spec) = DHCPSubnetSpec_DeepCopyInto lib st (os_Spec i);
          out = out\<lparr>os_Spec := spec\<rparr>;
          (st, status) = DHCPSubnetStatus_DeepCopyInto lib st (os_Status i);
          out = out\<lparr>os_Status := status\<rparr> in
      (st, out))"

definition DHCPSubnet_DeepCopy ::
  "('x, 't, 'm) apimachinery \<Rightarrow> ('x, 't, 'm) store \<Rightarrow> ('t, 'm) DHCPSubnet_obj option \<Rightarrow>
   ('x, 't, 'm) store \<times> ('t, 'm) DHCPSubnet_obj option" where
  "DHCPSubnet_DeepCopy lib st p = new_copy (DHCPSubnet_DeepCopyInto lib) st p"

definition DHCPSubnetList_DeepCopyInto ::
  "('x, 't, 'm) apimachinery \<Rightarrow> ('x, 't, 'm) store \<Rightarrow> ('t, 'm) DHCPSubnetList \<Rightarrow>
   ('x, 't, 'm) store \<times> ('t, 'm) DHCPSubnetList" where
  "DHCPSubnetList_DeepCopyInto lib st i =
     (let out = i;
          out = out\<lparr>osl_TypeMeta := osl_TypeMeta i\<rparr>;
          (st, meta) = ListMeta_DeepCopyInto lib st (osl_ListMeta i);
          out = out\<lparr>osl_ListMeta := meta\<rparr>;
          (st, items) = clone_items SubnetArray subnets_of (zero_subnet lib) (DHCPSubnet_DeepCopyInto lib) st (osl_Items i);
          out = out\<lparr>osl_Items := items\<rparr> in
      (st, out))"

definition DHCPSubnetList_DeepCopy ::
  "('x, 't, 'm) apimachinery \<Rightarrow> ('x, 't, 'm) store \<Rightarrow> ('t, 'm) DHCPSubnetList option \<Rightarrow>
   ('x, 't, 'm) store \<times> ('t, 'm) DHCPSubnetList option" where
  "DHCPSubnetList_DeepCopy lib st p = new_copy (DHCPSubnetList_DeepCopyInto lib) st p"

subsection \<open>Runtime objects\<close>

datatype ('t, 'm) runtime_Object =
  HostObject "('t, 'm) DHCPHost_obj"
| HostListObject "('t, 'm) DHCPHostList"
| ServerObject "('t, 'm) DHCPServer_obj"
| ServerListObject "('t, 'm) DHCPServerList"
| SubnetObject "('t, 'm) DHCPSubnet_obj"
| SubnetListObject "('t, 'm) DHCPSubnetList"

definition DHCPHost_DeepCopyObject ::
  "('x, 't, 'm) apimachinery \<Rightarrow> ('x, 't, 'm) store \<Rightarrow> ('t, 'm) DHCPHost_obj option \<Rightarrow>
   ('x, 't, 'm) store \<times> ('t, 'm) runtime_Object option" where
  "DHCPHost_DeepCopyObject lib st p = as_object HostObject (DHCPHost_DeepCopy lib st p)"

definition DHCPHostList_DeepCopyObject ::
  "('x, 't, 'm) apimachinery \<Rightarrow> ('x, 't, 'm) store \<Rightarrow> ('t, 'm) DHCPHostList option \<Rightarrow>
   ('x, 't, 'm) store \<times> ('t, 'm) runtime_Object option" where
  "DHCPHostList_DeepCopyObject lib st p = as_object HostListObject (DHCPHostList_DeepCopy lib st p)"

definition DHCPServer_DeepCopyObject ::
  "('x, 't, 'm) apimachinery \<Rightarrow> ('x, 't, 'm) store \<Rightarrow> ('t, 'm) DHCPServer_obj option \<Rightarrow>
   ('x, 't, 'm) store \<times> ('t, 'm) runtime_Object option" where
  "DHCPServer_DeepCopyObject lib st p = as_object ServerObject (DHCPServer_DeepCopy lib st p)"

definition DHCPServerList_DeepCopyObject ::
  "('x, 't, 'm) apimachinery \<Rightarrow> ('x, 't, 'm) store \<Rightarrow> ('t, 'm) DHCPServerList option \<Rightarrow>
   ('x, 't, 'm) store \<times> ('t, 'm) runtime_Object option" where
  "DHCPServerList_DeepCopyObject lib st p = as_object ServerListObject (DHCPServerList_DeepCopy lib st p)"

definition DHCPSubnet_DeepCopyObject ::
  "('x, 't, 'm) apimachinery \<Rightarrow> ('x, 't, 'm) store \<Rightarrow> ('t, 'm) DHCPSubnet_obj option \<Rightarrow>
   ('x, 't, 'm) store \<times> ('t, 'm) runtime_Object option" where
  "DHCPSubnet_DeepCopyObject lib st p = as_object SubnetObject (DHCPSubnet_DeepCopy lib st p)"

definition DHCPSubnetList_DeepCopyObject ::
  "('x, 't, 'm) apimachinery \<Rightarrow> ('x, 't, 'm) store \<Rightarrow> ('t, 'm) DHCPSubnetList option \<Rightarrow>
   ('x, 't, 'm) store \<times> ('t, 'm) runtime_Object option" where
  "DHCPSubnetList_DeepCopyObject lib st p = as_object SubnetListObject (DHCPSubnetList_DeepCopy lib st p)"

text \<open>The method called through the interface.\<close>

fun DeepCopyObject ::
  "('x, 't, 'm) apimachinery \<Rightarrow> ('x, 't, 'm) store \<Rightarrow> ('t, 'm) runtime_Object \<Rightarrow>
   ('x, 't, 'm) store \<times> ('t, 'm) runtime_Object option" where
  "DeepCopyObject lib st (HostObject x) = DHCPHost_DeepCopyObject lib st (Some x)"
| "DeepCopyObject lib st (HostListObject x) = DHCPHostList_DeepCopyObject lib st (Some x)"
| "DeepCopyObject lib st (ServerObject x) = DHCPServer_DeepCopyObject lib st (Some x)"
| "DeepCopyObject lib st (ServerListObject x) = DHCPServerList_DeepCopyObject lib st (Some x)"
| "DeepCopyObject lib st (SubnetObject x) = DHCPSubnet_DeepCopyObject lib st (Some x)"
| "DeepCopyObject lib st (SubnetListObject x) = DHCPSubnetList_DeepCopyObject lib st (Some x)"

end
