(* ===== verification/Dhcp_Logger.thy ===== *)
theory Dhcp_Logger
  imports Dhcp_Prelude
begin

text \<open>
  The loggers: the interface \<^verbatim>\<open>RLogger\<close> with its generic implementation
  (\<^verbatim>\<open>dhcp/logger.go\<close>) and the one of the operator that wraps a structured logger
  (\<^verbatim>\<open>main.go\<close>). A log is the list of its entries; the formatting of \<^verbatim>\<open>fmt.Sprintf\<close> is the
  parameter \<open>sprintf\<close>.
\<close>

definition levelExtraDebug :: nat where "levelExtraDebug = 2"
definition levelDebug :: nat where "levelDebug = 1"
definition levelInfo :: nat where "levelInfo = 0"

datatype log_entry =
  Line string
| InfoEntry (entry_level: nat) (entry_names: "string list") string
| ErrorEntry (entry_names: "string list") string string

section \<open>The interface\<close>

text \<open>
  What the server uses of a logger: every call appends one entry, and a named logger writes
  to the same log.
\<close>

locale r_logger =
  fixes errorf :: "'l \<Rightarrow> string \<Rightarrow> string \<Rightarrow> 'a list \<Rightarrow> log_entry list \<Rightarrow> log_entry list"
    and infof :: "'l \<Rightarrow> string \<Rightarrow> 'a list \<Rightarrow> log_entry list \<Rightarrow> log_entry list"
    and debugf :: "'l \<Rightarrow> string \<Rightarrow> 'a list \<Rightarrow> log_entry list \<Rightarrow> log_entry list"
    and with_name :: "string \<Rightarrow> 'l \<Rightarrow> 'l"
  assumes errorf_appends: "\<exists>e. errorf l err format args log = log @ [e]"
    and infof_appends: "\<exists>e. infof l format args log = log @ [e]"
    and debugf_appends: "\<exists>e. debugf l format args log = log @ [e]"
begin

lemma messages_appended:
  "\<exists>es. fold (\<lambda>(format, args). infof (with_name n l) format args) ms log = log @ es \<and> length es = length ms"
proof (induction ms arbitrary: log)
  case (Cons m ms)
  obtain e where "infof (with_name n l) (fst m) (snd m) log = log @ [e]" using infof_appends by blast
  with Cons [of "log @ [e]"] show ?case by (auto simp: case_prod_beta)
qed simp

end

section \<open>The generic logger\<close>

datatype GenericLogger = GenericLogger

definition Generic_Errorf ::
  "(string \<Rightarrow> 'a list \<Rightarrow> string) \<Rightarrow> GenericLogger \<Rightarrow> string \<Rightarrow> string \<Rightarrow> 'a list \<Rightarrow> log_entry list \<Rightarrow> log_entry list" where
  "Generic_Errorf sprintf s err format args log =
     log @ [Line (''ERROR: '' @ err @ [CHR 0x0A] @ sprintf format args)]"

definition Generic_Infof ::
  "(string \<Rightarrow> 'a list \<Rightarrow> string) \<Rightarrow> GenericLogger \<Rightarrow> string \<Rightarrow> 'a list \<Rightarrow> log_entry list \<Rightarrow> log_entry list" where
  "Generic_Infof sprintf s format args log = log @ [Line (sprintf format args)]"

definition Generic_Debugf ::
  "(string \<Rightarrow> 'a list \<Rightarrow> string) \<Rightarrow> GenericLogger \<Rightarrow> string \<Rightarrow> 'a list \<Rightarrow> log_entry list \<Rightarrow> log_entry list" where
  "Generic_Debugf sprintf s format args log = log @ [Line (sprintf format args)]"

definition Generic_WithName :: "string \<Rightarrow> GenericLogger \<Rightarrow> GenericLogger" where
  "Generic_WithName name s = GenericLogger"

interpretation generic_logger: r_logger "Generic_Errorf sprintf" "Generic_Infof sprintf" "Generic_Debugf sprintf" Generic_WithName
  for sprintf
  by unfold_locales (auto simp: Generic_Errorf_def Generic_Infof_def Generic_Debugf_def)

section \<open>The logger of the operator\<close>

record Logger =
  rlog_names :: "string list"

definition Logger_Infof ::
  "(string \<Rightarrow> 'a list \<Rightarrow> string) \<Rightarrow> Logger \<Rightarrow> string \<Rightarrow> 'a list \<Rightarrow> log_entry list \<Rightarrow> log_entry list" where
  "Logger_Infof sprintf l format args log = log @ [InfoEntry 0 (rlog_names l) (sprintf format args)]"

definition Logger_Debugf ::
  "(string \<Rightarrow> 'a list \<Rightarrow> string) \<Rightarrow> Logger \<Rightarrow> string \<Rightarrow> 'a list \<Rightarrow> log_entry list \<Rightarrow> log_entry list" where
  "Logger_Debugf sprintf l format args log = log @ [InfoEntry 1 (rlog_names l) (sprintf format args)]"

definition Logger_Errorf ::
  "(string \<Rightarrow> 'a list \<Rightarrow> string) \<Rightarrow> Logger \<Rightarrow> string \<Rightarrow> string \<Rightarrow> 'a list \<Rightarrow> log_entry list \<Rightarrow> log_entry list" where
  "Logger_Errorf sprintf l err format args log = log @ [ErrorEntry (rlog_names l) err (sprintf format args)]"

definition Logger_WithName :: "string \<Rightarrow> Logger \<Rightarrow> Logger" where
  "Logger_WithName name l = \<lparr>rlog_names = rlog_names l @ [name]\<rparr>"

interpretation operator_logger: r_logger "Logger_Errorf sprintf" "Logger_Infof sprintf" "Logger_Debugf sprintf" Logger_WithName
  for sprintf
  by unfold_locales (auto simp: Logger_Errorf_def Logger_Infof_def Logger_Debugf_def)

text \<open>The levels of the operator's logger are the constants of the package.\<close>

lemma Logger_levels:
  "Logger_Infof sprintf l format args [] = [InfoEntry levelInfo (rlog_names l) (sprintf format args)]"
  "Logger_Debugf sprintf l format args [] = [InfoEntry levelDebug (rlog_names l) (sprintf format args)]"
  by (simp_all add: Logger_Infof_def Logger_Debugf_def levelInfo_def levelDebug_def)

end
