(* ===== verification/K8s_Main.thy ===== *)
theory K8s_Main
  imports K8s_Controllers K8s_DeepCopy Dhcp_Logger
begin

text \<open>
  \<^verbatim>\<open>main.go\<close>, the constructors of the reconcilers and the registration of the API group. The
  calls of the Kubernetes framework may fail, which is the parameter \<open>env\<close>. The reconcilers
  are objects with pointers to the cache and the server; nil is \<^term>\<open>None\<close>.
\<close>

section \<open>The API group\<close>

record GroupVersion =
  gv_Group :: string
  gv_Version :: string

definition GroupVersion :: GroupVersion where
  "GroupVersion = \<lparr>gv_Group = ''dhcp.bmcgo.dev'', gv_Version = ''v1alpha1''\<rparr>"

definition Register :: "string list \<Rightarrow> string list \<Rightarrow> string list" where
  "Register kinds builder = builder @ kinds"

text \<open>The \<^verbatim>\<open>init\<close> functions of the package run in the order of its files.\<close>

definition init_hosts :: "string list \<Rightarrow> string list" where
  "init_hosts builder = Register [''DHCPHost'', ''DHCPHostList''] builder"

definition init_servers :: "string list \<Rightarrow> string list" where
  "init_servers builder = Register [''DHCPServer'', ''DHCPServerList''] builder"

definition init_subnets :: "string list \<Rightarrow> string list" where
  "init_subnets builder = Register [''DHCPSubnet'', ''DHCPSubnetList''] builder"

definition SchemeBuilder :: "string list" where
  "SchemeBuilder = init_subnets (init_servers (init_hosts []))"

fun object_kind :: "('t, 'm) runtime_Object \<Rightarrow> string" where
  "object_kind (HostObject x) = ''DHCPHost''"
| "object_kind (HostListObject x) = ''DHCPHostList''"
| "object_kind (ServerObject x) = ''DHCPServer''"
| "object_kind (ServerListObject x) = ''DHCPServerList''"
| "object_kind (SubnetObject x) = ''DHCPSubnet''"
| "object_kind (SubnetListObject x) = ''DHCPSubnetList''"

section \<open>The reconcilers\<close>

type_synonym ptr = "nat option"

record DHCPHostReconciler =
  hr_DHCPServer :: ptr
  hr_hostsCache :: "(string \<rightharpoonup> Host) option"
  hr_knownObjects :: ptr

record DHCPServerReconciler =
  vr_DHCPServer :: ptr
  vr_cache :: ptr
  vr_log :: Logger

record DHCPSubnetReconciler =
  sr_DHCPServer :: ptr
  sr_SubnetCache :: "(string \<rightharpoonup> SubnetAddrPrefix) option"
  sr_SubnetToObjectKey :: "(SubnetAddrPrefix \<rightharpoonup> ObjectKey) option"
  sr_knownObjects :: ptr

definition NewDHCPHostReconciler :: "ptr \<Rightarrow> DHCPHostReconciler" where
  "NewDHCPHostReconciler knownObjects = \<lparr>hr_DHCPServer = None, hr_hostsCache = None, hr_knownObjects = knownObjects\<rparr>"

definition NewDHCPServerReconciler :: "ptr \<Rightarrow> Logger \<Rightarrow> DHCPServerReconciler" where
  "NewDHCPServerReconciler cache log = \<lparr>vr_DHCPServer = None, vr_cache = cache, vr_log = log\<rparr>"

definition NewDHCPSubnetReconciler :: "ptr \<Rightarrow> DHCPSubnetReconciler" where
  "NewDHCPSubnetReconciler storage =
     \<lparr>sr_DHCPServer = None, sr_SubnetCache = Some Map.empty, sr_SubnetToObjectKey = Some Map.empty, sr_knownObjects = storage\<rparr>"

text \<open>
  The reconciliation of a host by a reconciler with these pointers, on the state of the
  operator: the first access to a nil pointer panics. A nil map is read as empty.
\<close>

definition DHCPHostReconciler_Reconcile ::
  "DHCPHostReconciler \<Rightarrow> (Server \<Rightarrow> SubnetAddrPrefix list) \<Rightarrow> (api_error, DHCPHost) result \<Rightarrow> Operator \<Rightarrow> ObjectKey
   \<Rightarrow> (Operator \<times> ctrl_Result \<times> rec_error option) outcome" where
  "DHCPHostReconciler_Reconcile r ordS get st req =
     (case get of
        Inl NotFound \<Rightarrow>
          (case (case hr_hostsCache r of None \<Rightarrow> None | Some m \<Rightarrow> m (fst req @ ''/'' @ snd req)) of
             None \<Rightarrow> Returns (st, done_result, Some (UnknownDeleted (fst req @ ''/'' @ snd req)))
           | Some host \<Rightarrow>
               (case hr_DHCPServer r of
                  None \<Rightarrow> Panics
                | Some p \<Rightarrow>
                    (case Server_DeleteHost (ordS (op_server st)) (op_server st) host of
                       (srv, err) \<Rightarrow> Returns (st\<lparr>op_server := srv\<rparr>, done_result, map_option DhcpError err))))
      | Inl e \<Rightarrow> Returns (st, requeue_after 30, Some (GetError e))
      | Inr host \<Rightarrow>
          (case hr_knownObjects r of
             None \<Rightarrow> Panics
           | Some c \<Rightarrow>
               (case AddHostIfNotKnown (op_cache st) host of
                  (cache, saved) \<Rightarrow>
                    let st = st\<lparr>op_cache := cache\<rparr> in
                    if saved then Returns (st, done_result, None)
                    else case hr_DHCPServer r of
                           None \<Rightarrow> Panics
                         | Some p \<Rightarrow>
                             Returns (st\<lparr>op_server := fst (Server_AddHost (ordS (op_server st)) (op_server st) (ToDHCPHost host))\<rparr>,
                               done_result, None))))"

section \<open>Setting up the process\<close>

datatype controller = ServerController | SubnetController | HostController | SecondHostController

record main_env =
  env_NewManager :: "string option"
  env_Complete :: "controller \<Rightarrow> string \<Rightarrow> string option"
  env_AddHealthzCheck :: "string option"
  env_AddReadyzCheck :: "string option"
  env_Interfaces :: "(string, (interfaceName \<times> (string, string list) result) list) result"
  env_UDPSocket :: SocketFactory

record Process =
  pr_serverReconciler :: DHCPServerReconciler
  pr_subnetReconciler :: DHCPSubnetReconciler
  pr_hostReconciler :: DHCPHostReconciler
  pr_secondHostReconciler :: DHCPHostReconciler
  pr_controllers :: "(controller \<times> string) list"
  pr_checks :: "string list"
  pr_server :: Server

text \<open>
  \<^verbatim>\<open>SetupWithManager\<close> registers a controller with the manager for one kind of objects; the
  builder of the framework is \<open>complete\<close>.
\<close>

definition DHCPServerReconciler_SetupWithManager ::
  "(controller \<Rightarrow> string \<Rightarrow> string option) \<Rightarrow> controller \<Rightarrow> (controller \<times> string) \<times> string option" where
  "DHCPServerReconciler_SetupWithManager complete r = ((r, ''DHCPServer''), complete r ''DHCPServer'')"

definition DHCPSubnetReconciler_SetupWithManager ::
  "(controller \<Rightarrow> string \<Rightarrow> string option) \<Rightarrow> controller \<Rightarrow> (controller \<times> string) \<times> string option" where
  "DHCPSubnetReconciler_SetupWithManager complete r = ((r, ''DHCPSubnet''), complete r ''DHCPSubnet'')"

definition DHCPHostReconciler_SetupWithManager ::
  "(controller \<Rightarrow> string \<Rightarrow> string option) \<Rightarrow> controller \<Rightarrow> (controller \<times> string) \<times> string option" where
  "DHCPHostReconciler_SetupWithManager complete r = ((r, ''DHCPHost''), complete r ''DHCPHost'')"

text \<open>\<^verbatim>\<open>if err != nil { os.Exit(code) }\<close>\<close>

definition exit_on :: "nat \<Rightarrow> 'e option \<Rightarrow> (nat, 'a) result \<Rightarrow> (nat, 'a) result" where
  "exit_on code err rest = (case err of Some e \<Rightarrow> Inl code | None \<Rightarrow> rest)"

definition main_config :: ServerConfig where
  "main_config = \<lparr>cfg_SocketFactory = None, cfg_LocalAddressesGetter = None, cfg_HasLogger = True, cfg_HasCallbackSaveLeases = True\<rparr>"

text \<open>
  Everything up to the start of the manager: an exit code, or the process. The cache and the
  server are the objects at address 0; \<open>ord\<close> is the order in which the map of the local
  addresses is visited.
\<close>

definition set_up :: "interfaceName list \<Rightarrow> main_env \<Rightarrow> (nat, Process) result" where
  "set_up ord env =
     (let logger = \<lparr>rlog_names = []\<rparr> in
      exit_on 1 (env_NewManager env)
        (let knownObjectsStorage = Some 0;
             serverReconciler = NewDHCPServerReconciler knownObjectsStorage logger;
             (c1, err) = DHCPServerReconciler_SetupWithManager (env_Complete env) ServerController in
         exit_on 1 err
           (let subnetReconciler = NewDHCPSubnetReconciler knownObjectsStorage;
                (c2, err) = DHCPSubnetReconciler_SetupWithManager (env_Complete env) SubnetController in
            exit_on 1 err
              (let hostReconciler = NewDHCPHostReconciler knownObjectsStorage;
                   (c3, err) = DHCPHostReconciler_SetupWithManager (env_Complete env) HostController in
               exit_on 1 err
                 (let second = \<lparr>hr_DHCPServer = None, hr_hostsCache = None, hr_knownObjects = None\<rparr>;
                      (c4, err) = DHCPHostReconciler_SetupWithManager (env_Complete env) SecondHostController in
                  exit_on 1 err
                    (exit_on 1 (env_AddHealthzCheck env)
                      (exit_on 1 (env_AddReadyzCheck env)
                        (case NewServer (env_UDPSocket env) (GetLocalAddresses (env_Interfaces env)) ord main_config of
                           ExitFatal \<Rightarrow> Inl 1
                         | NewServerResult srv (Some e) \<Rightarrow> Inl 2
                         | NewServerResult None None \<Rightarrow> Inl 2
                         | NewServerResult (Some dhcpServer) None \<Rightarrow>
                             Inr \<lparr>pr_serverReconciler = serverReconciler\<lparr>vr_DHCPServer := Some 0\<rparr>,
                                  pr_subnetReconciler = subnetReconciler\<lparr>sr_DHCPServer := Some 0\<rparr>,
                                  pr_hostReconciler = hostReconciler\<lparr>hr_DHCPServer := Some 0\<rparr>,
                                  pr_secondHostReconciler = second,
                                  pr_controllers = [c1, c2, c3, c4],
                                  pr_checks = [''healthz'', ''readyz''], pr_server = dhcpServer\<rparr>))))))))"

text \<open>
  \<open>run\<close> is the work of the manager on the server until it stops. The deferred close of the
  server runs when \<^verbatim>\<open>main\<close> returns and not when it exits.
\<close>

datatype main_end = Exited nat | Returned Server

definition main :: "interfaceName list \<Rightarrow> main_env \<Rightarrow> (Process \<Rightarrow> Server \<times> string option) \<Rightarrow> (Server \<Rightarrow> string list) \<Rightarrow> main_end" where
  "main ord env run ordC =
     (case set_up ord env of
        Inl code \<Rightarrow> Exited code
      | Inr p \<Rightarrow>
          (case run p of
             (srv, Some e) \<Rightarrow> Exited 1
           | (srv, None) \<Rightarrow> Returned (Server_Close (ordC srv) srv)))"

section \<open>Properties\<close>

lemma every_object_is_registered: "object_kind x \<in> set SchemeBuilder"
  by (cases x) (simp_all add: SchemeBuilder_def init_hosts_def init_servers_def init_subnets_def Register_def)

lemma exit_on_Inr [simp]: "exit_on code err rest = Inr v \<longleftrightarrow> err = None \<and> rest = Inr v"
  by (simp add: exit_on_def split: option.split)

lemmas new_reconciler_defs = NewDHCPHostReconciler_def NewDHCPServerReconciler_def NewDHCPSubnetReconciler_def
lemmas setup_defs = DHCPServerReconciler_SetupWithManager_def DHCPSubnetReconciler_SetupWithManager_def
  DHCPHostReconciler_SetupWithManager_def

lemma set_up_Inr:
  assumes "set_up ord env = Inr p"
  shows "NewServer (env_UDPSocket env) (GetLocalAddresses (env_Interfaces env)) ord main_config = NewServerResult (Some (pr_server p)) None"
    and "pr_controllers p = [(ServerController, ''DHCPServer''), (SubnetController, ''DHCPSubnet''), (HostController, ''DHCPHost''),
      (SecondHostController, ''DHCPHost'')]"
    and "pr_hostReconciler p = \<lparr>hr_DHCPServer = Some 0, hr_hostsCache = None, hr_knownObjects = Some 0\<rparr>"
    and "pr_secondHostReconciler p = \<lparr>hr_DHCPServer = None, hr_hostsCache = None, hr_knownObjects = None\<rparr>"
    and "vr_DHCPServer (pr_serverReconciler p) = Some 0" "vr_cache (pr_serverReconciler p) = Some 0"
    and "sr_DHCPServer (pr_subnetReconciler p) = Some 0" "sr_knownObjects (pr_subnetReconciler p) = Some 0"
  using assms
  by (auto simp: set_up_def Let_def new_reconciler_defs setup_defs split: new_server.splits option.splits)

lemma set_up_exit_codes:
  assumes "set_up ord env = Inl code"
  shows "code = 1 \<or> code = 2 \<and> (\<exists>e. GetLocalAddresses (env_Interfaces env) = Inl e)"
  using assms
  by (auto simp: set_up_def Let_def exit_on_def NewServer_def main_config_def setup_defs split: option.splits sum.splits prod.splits)

text \<open>C17: once the process is set up, its three reconcilers share one cache and one server, in its initial state, and no reconciliation of the host reconciler stops at a nil pointer: it is the reconciliation of the model. But a fourth controller is registered for the same hosts with neither, and its reconciliation panics for every host object that exists, whatever the state.\<close>

theorem second_host_reconciler_panics:
  assumes "set_up ord env = Inr p"
  shows "hr_knownObjects (pr_hostReconciler p) = vr_cache (pr_serverReconciler p) \<and>
    sr_knownObjects (pr_subnetReconciler p) = vr_cache (pr_serverReconciler p) \<and>
    hr_DHCPServer (pr_hostReconciler p) = vr_DHCPServer (pr_serverReconciler p) \<and>
    sr_DHCPServer (pr_subnetReconciler p) = vr_DHCPServer (pr_serverReconciler p) \<and>
    srv_subnets (pr_server p) = Map.empty \<and> srv_leases (pr_server p) = [] \<and>
    (op_hostsCache st = Map.empty \<longrightarrow>
       DHCPHostReconciler_Reconcile (pr_hostReconciler p) ordS get st req = Returns (HostReconcile ordS get st req)) \<and>
    (HostController, ''DHCPHost'') \<in> set (pr_controllers p) \<and> (SecondHostController, ''DHCPHost'') \<in> set (pr_controllers p) \<and>
    DHCPHostReconciler_Reconcile (pr_secondHostReconciler p) ordS (Inr host) st req = Panics"
proof -
  note p = set_up_Inr [OF assms]
  have "srv_subnets srv = Map.empty \<and> srv_leases srv = []" if "NewServer udp getter ord c = NewServerResult (Some srv) e"
    for udp getter c srv e
    using that by (auto simp: NewServer_def Let_def split: sum.splits if_splits prod.splits)
  from this [OF p(1)] have "srv_subnets (pr_server p) = Map.empty \<and> srv_leases (pr_server p) = []" .
  moreover have "DHCPHostReconciler_Reconcile (pr_hostReconciler p) ordS get st req = Returns (HostReconcile ordS get st req)"
    if "op_hostsCache st = Map.empty"
    using that by (simp add: p(3) DHCPHostReconciler_Reconcile_def HostReconcile_def Let_def split: sum.split api_error.split prod.split)
  moreover have "DHCPHostReconciler_Reconcile (pr_secondHostReconciler p) ordS (Inr host) st req = Panics"
    by (simp add: p(4) DHCPHostReconciler_Reconcile_def)
  ultimately show ?thesis using p(2,5-8) by (simp add: p(3))
qed

definition sample_env :: main_env where
  "sample_env =
     \<lparr>env_NewManager = None, env_Complete = (\<lambda>c kind. None), env_AddHealthzCheck = None, env_AddReadyzCheck = None,
      env_Interfaces = Inr [], env_UDPSocket = (\<lambda>addr iface. Inr 7)\<rparr>"

theorem second_host_reconciler_panics_witness:
  "\<exists>p. set_up [] sample_env = Inr p \<and>
     DHCPHostReconciler_Reconcile (pr_secondHostReconciler p) (\<lambda>_. []) (Inr sample_k8s_host) (new_operator (pr_server p)) (''default'', ''pxe'') = Panics"
proof -
  obtain p where p: "set_up [] sample_env = Inr p"
    by (simp add: set_up_def sample_env_def Let_def exit_on_def setup_defs NewServer_def main_config_def GetLocalAddresses_def)
  show ?thesis
    using second_host_reconciler_panics [OF p, of "new_operator (pr_server p)" "\<lambda>_. []" "Inl NotFound" "(''default'', ''pxe'')" sample_k8s_host] p
    by blast
qed

end
