(* ===== verification/Raw_Packets.thy ===== *)
theory Raw_Packets
  imports Dhcp_Api
begin

text \<open>
  Raw Ethernet sockets, as \<^verbatim>\<open>dhcp/broadcast_responder.go\<close> and \<^verbatim>\<open>dhcp/client/client.go\<close> use them:
  the layers a frame is built of, the functions of the gopacket and dhcpv4 packages that
  build it (parameters), and the system calls as a trace of events.
\<close>

record EthernetLayer =
  eth_EthernetType :: "16 word"
  eth_SrcMAC :: "byte list"
  eth_DstMAC :: "byte list"

record IPv4Layer =
  ipl_Version :: byte
  ipl_TTL :: byte
  ipl_SrcIP :: net_IP
  ipl_DstIP :: net_IP
  ipl_Protocol :: byte
  ipl_DontFragment :: bool

record UDPLayer =
  udp_SrcPort :: "16 word"
  udp_DstPort :: "16 word"

record SockaddrLinklayer =
  sa_Protocol :: "16 word"
  sa_Ifindex :: int
  sa_Hatype :: "16 word"
  sa_Pkttype :: byte
  sa_Halen :: byte
  sa_Addr :: "byte list"

record NetInterface =
  if_Name :: string
  if_Index :: int
  if_HardwareAddr :: "byte list"

text \<open>
  \<^verbatim>\<open>packet.Layer\<close> returns a nil interface for bytes that do not decode; the type assertion of
  the sources then fails, and their error path calls a method of the nil interface. The bytes
  of \<open>pk_HWBytes\<close> are those the slice of the client's hardware address has room for, its
  length and beyond: taking six bytes of a smaller slice panics.
\<close>

datatype 'l DecodedLayer = NilLayer | OtherLayer string | SerializableLayer 'l

record 'l packet_lib =
  pk_ToBytes :: "DHCPv4 \<Rightarrow> byte list"
  pk_HWBytes :: "DHCPv4 \<Rightarrow> byte list"
  pk_SetNetworkLayer :: "UDPLayer \<Rightarrow> IPv4Layer \<Rightarrow> string option"
  pk_Layer :: "byte list \<Rightarrow> 'l DecodedLayer"
  pk_SerializeLayers :: "EthernetLayer \<Rightarrow> IPv4Layer \<Rightarrow> UDPLayer \<Rightarrow> 'l \<Rightarrow> (string, byte list) result"

record raw_syscalls =
  sys_InterfaceByName :: "string \<Rightarrow> (string, NetInterface) result"
  sys_Socket :: "(string, int) result"
  sys_SetsockoptInt :: "int \<Rightarrow> string option"
  sys_Sendto :: "int \<Rightarrow> byte list \<Rightarrow> SockaddrLinklayer \<Rightarrow> string option"

datatype raw_event = Opened int | Sendto int "byte list" SockaddrLinklayer | Closed int

text \<open>The descriptors a trace leaves open, and the frames it hands to the kernel.\<close>

fun open_fds :: "int set \<Rightarrow> raw_event list \<Rightarrow> int set" where
  "open_fds fds [] = fds"
| "open_fds fds (Opened fd # es) = open_fds (insert fd fds) es"
| "open_fds fds (Closed fd # es) = open_fds (fds - {fd}) es"
| "open_fds fds (Sendto _ _ _ # es) = open_fds fds es"

lemma open_fds_append: "open_fds fds (es @ fs) = open_fds (open_fds fds es) fs"
  by (induction fds es rule: open_fds.induct) simp_all

text \<open>Decoding the DHCP bytes as a layer and building the bytes of the frame.\<close>

datatype frame = FramePanic | FrameError string | Frame "byte list"

definition build_frame :: "'l packet_lib \<Rightarrow> string \<Rightarrow> EthernetLayer \<Rightarrow> IPv4Layer \<Rightarrow> UDPLayer \<Rightarrow> DHCPv4 \<Rightarrow> frame" where
  "build_frame pk what eth ip udp packet =
     (case pk_Layer pk (pk_ToBytes pk packet) of
        NilLayer \<Rightarrow> FramePanic
      | OtherLayer name \<Rightarrow> FrameError (''layer '' @ name @ '' is not serializable'')
      | SerializableLayer dhcp \<Rightarrow>
          case pk_SerializeLayers pk eth ip udp dhcp of
            Inl e \<Rightarrow> FrameError (what @ e)
          | Inr bytes \<Rightarrow> Frame bytes)"

lemma build_frame_bytes:
  "build_frame pk what eth ip udp packet = Frame bytes \<longleftrightarrow>
   (\<exists>dhcp. pk_Layer pk (pk_ToBytes pk packet) = SerializableLayer dhcp \<and>
      pk_SerializeLayers pk eth ip udp dhcp = Inr bytes)"
  by (auto simp: build_frame_def split: DecodedLayer.splits sum.splits)

end
