(* ===== verification/Dhcp_Socket.thy ===== *)
theory Dhcp_Socket
  imports Dhcp_Server Raw_Packets
begin

text \<open>
  \<^verbatim>\<open>dhcp/socket.go\<close> and \<^verbatim>\<open>dhcp/broadcast_responder.go\<close>: the UDP socket with its cache
  of broadcast responders. The system calls, the packet layers of gopacket and the
  parser of the dhcpv4 package are arguments: what they return is given, and what the
  source does with it is modelled.
\<close>

section \<open>Errors\<close>

text \<open>
  The errors of the network packages, as far as the source looks into them: a
  \<^verbatim>\<open>*net.OpError\<close> wraps an error and says whether it is temporary.
\<close>

datatype go_error =
  ErrClosed
| GoError string
| OpError (op_Err: go_error) (op_Temporary: bool)

fun Unwrap :: "go_error \<Rightarrow> go_error option" where
  "Unwrap (OpError e _) = Some e"
| "Unwrap _ = None"

section \<open>Broadcast responder\<close>

record BroadcastResponder =
  br_fd :: int
  br_layer :: SockaddrLinklayer
  br_eth :: EthernetLayer
  br_ip :: IPv4Layer
  br_udp :: UDPLayer
  br_ifname :: interfaceName

text \<open>Each operation returns the system calls it made besides its result.\<close>

definition RawSocketBroadcastResponderFactory ::
  "'l packet_lib \<Rightarrow> raw_syscalls \<Rightarrow> interfaceName \<Rightarrow> raw_event list \<times> (string, BroadcastResponder) result" where
  "RawSocketBroadcastResponderFactory pk sys ifName =
     (case sys_InterfaceByName sys ifName of
        Inl e \<Rightarrow> ([], Inl e)
      | Inr iface \<Rightarrow>
          case sys_Socket sys of
            Inl e \<Rightarrow> ([], Inl (''cannot open socket: '' @ e))
          | Inr fd \<Rightarrow>
              case sys_SetsockoptInt sys fd of
                Some e \<Rightarrow> ([Opened fd], Inl (''cannot set option for socket: '' @ e))
              | None \<Rightarrow>
                  let responder =
                    \<lparr>br_fd = fd,
                     br_layer = \<lparr>sa_Protocol = 0, sa_Ifindex = if_Index iface, sa_Hatype = 0, sa_Pkttype = 0, sa_Halen = 6,
                       sa_Addr = replicate 8 0\<rparr>,
                     br_eth = \<lparr>eth_EthernetType = 0x0800, eth_SrcMAC = if_HardwareAddr iface, eth_DstMAC = []\<rparr>,
                     br_ip = \<lparr>ipl_Version = 4, ipl_TTL = 64, ipl_SrcIP = None, ipl_DstIP = None, ipl_Protocol = 17,
                       ipl_DontFragment = True\<rparr>,
                     br_udp = \<lparr>udp_SrcPort = 67, udp_DstPort = 68\<rparr>, br_ifname = ifName\<rparr> in
                  case pk_SetNetworkLayer pk (br_udp responder) (br_ip responder) of
                    Some e \<Rightarrow> ([Opened fd], Inl (''couldn'' @ [CHR 0x27] @ ''t set network layer: '' @ e))
                  | None \<Rightarrow> ([Opened fd], Inr responder))"

text \<open>
  The six bytes of the client's hardware address are copied into a variable that is not used:
  the link-layer address of the responder stays zero.
\<close>

definition BroadcastResponder_Send ::
  "'l packet_lib \<Rightarrow> raw_syscalls \<Rightarrow> BroadcastResponder \<Rightarrow> DHCPv4
   \<Rightarrow> raw_event list \<times> (BroadcastResponder \<times> string option) outcome" where
  "BroadcastResponder_Send pk sys r resp =
     (let r = r\<lparr>br_eth := (br_eth r)\<lparr>eth_DstMAC := ClientHWAddr resp\<rparr>\<rparr>;
          r = r\<lparr>br_ip := (br_ip r)\<lparr>ipl_SrcIP := ServerIPAddr resp\<rparr>\<rparr>;
          r = r\<lparr>br_ip := (br_ip r)\<lparr>ipl_DstIP := YourIPAddr resp\<rparr>\<rparr> in
      case build_frame pk ''cannot serialize layer: '' (br_eth r) (br_ip r) (br_udp r) resp of
        FramePanic \<Rightarrow> ([], Panics)
      | FrameError e \<Rightarrow> ([], Returns (r, Some e))
      | Frame bytes \<Rightarrow>
          if length (pk_HWBytes pk resp) < 6 then ([], Panics)
          else ([Sendto (br_fd r) bytes (br_layer r)], Returns (r, sys_Sendto sys (br_fd r) bytes (br_layer r))))"

definition BroadcastResponder_Close :: "BroadcastResponder \<Rightarrow> raw_event list" where
  "BroadcastResponder_Close r = [Closed (br_fd r)]"

section \<open>UDP socket\<close>

record UDPSocket =
  us_conn :: socket_id
  us_interfaceName :: string
  us_listenAddress :: string
  us_listenPort :: int
  us_bcResponders :: "interfaceName \<rightharpoonup> BroadcastResponder"

definition ServerPort :: int where
  "ServerPort = 67"

text \<open>
  \<open>listen\<close> opens the connection for an interface, an address and a port, \<open>control\<close> asks
  for the control messages; an error of the latter comes together with the socket.
\<close>

definition NewUDPSocket ::
  "(string \<Rightarrow> net_IP \<Rightarrow> int \<Rightarrow> (dhcp_error, socket_id) result) \<Rightarrow> (socket_id \<Rightarrow> dhcp_error option)
   \<Rightarrow> string \<Rightarrow> string \<Rightarrow> UDPSocket option \<times> dhcp_error option" where
  "NewUDPSocket listen control listenAddress listenInterface =
     (let laddr = Split (CHR '':'') listenAddress in
      if length laddr > 2 then (None, Some (ErrListenAddress listenAddress))
      else
        case (if length laddr = 2 then map_sum ErrNum id (ParseInt (laddr ! 1) 16) else Inr ServerPort) of
          Inl e \<Rightarrow> (None, Some e)
        | Inr port \<Rightarrow>
            (case listen listenInterface (ParseIP (laddr ! 0)) port of
               Inl e \<Rightarrow> (None, Some e)
             | Inr conn \<Rightarrow>
                 (Some \<lparr>us_conn = conn, us_interfaceName = listenInterface, us_listenAddress = listenAddress,
                        us_listenPort = port, us_bcResponders = Map.empty\<rparr>, control conn)))"

text \<open>
  \<^verbatim>\<open>NextRequest\<close>: \<open>read\<close> is the outcome of the read (the bytes, the control message with the
  index of the interface and the destination, and the source), \<open>ifname\<close> the lookup of the
  interface by its index and \<open>parse\<close> the parser of the package. The control message may be
  nil; the source looks into it all the same.
\<close>

definition NextRequest ::
  "(go_error, byte list \<times> (nat \<times> net_IP) option \<times> string) result \<Rightarrow> (nat \<Rightarrow> (go_error, string) result)
   \<Rightarrow> (byte list \<Rightarrow> (go_error, DHCPv4) result) \<Rightarrow> UDPSocket \<Rightarrow> (go_error, Request) result outcome" where
  "NextRequest read ifname parse s =
     (case read of
        Inl e \<Rightarrow> Returns (Inl e)
      | Inr (buf, None, src) \<Rightarrow> Panics
      | Inr (buf, Some (i, dst), src) \<Rightarrow>
          Returns (andthen (ifname i) (\<lambda>name.
            andthen (parse buf) (\<lambda>p.
            Inr \<lparr>req_DHCPv4 = p, req_Src = src, req_InterfaceName = name, req_Dst = dst, req_socket = us_conn s\<rparr>))))"

text \<open>
  A reply to a relay: the server identifier becomes the local address of a socket that
  is connected to the relay (\<open>dial\<close>), and the packet goes back to its sender.
\<close>

definition getSrcAddr :: "(net_IP \<Rightarrow> int \<Rightarrow> (string, net_IP) result) \<Rightarrow> net_IP \<Rightarrow> (string, net_IP) result" where
  "getSrcAddr dial dst = dial dst 123"

definition SendResponse ::
  "dhcpv4_lib \<Rightarrow> (net_IP \<Rightarrow> int \<Rightarrow> (string, net_IP) result) \<Rightarrow> (DHCPv4 \<Rightarrow> string \<Rightarrow> string option)
   \<Rightarrow> Request \<Rightarrow> DHCPv4 \<Rightarrow> string option" where
  "SendResponse lib dial write req resp =
     (case getSrcAddr dial (GatewayIPAddr (req_DHCPv4 req)) of
        Inl e \<Rightarrow> Some e
      | Inr src \<Rightarrow> write (lib_UpdateOption lib (GenericOption 54 (OptIP src)) resp) (req_Src req))"

definition SendBroadcast ::
  "'l packet_lib \<Rightarrow> raw_syscalls \<Rightarrow> UDPSocket \<Rightarrow> Request \<Rightarrow> DHCPv4
   \<Rightarrow> raw_event list \<times> (UDPSocket \<times> string option) outcome" where
  "SendBroadcast pk sys s req resp =
     (let name = req_InterfaceName req;
          (made, found) =
            (case us_bcResponders s name of
               Some r \<Rightarrow> ([], Inr r)
             | None \<Rightarrow> RawSocketBroadcastResponderFactory pk sys name) in
      case found of
        Inl e \<Rightarrow> (made, Returns (s, Some e))
      | Inr r \<Rightarrow>
          let (sent, res) = BroadcastResponder_Send pk sys r resp in
          (made @ sent,
           case res of
             Panics \<Rightarrow> Panics
           | Returns (r', err) \<Rightarrow> Returns (s\<lparr>us_bcResponders := (us_bcResponders s)(name \<mapsto> r')\<rparr>, err)))"

text \<open>Closing the socket closes its connection; an error of it is logged.\<close>

definition UDPSocket_Close :: "UDPSocket \<Rightarrow> socket_id list \<times> raw_event list" where
  "UDPSocket_Close s = ([us_conn s], [])"

text \<open>\<^verbatim>\<open>Response.Send\<close>: a request that came through a relay is answered to the relay.\<close>

datatype transport = ViaBroadcast | ViaRelay

definition Response_Send :: "Response \<Rightarrow> transport" where
  "Response_Send r =
     (if isAddressZero (GatewayIPAddr (req_DHCPv4 (resp_Request r))) then ViaBroadcast else ViaRelay)"

section \<open>Properties\<close>

text \<open>C36: a listen address of a host and a decimal port opens that address and port when the port is
  below 32768, and is rejected as out of range from 32768 to 65535, because the port is
  parsed as a signed integer of 16 bits. Without a port the server listens at port 67.\<close>

theorem listen_port_limit:
  assumes "CHR '':'' \<notin> set host" "n \<le> 65535"
    and "listen ifname (ParseIP host) (int n) = Inr conn" "listen ifname (ParseIP host) 67 = Inr conn'"
  shows "(case NewUDPSocket listen control (host @ '':'' @ dec n) ifname of (u, err) \<Rightarrow>
      if n < 32768 then map_option us_listenPort u = Some (int n) \<and> map_option us_conn u = Some conn \<and> err = control conn
      else u = None \<and> err = Some (ErrNum ErrRange)) \<and>
    map_option us_listenPort (fst (NewUDPSocket listen control host ifname)) = Some 67"
proof -
  have "CHR '':'' \<notin> set (dec n)"
    using dec_digits [of "CHR '':''" n] by (auto simp: is_digit_def digit_val_def)
  then have split: "Split (CHR '':'') (host @ '':'' @ dec n) = [host, dec n]" "Split (CHR '':'') host = [host]"
    using assms(1) by (simp_all add: Split_append Split_single)
  show ?thesis
  proof (cases "n < 32768")
    case True
    then have "ParseInt (dec n) 16 = Inr (int n)" by (intro ParseInt_dec) simp_all
    then show ?thesis using True split assms(3,4) by (simp add: NewUDPSocket_def ServerPort_def)
  next
    case False
    then have "ParseInt (dec n) 16 = Inl ErrRange" using assms(2) by (intro ParseInt_dec_range) simp_all
    then show ?thesis using False split assms(4) by (simp add: NewUDPSocket_def ServerPort_def)
  qed
qed

theorem listen_port_limit_witness:
  "NewUDPSocket (\<lambda>_ _ _. Inr 7) (\<lambda>_. None) (''10.0.0.1'' @ '':'' @ dec 40000) ''eth0'' = (None, Some (ErrNum ErrRange))"
  using listen_port_limit [of "''10.0.0.1''" 40000 "\<lambda>_ _ _. Inr 7" "''eth0''" 7 7 "\<lambda>_. None"] by (simp add: prod_eq_iff split_beta)

section \<open>Broadcasts\<close>

text \<open>
  The responders of a socket hold open descriptors, each sends with the ports of the protocol
  to its own interface.
\<close>

definition responder_ok :: "raw_syscalls \<Rightarrow> interfaceName \<Rightarrow> BroadcastResponder \<Rightarrow> bool" where
  "responder_ok sys name r \<longleftrightarrow>
     (\<exists>iface. sys_InterfaceByName sys name = Inr iface \<and> sa_Ifindex (br_layer r) = if_Index iface \<and>
        eth_SrcMAC (br_eth r) = if_HardwareAddr iface) \<and>
     br_udp r = \<lparr>udp_SrcPort = 67, udp_DstPort = 68\<rparr> \<and> eth_EthernetType (br_eth r) = 0x0800 \<and>
     ipl_Protocol (br_ip r) = 17"

definition responders_ok :: "raw_syscalls \<Rightarrow> int set \<Rightarrow> UDPSocket \<Rightarrow> bool" where
  "responders_ok sys fds s \<longleftrightarrow>
     (\<forall>name r. us_bcResponders s name = Some r \<longrightarrow> br_fd r \<in> fds \<and> responder_ok sys name r)"

lemma factory_ok:
  "RawSocketBroadcastResponderFactory pk sys name = (es, Inr r) \<Longrightarrow> es = [Opened (br_fd r)] \<and> responder_ok sys name r"
  by (auto simp: RawSocketBroadcastResponderFactory_def responder_ok_def Let_def split: sum.splits option.splits)

lemma factory_opens: "fds \<subseteq> open_fds fds (fst (RawSocketBroadcastResponderFactory pk sys name))"
  by (auto simp: RawSocketBroadcastResponderFactory_def Let_def split: sum.splits option.splits)

lemma Send_keeps:
  assumes "BroadcastResponder_Send pk sys r resp = (es, Returns (r', err))"
  shows "open_fds fds es = fds" "br_fd r' = br_fd r" "responder_ok sys name r \<Longrightarrow> responder_ok sys name r'"
  using assms
  by (auto simp: BroadcastResponder_Send_def Let_def responder_ok_def split: frame.splits if_splits)

lemma SendBroadcast_cases:
  assumes "SendBroadcast pk sys s req resp = (es, Returns (s', err))"
  obtains (failed) e where "us_bcResponders s (req_InterfaceName req) = None"
      "RawSocketBroadcastResponderFactory pk sys (req_InterfaceName req) = (es, Inl e)" "s' = s" "err = Some e"
  | (cached) r r' where "us_bcResponders s (req_InterfaceName req) = Some r"
      "BroadcastResponder_Send pk sys r resp = (es, Returns (r', err))"
      "s' = s\<lparr>us_bcResponders := (us_bcResponders s)(req_InterfaceName req \<mapsto> r')\<rparr>"
  | (made) r r' made sent where "us_bcResponders s (req_InterfaceName req) = None"
      "RawSocketBroadcastResponderFactory pk sys (req_InterfaceName req) = (made, Inr r)"
      "BroadcastResponder_Send pk sys r resp = (sent, Returns (r', err))" "es = made @ sent"
      "s' = s\<lparr>us_bcResponders := (us_bcResponders s)(req_InterfaceName req \<mapsto> r')\<rparr>"
  using assms
  by (auto simp: SendBroadcast_def Let_def split: option.splits prod.splits sum.splits outcome.splits)

lemma SendBroadcast_ok:
  assumes "SendBroadcast pk sys s req resp = (es, Returns (s', err))" and ok: "responders_ok sys fds s"
  shows "responders_ok sys (open_fds fds es) s' \<and> fds \<subseteq> open_fds fds es"
  using assms(1)
proof (cases rule: SendBroadcast_cases)
  case (failed e)
  then show ?thesis using ok factory_opens [of fds pk sys "req_InterfaceName req"] by (auto simp: responders_ok_def)
next
  case (cached r r')
  then show ?thesis using ok Send_keeps [OF cached(2)] by (auto simp: responders_ok_def)
next
  case (made r r' made sent)
  have "open_fds fds es = insert (br_fd r) fds"
    using factory_ok [OF made(2)] Send_keeps(1) [OF made(3)] by (simp add: made(4) open_fds_append)
  then show ?thesis
    using ok Send_keeps(2,3) [OF made(3)] factory_ok [OF made(2)] by (auto simp: responders_ok_def made(5))
qed

text \<open>What a frame of a reply must carry.\<close>

definition reply_frame :: "'l packet_lib \<Rightarrow> NetInterface \<Rightarrow> DHCPv4 \<Rightarrow> byte list \<Rightarrow> bool" where
  "reply_frame pk iface resp bytes \<longleftrightarrow>
     (\<exists>eth ip udp dhcp.
        pk_Layer pk (pk_ToBytes pk resp) = SerializableLayer dhcp \<and> pk_SerializeLayers pk eth ip udp dhcp = Inr bytes \<and>
        eth_EthernetType eth = 0x0800 \<and> eth_SrcMAC eth = if_HardwareAddr iface \<and> eth_DstMAC eth = ClientHWAddr resp \<and>
        ipl_Protocol ip = 17 \<and> ipl_SrcIP ip = ServerIPAddr resp \<and> ipl_DstIP ip = YourIPAddr resp \<and>
        udp_SrcPort udp = 67 \<and> udp_DstPort udp = 68)"

lemma Send_frame:
  assumes "BroadcastResponder_Send pk sys r resp = (es, Returns (r', None))" and "responder_ok sys name r"
  shows "\<exists>bytes iface. es = [Sendto (br_fd r) bytes (br_layer r)] \<and> sys_InterfaceByName sys name = Inr iface \<and>
    sa_Ifindex (br_layer r) = if_Index iface \<and> reply_frame pk iface resp bytes"
proof -
  define r1 where "r1 = r\<lparr>br_eth := (br_eth r)\<lparr>eth_DstMAC := ClientHWAddr resp\<rparr>,
    br_ip := (br_ip r)\<lparr>ipl_SrcIP := ServerIPAddr resp, ipl_DstIP := YourIPAddr resp\<rparr>\<rparr>"
  from assms(1) obtain bytes where
    b: "build_frame pk ''cannot serialize layer: '' (br_eth r1) (br_ip r1) (br_udp r1) resp = Frame bytes"
    and es: "es = [Sendto (br_fd r) bytes (br_layer r)]"
    by (auto simp: BroadcastResponder_Send_def Let_def r1_def split: frame.splits if_splits)
  from assms(2) obtain iface where "sys_InterfaceByName sys name = Inr iface"
    "sa_Ifindex (br_layer r) = if_Index iface" "eth_SrcMAC (br_eth r) = if_HardwareAddr iface"
    by (auto simp: responder_ok_def)
  moreover from this(3) b assms(2) have "reply_frame pk iface resp bytes"
    unfolding build_frame_bytes reply_frame_def
    by (intro exI [of _ "br_eth r1"] exI [of _ "br_ip r1"] exI [of _ "br_udp r1"]) (auto simp: r1_def responder_ok_def)
  ultimately show ?thesis using es by blast
qed

text \<open>C16: a broadcast that returns without an error has handed the kernel exactly one frame, on an open raw socket and with the index of the interface the request came from; the frame is the reply, from the address of the server and port 67 to the offered address and port 68, for the hardware address of the client. A socket is opened only for the first reply on an interface, and the cached responders stay correct for the next one.\<close>

theorem broadcast_sends_the_reply:
  assumes "responders_ok sys fds s" and "SendBroadcast pk sys s req resp = (es, Returns (s', None))"
  shows "\<exists>fd bytes sa iface. (es = [Sendto fd bytes sa] \<or>
        us_bcResponders s (req_InterfaceName req) = None \<and> es = [Opened fd, Sendto fd bytes sa]) \<and>
      fd \<in> open_fds fds es \<and> sys_InterfaceByName sys (req_InterfaceName req) = Inr iface \<and>
      sa_Ifindex sa = if_Index iface \<and> reply_frame pk iface resp bytes \<and> responders_ok sys (open_fds fds es) s'"
  using assms(2)
proof (cases rule: SendBroadcast_cases)
  case (failed e)
  then show ?thesis by simp
next
  case (cached r r')
  then have "br_fd r \<in> fds" "responder_ok sys (req_InterfaceName req) r" using assms(1) by (auto simp: responders_ok_def)
  then obtain bytes iface where "es = [Sendto (br_fd r) bytes (br_layer r)]" "sys_InterfaceByName sys (req_InterfaceName req) = Inr iface"
    "sa_Ifindex (br_layer r) = if_Index iface" "reply_frame pk iface resp bytes" "br_fd r \<in> open_fds fds es"
    using Send_frame [OF cached(2), of "req_InterfaceName req"] by auto
  then show ?thesis using SendBroadcast_ok [OF assms(2,1)] by blast
next
  case (made r r' made sent)
  have m: "made = [Opened (br_fd r)]" "responder_ok sys (req_InterfaceName req) r" using factory_ok [OF made(2)] by simp_all
  have "br_fd r \<in> open_fds fds es"
    using Send_keeps(1) [OF made(3)] by (simp add: made(4) m(1) open_fds_append)
  moreover obtain bytes iface where "es = [Opened (br_fd r), Sendto (br_fd r) bytes (br_layer r)]"
    "sys_InterfaceByName sys (req_InterfaceName req) = Inr iface"
    "sa_Ifindex (br_layer r) = if_Index iface" "reply_frame pk iface resp bytes"
    using Send_frame [OF made(3) m(2)] made(4) m(1) by auto
  ultimately show ?thesis using SendBroadcast_ok [OF assms(2,1)] made(1) by blast
qed

text \<open>
  Closing the socket leaves the descriptors of its responders open: nothing calls the \<^verbatim>\<open>Close\<close>
  of a responder.
\<close>

lemma close_leaks_responders:
  assumes "responders_ok sys fds s" and "us_bcResponders s name = Some r"
  shows "br_fd r \<in> open_fds fds (snd (UDPSocket_Close s)) \<and> br_fd r \<notin> open_fds fds (BroadcastResponder_Close r)"
  using assms by (auto simp: responders_ok_def UDPSocket_Close_def BroadcastResponder_Close_def)

definition sample_packets :: "byte list packet_lib" where
  "sample_packets =
     \<lparr>pk_ToBytes = (\<lambda>p. [OpCode p]), pk_HWBytes = ClientHWAddr, pk_SetNetworkLayer = (\<lambda>udp ip. None),
      pk_Layer = SerializableLayer, pk_SerializeLayers = (\<lambda>eth ip udp dhcp. Inr (eth_DstMAC eth @ dhcp))\<rparr>"

definition sample_syscalls :: raw_syscalls where
  "sample_syscalls =
     \<lparr>sys_InterfaceByName = (\<lambda>name. Inr \<lparr>if_Name = name, if_Index = 3, if_HardwareAddr = [2, 0, 0, 0, 0, 9]\<rparr>),
      sys_Socket = Inr 11, sys_SetsockoptInt = (\<lambda>fd. None), sys_Sendto = (\<lambda>fd bytes sa. None)\<rparr>"

definition sample_socket :: UDPSocket where
  "sample_socket = \<lparr>us_conn = 7, us_interfaceName = ''eth0'', us_listenAddress = [], us_listenPort = 67, us_bcResponders = Map.empty\<rparr>"

definition sample_reply :: DHCPv4 where
  "sample_reply = \<lparr>OpCode = 2, ClientHWAddr = [0, 0, 0, 0, 0, 1], GatewayIPAddr = None, YourIPAddr = ip_of 167837954,
     ServerIPAddr = ip_of 167837953, BootFileName = [], ServerHostName = [], Options = Map.empty\<rparr>"

definition sample_broadcast :: Request where
  "sample_broadcast = \<lparr>req_DHCPv4 = sample_reply, req_Src = [], req_InterfaceName = ''eth0'', req_Dst = None, req_socket = 7\<rparr>"

theorem broadcast_sends_the_reply_witness:
  "\<exists>es s' fd bytes sa iface. SendBroadcast sample_packets sample_syscalls sample_socket sample_broadcast sample_reply = (es, Returns (s', None)) \<and>
     Sendto fd bytes sa \<in> set es \<and> fd \<in> open_fds {} es \<and> sa_Ifindex sa = if_Index iface \<and>
     reply_frame sample_packets iface sample_reply bytes"
proof -
  obtain es s' where r: "SendBroadcast sample_packets sample_syscalls sample_socket sample_broadcast sample_reply = (es, Returns (s', None))"
    by (simp add: SendBroadcast_def RawSocketBroadcastResponderFactory_def BroadcastResponder_Send_def build_frame_def
        sample_packets_def sample_syscalls_def sample_socket_def sample_broadcast_def sample_reply_def Let_def)
  have ok: "responders_ok sample_syscalls {} sample_socket" by (simp add: responders_ok_def sample_socket_def)
  show ?thesis using broadcast_sends_the_reply [OF ok r] r by force
qed

end
