(* ===== verification/Dhcp_Processor.thy ===== *)
theory Dhcp_Processor
  imports Dhcp_Socket Dhcp_Server_Props
begin

text \<open>
  \<^verbatim>\<open>dhcp/request_processor.go\<close>: the pipeline of a listener. \<^verbatim>\<open>Serve\<close> reads requests from
  the socket into a channel, \<^verbatim>\<open>runRequestProcessor\<close> computes the replies and
  \<^verbatim>\<open>runResponseProcessor\<close> saves them in batches and sends them.
\<close>

section \<open>Serve\<close>

text \<open>
  The loop over what the calls of \<^verbatim>\<open>NextRequest\<close> come to: the requests it hands to the worker
  and how it ends. A failed read whose error does not wrap a \<^verbatim>\<open>*net.OpError\<close> leaves the nil
  pointer in \<open>e\<close>, and \<^verbatim>\<open>e.Temporary()\<close> dereferences it.
\<close>

datatype serve_end = Reading | ServeReturns "go_error option" | ServePanics

fun Serve :: "(go_error, Request) result outcome list \<Rightarrow> Request list \<times> serve_end" where
  "Serve [] = ([], Reading)"
| "Serve (Panics # rs) = ([], ServePanics)"
| "Serve (Returns (Inr req) # rs) = (case Serve rs of (reqs, e) \<Rightarrow> (req # reqs, e))"
| "Serve (Returns (Inl err) # rs) =
     (case Unwrap err of
        Some (OpError e temp) \<Rightarrow>
          if e = ErrClosed then ([], ServeReturns None)
          else if \<not> temp then ([], ServeReturns (Some (OpError e temp)))
          else Serve rs
      | _ \<Rightarrow> ([], ServePanics))"

section \<open>runRequestProcessor\<close>

text \<open>
  One turn of the worker: the reply of the server, marked on the lease and queued. \<open>None\<close>
  would be a reply that is never computed; the list is what goes to the response channel.
\<close>

definition mark_ack :: "bool \<Rightarrow> lref option \<Rightarrow> Server \<Rightarrow> Server outcome" where
  "mark_ack b l srv =
     (case l of
        None \<Rightarrow> Panics
      | Some i \<Rightarrow> Returns (srv\<lparr>srv_leases := (srv_leases srv)[i := (srv_leases srv ! i)\<lparr>lease_AckSent := b\<rparr>]\<rparr>))"

definition process_request ::
  "dhcpv4_lib \<Rightarrow> (net_IP \<Rightarrow> SubnetAddrPrefix list) \<Rightarrow> go_time \<Rightarrow> go_time \<Rightarrow> Server \<Rightarrow> Request
   \<Rightarrow> (Server \<times> Response list) outcome option" where
  "process_request lib ords t now srv req =
     (case GetResponse lib ords t now srv req of
        None \<Rightarrow> None
      | Some Panics \<Rightarrow> Some Panics
      | Some (Returns (srv', Inl e)) \<Rightarrow> Some (Returns (srv', []))
      | Some (Returns (srv', Inr resp)) \<Rightarrow>
          (case lib_MessageType lib (resp_Response resp) of
             MessageTypeOffer \<Rightarrow>
               (case mark_ack False (resp_Lease resp) srv' of
                  Panics \<Rightarrow> Some Panics | Returns srv'' \<Rightarrow> Some (Returns (srv'', [resp])))
           | MessageTypeAck \<Rightarrow>
               (case mark_ack True (resp_Lease resp) srv' of
                  Panics \<Rightarrow> Some Panics | Returns srv'' \<Rightarrow> Some (Returns (srv'', [resp])))
           | _ \<Rightarrow> Some (Returns (srv', []))))"

section \<open>runResponseProcessor\<close>

text \<open>
  The state of the loop: where it is (at the \<^verbatim>\<open>select\<close>, blocked on the second receive, or
  returned), the batch it has collected, the channel, whether the channel is closed, the
  calls of \<^verbatim>\<open>callbackSaveLeases\<close> with their success, and the responses handed to \<^verbatim>\<open>Send\<close>.
\<close>

datatype worker_pc = AtSelect | AtReceive | WorkerReturned

record ResponseWorker =
  rw_pc :: worker_pc
  rw_responses :: "Response list"
  rw_chan :: "Response list"
  rw_closed :: bool
  rw_saves :: "(Response list \<times> bool) list"
  rw_sent :: "Response list"

text \<open>
  One turn of the loop; \<open>ok\<close> is what the callback answers if it is called. At the
  \<^verbatim>\<open>select\<close> the default branch is taken exactly when the channel is empty and open. A
  blocked receive on an empty open channel does not move.
\<close>

definition worker_turn :: "bool \<Rightarrow> ResponseWorker \<Rightarrow> ResponseWorker" where
  "worker_turn ok w =
     (case rw_pc w of
        WorkerReturned \<Rightarrow> w
      | AtSelect \<Rightarrow>
          (case rw_chan w of
             r # rs \<Rightarrow> w\<lparr>rw_responses := rw_responses w @ [r], rw_chan := rs\<rparr>
           | [] \<Rightarrow>
               if rw_closed w then w\<lparr>rw_pc := WorkerReturned\<rparr>
               else if length (rw_responses w) > 0 then
                 if \<not> ok then w\<lparr>rw_saves := rw_saves w @ [(rw_responses w, False)], rw_responses := []\<rparr>
                 else w\<lparr>rw_saves := rw_saves w @ [(rw_responses w, True)],
                        rw_sent := rw_sent w @ rw_responses w, rw_pc := AtReceive\<rparr>
               else w\<lparr>rw_pc := AtReceive\<rparr>)
      | AtReceive \<Rightarrow>
          (case rw_chan w of
             r # rs \<Rightarrow> w\<lparr>rw_responses := [r], rw_chan := rs, rw_pc := AtSelect\<rparr>
           | [] \<Rightarrow> if rw_closed w then w\<lparr>rw_pc := WorkerReturned\<rparr> else w))"

definition new_worker :: ResponseWorker where
  "new_worker = \<lparr>rw_pc = AtSelect, rw_responses = [], rw_chan = [], rw_closed = False, rw_saves = [], rw_sent = []\<rparr>"

text \<open>
  The other goroutine sends to the channel, which holds 1024 responses, or closes it, which is
  the last it does. While the channel is full the sender is blocked: the event cannot happen.
\<close>

datatype worker_event = Turn bool | Enqueue Response | CloseChan

definition possible :: "worker_event \<Rightarrow> ResponseWorker \<Rightarrow> bool" where
  "possible e w =
     (case e of
        Turn ok \<Rightarrow> True
      | Enqueue r \<Rightarrow> \<not> rw_closed w \<and> length (rw_chan w) < 1024
      | CloseChan \<Rightarrow> \<not> rw_closed w)"

definition worker_event :: "worker_event \<Rightarrow> ResponseWorker \<Rightarrow> ResponseWorker" where
  "worker_event e w =
     (case e of
        Turn ok \<Rightarrow> worker_turn ok w
      | Enqueue r \<Rightarrow> w\<lparr>rw_chan := rw_chan w @ [r]\<rparr>
      | CloseChan \<Rightarrow> w\<lparr>rw_closed := True\<rparr>)"

section \<open>The accounting of the response worker\<close>

text \<open>
  A run of the worker together with the responses its channel has received so far. The
  worker is an instance of the locale \<open>invariant_system\<close>.
\<close>

inductive worker_step :: "Response list \<times> ResponseWorker \<Rightarrow> Response list \<times> ResponseWorker \<Rightarrow> bool" where
  turn: "worker_step (past, w) (past, worker_event (Turn ok) w)"
| enqueue: "possible (Enqueue r) w \<Longrightarrow> worker_step (past, w) (past @ [r], worker_event (Enqueue r) w)"
| close_chan: "possible CloseChan w \<Longrightarrow> worker_step (past, w) (past, worker_event CloseChan w)"

text \<open>What the worker has received and not yet handed to the callback.\<close>

definition unsaved :: "ResponseWorker \<Rightarrow> Response list" where
  "unsaved w = (if rw_pc w = AtReceive then [] else rw_responses w)"

definition worker_inv :: "Response list \<times> ResponseWorker \<Rightarrow> bool" where
  "worker_inv pw = (case pw of (past, w) \<Rightarrow>
     rw_sent w = concat (map fst (filter snd (rw_saves w))) \<and>
     (\<exists>rest. past = concat (map fst (rw_saves w)) @ rest) \<and>
     (rw_pc w = WorkerReturned \<and> rw_closed w \<or> past = concat (map fst (rw_saves w)) @ unsaved w @ rw_chan w))"

lemma worker_turn_inv: "worker_inv (past, w) \<Longrightarrow> worker_inv (past, worker_turn ok w)"
  by (cases "rw_pc w"; cases "rw_chan w") (auto simp: worker_inv_def worker_turn_def unsaved_def)

lemma worker_step_inv: "worker_step pw pw' \<Longrightarrow> worker_inv pw \<Longrightarrow> worker_inv pw'"
proof (induction rule: worker_step.induct)
  case (turn past w ok)
  then show ?case by (simp add: worker_event_def worker_turn_inv)
qed (auto simp: worker_inv_def worker_event_def possible_def unsaved_def)

interpretation worker: invariant_system worker_step worker_inv
  by unfold_locales (rule worker_step_inv)

lemma new_worker_inv: "worker_inv ([], new_worker)"
  by (simp add: worker_inv_def new_worker_def unsaved_def)

text \<open>C5: whatever the interleaving of the two goroutines and the answers of the callback, the
  responses that were sent are those of the batches whose leases were saved, and the
  batches handed to the callback are, in order and once, what the channel received. Until
  the channel is closed and the worker returns, every received response is in such a
  batch, in the batch that is being collected, or still in the channel.\<close>

theorem only_saved_responses_are_sent:
  assumes "worker_step\<^sup>*\<^sup>* ([], new_worker) (past, w)"
  shows "rw_sent w = concat (map fst (filter snd (rw_saves w))) \<and>
     (\<exists>rest. past = concat (map fst (rw_saves w)) @ rest) \<and>
     (rw_pc w = WorkerReturned \<and> rw_closed w \<or> past = concat (map fst (rw_saves w)) @ unsaved w @ rw_chan w)"
  using worker.reach_inv [OF assms new_worker_inv] by (simp add: worker_inv_def)

lemma worker_collects:
  "rw_pc w = AtSelect \<Longrightarrow> (worker_turn True ^^ length (rw_chan w)) w =
     w\<lparr>rw_responses := rw_responses w @ rw_chan w, rw_chan := []\<rparr>"
proof (induction "rw_chan w" arbitrary: w)
  case (Cons r rs)
  have "worker_turn True w = w\<lparr>rw_responses := rw_responses w @ [r], rw_chan := rs\<rparr>"
    using Cons.prems Cons.hyps(2) [symmetric] by (simp add: worker_turn_def)
  moreover have "(worker_turn True ^^ length rs) (w\<lparr>rw_responses := rw_responses w @ [r], rw_chan := rs\<rparr>) =
      w\<lparr>rw_responses := (rw_responses w @ [r]) @ rs, rw_chan := []\<rparr>"
    using Cons.hyps(1) [of "w\<lparr>rw_responses := rw_responses w @ [r], rw_chan := rs\<rparr>"] Cons.prems by simp
  ultimately show ?case
    using Cons.hyps(2) [symmetric] by (simp add: funpow_Suc_right del: funpow.simps)
qed simp

lemma worker_drains_select:
  assumes "rw_pc w = AtSelect" "\<not> rw_closed w"
  shows "rw_sent ((worker_turn True ^^ Suc (length (rw_chan w))) w) = rw_sent w @ rw_responses w @ rw_chan w"
  using worker_collects [OF assms(1)] assms by (simp add: worker_turn_def)

text \<open>C15: while the channel is open and the callback succeeds, the worker makes progress: as many
  turns as there are responses in the channel and one more send everything it holds.\<close>

theorem worker_sends_everything:
  assumes "rw_pc w \<noteq> WorkerReturned" "\<not> rw_closed w"
  shows "rw_sent ((worker_turn True ^^ Suc (length (rw_chan w))) w) = rw_sent w @ unsaved w @ rw_chan w"
proof (cases "rw_pc w")
  case AtSelect
  then show ?thesis using worker_drains_select [OF _ assms(2)] by (simp add: unsaved_def)
next
  case AtReceive
  show ?thesis
  proof (cases "rw_chan w")
    case (Cons r rs)
    let ?w = "w\<lparr>rw_responses := [r], rw_chan := rs, rw_pc := AtSelect\<rparr>"
    have "worker_turn True w = ?w" using AtReceive Cons by (simp add: worker_turn_def)
    moreover have "rw_sent ((worker_turn True ^^ Suc (length rs)) ?w) = rw_sent w @ r # rs"
      using worker_drains_select [of ?w] assms(2) by (simp del: funpow.simps)
    ultimately show ?thesis
      using AtReceive Cons by (simp add: unsaved_def funpow_Suc_right del: funpow.simps)
  qed (use AtReceive assms(2) in \<open>simp add: unsaved_def worker_turn_def\<close>)
qed (use assms(1) in simp)

definition sample_response :: Response where
  "sample_response = \<lparr>resp_Request = sample_request 1 [53 \<mapsto> [1]], resp_Response = sample_packet 1 [53 \<mapsto> [2]], resp_Lease = Some 0\<rparr>"

theorem only_saved_responses_are_sent_witness:
  "\<exists>w. worker_step\<^sup>*\<^sup>* ([], new_worker) ([sample_response], w) \<and> rw_saves w = [([sample_response], False)] \<and> rw_sent w = []"
proof -
  define w1 where "w1 = worker_event (Enqueue sample_response) new_worker"
  define w2 where "w2 = worker_event (Turn True) w1"
  define w3 where "w3 = worker_event (Turn False) w2"
  have "worker_step ([], new_worker) ([] @ [sample_response], w1)"
    unfolding w1_def by (rule worker_step.enqueue) (simp add: possible_def new_worker_def)
  moreover have "worker_step ([sample_response], w1) ([sample_response], w2)" unfolding w2_def by (rule worker_step.turn)
  moreover have "worker_step ([sample_response], w2) ([sample_response], w3)" unfolding w3_def by (rule worker_step.turn)
  ultimately have run: "worker_step\<^sup>*\<^sup>* ([], new_worker) ([sample_response], w3)" by simp
  have saves: "rw_saves w3 = [([sample_response], False)]"
    by (simp add: w3_def w2_def w1_def worker_event_def worker_turn_def new_worker_def)
  from only_saved_responses_are_sent [OF run] saves have "rw_sent w3 = []" by simp
  with run saves show ?thesis by blast
qed

theorem worker_sends_everything_witness:
  "rw_sent ((worker_turn True ^^ 3) (new_worker\<lparr>rw_chan := [sample_response, sample_response]\<rparr>)) =
     [sample_response, sample_response]"
  using worker_sends_everything [of "new_worker\<lparr>rw_chan := [sample_response, sample_response]\<rparr>"]
  by (simp add: new_worker_def unsaved_def eval_nat_numeral)

lemma returned_stays: "rw_pc w = WorkerReturned \<Longrightarrow> rw_pc (worker_event e w) = WorkerReturned \<and> rw_sent (worker_event e w) = rw_sent w"
  by (cases e) (simp_all add: worker_event_def worker_turn_def)

section \<open>One request through the worker\<close>

lemma mark_ack_keeps:
  assumes "mark_ack b (Some l) srv = Returns srv'"
  shows "heap_ext (srv_leases srv) (srv_leases srv')" "srv_subnets srv' = srv_subnets srv"
  using assms by (auto simp: mark_ack_def heap_simps)

text \<open>A response that may be queued: its lease exists and has the address that the packet offers.\<close>

definition response_ok :: "lease_heap \<Rightarrow> Response \<Rightarrow> bool" where
  "response_ok h r \<longleftrightarrow> (\<exists>l. resp_Lease r = Some l \<and> l < length h \<and> YourIPAddr (resp_Response r) = lease_IP (h ! l))"

lemma response_ok_ext: "response_ok h r \<Longrightarrow> heap_ext h h' \<Longrightarrow> response_ok h' r"
  by (force simp: response_ok_def heap_ext_def)

lemma process_request_works:
  assumes "options_only lib" "type_read_back lib" "server_typed srv" "\<forall>ip. visits (ords ip) (srv_subnets srv)"
  obtains srv' rs where "process_request lib ords t now srv req = Some (Returns (srv', rs))" "server_typed srv'"
    "heap_ext (srv_leases srv) (srv_leases srv')"
    "server_inv srv \<Longrightarrow> server_inv srv'"
    "length rs \<le> 1" "\<forall>r \<in> set rs. response_ok (srv_leases srv') r"
    "\<forall>r \<in> set rs. \<exists>l. resp_Lease r = Some l \<and>
       (lease_AckSent (srv_leases srv' ! l) \<longleftrightarrow> lib_MessageType lib (req_DHCPv4 req) = MessageTypeRequest)"
proof -
  obtain srv1 res where g: "GetResponse lib ords t now srv req = Some (Returns (srv1, res))"
    and rep: "srv1 = srv \<or> (\<exists>k. replied lib t now req k srv srv1)"
    using GetResponse_replied [OF assms(3,4), of lib t now req] by blast
  have typed: "server_typed srv1" "heap_ext (srv_leases srv) (srv_leases srv1)"
    using rep replied_typed [OF _ assms(3)] assms(3) by auto
  have inv: "server_inv srv1" if "server_inv srv"
    by (rule request_inv(1) [OF that assms(4) g])
  show thesis
  proof (cases res)
    case (Inl e)
    show thesis
      by (rule that [of srv1 "[]"]) (use g typed inv in \<open>simp_all add: process_request_def Inl\<close>)
  next
    case (Inr r)
    obtain l where l: "resp_Lease r = Some l" "l < length (srv_leases srv1)"
      and ip: "YourIPAddr (resp_Response r) = lease_IP (srv_leases srv1 ! l)"
      and mt: "(lib_MessageType lib (req_DHCPv4 req), lib_MessageType lib (resp_Response r)) \<in>
        {(MessageTypeDiscover, MessageTypeOffer), (MessageTypeRequest, MessageTypeAck)}"
      using reply_lease [OF assms(1-4) g [unfolded Inr]] by blast
    define b where "b = (lib_MessageType lib (req_DHCPv4 req) = MessageTypeRequest)"
    obtain srv2 where m: "mark_ack b (Some l) srv1 = Returns srv2" by (simp add: mark_ack_def)
    note keeps = mark_ack_keeps [OF m]
    have mark: "l < length (srv_leases srv2)" "lease_AckSent (srv_leases srv2 ! l) = b"
      "lease_IP (srv_leases srv2 ! l) = lease_IP (srv_leases srv1 ! l)"
      using m l(2) by (auto simp: mark_ack_def)
    show thesis
    proof (rule that [of srv2 "[r]"])
      show "process_request lib ords t now srv req = Some (Returns (srv2, [r]))"
        using g l(1) mt m by (auto simp: process_request_def Inr b_def)
      show "server_typed srv2" by (rule server_typed_heap [OF typed(1) keeps])
      show "heap_ext (srv_leases srv) (srv_leases srv2)" by (rule heap_ext_trans [OF typed(2) keeps(1)])
      show "server_inv srv2" if "server_inv srv"
        by (rule server_inv_heap [OF inv [OF that] keeps])
    qed (use l mark ip b_def in \<open>auto simp: response_ok_def\<close>)
  qed
qed

text \<open>C13: the worker survives every request, in every state whose references are valid and from any client: it never panics, keeps the references valid, keeps the invariant of the server where that holds, and queues at most one response, whose lease exists, has the address that the packet offers and is marked as acknowledged exactly when the client sent a request.\<close>

theorem worker_handles_every_request:
  assumes "options_only lib" "type_read_back lib" "server_typed srv" "\<forall>ip. visits (ords ip) (srv_subnets srv)"
  shows "\<exists>srv' rs. process_request lib ords t now srv req = Some (Returns (srv', rs)) \<and> server_typed srv' \<and>
    (server_inv srv \<longrightarrow> server_inv srv') \<and>
    length rs \<le> 1 \<and> (\<forall>r \<in> set rs. response_ok (srv_leases srv') r) \<and>
    (\<forall>r \<in> set rs. \<exists>l. resp_Lease r = Some l \<and>
       (lease_AckSent (srv_leases srv' ! l) \<longleftrightarrow> lib_MessageType lib (req_DHCPv4 req) = MessageTypeRequest))"
  by (rule process_request_works [OF assms, of t now req]) blast

theorem worker_handles_every_request_witness:
  "\<exists>srv' rs. process_request sample_lib (\<lambda>_. [''10.1.1.0/24'']) 1 1 sample_server (sample_request 1 [53 \<mapsto> [1]]) =
     Some (Returns (srv', rs)) \<and> server_inv srv' \<and> length rs \<le> 1"
  using worker_handles_every_request [OF sample_lib_laws server_inv_typed [OF sample_server_inv], of "\<lambda>_. [''10.1.1.0/24'']"
      1 1 "sample_request 1 [53 \<mapsto> [1]]"] sample_visits sample_server_inv
  by auto

section \<open>Errors of the socket\<close>

lemma Serve_requests: "Serve (map (Returns \<circ> Inr) reqs @ rs) = (reqs @ fst (Serve rs), snd (Serve rs))"
  by (induction reqs) (simp_all add: split_beta)

text \<open>C25: a packet that the DHCP parser rejects ends the process: the requests before it are handed to
  the worker, then the error, which wraps no \<^verbatim>\<open>*net.OpError\<close>, leaves a nil pointer whose
  \<^verbatim>\<open>Temporary\<close> is called.\<close>

theorem malformed_packet_panics:
  assumes "ifname i = Inr name" "parse buf = Inl (GoError msg)"
  shows "Serve (map (Returns \<circ> Inr) reqs @ NextRequest (Inr (buf, Some (i, dst), src)) ifname parse s # rest) = (reqs, ServePanics)"
  using assms by (simp add: Serve_requests NextRequest_def)

theorem malformed_packet_panics_witness:
  "Serve [Returns (Inr (sample_request 1 Map.empty)),
      NextRequest (Inr ([0], Some (1, None), ''10.0.0.9:68'')) (\<lambda>_. Inr ''eth0'') (\<lambda>_. Inl (GoError ''malformed''))
        \<lparr>us_conn = 7, us_interfaceName = [], us_listenAddress = [], us_listenPort = 67, us_bcResponders = Map.empty\<rparr>]
   = ([sample_request 1 Map.empty], ServePanics)"
  using malformed_packet_panics [where ifname = "\<lambda>_. Inr ''eth0''" and i = 1 and name = "''eth0''" and
      parse = "\<lambda>_. Inl (GoError ''malformed'')" and buf = "[0]" and msg = "''malformed''" and
      reqs = "[sample_request 1 Map.empty]" and src = "''10.0.0.9:68''" and dst = None and rest = "[]" and
      s = "\<lparr>us_conn = 7, us_interfaceName = [], us_listenAddress = [], us_listenPort = 67, us_bcResponders = Map.empty\<rparr>"]
  by simp

end
