(* ===== verification/K8s_System.thy ===== *)
theory K8s_System
  imports K8s_Props K8s_Main Dhcp_Processor
begin

text \<open>
  The whole operator: the process that \<^verbatim>\<open>main.go\<close> sets up, with its reconcilers, the server
  they share, the pipelines of its listeners and the cluster that the leases are saved to.
  Every interleaving of these is a run of the step relation; what is shown here needs no
  obligation on the objects that users create. The reconcilers lock the cache and the server
  separately, so the accesses they are made of may also happen one at a time, with steps of
  the others in between.
\<close>

section \<open>What every operation of the server keeps\<close>

definition server_ok :: "Server \<Rightarrow> bool" where
  "server_ok srv \<longleftrightarrow> server_typed srv \<and> finite (dom (srv_subnets srv))"

text \<open>From a good server to a good one, over a store that only grows.\<close>

definition evolves :: "Server \<Rightarrow> Server \<Rightarrow> bool" where
  "evolves srv srv' \<longleftrightarrow> (server_ok srv \<longrightarrow> server_ok srv' \<and> heap_ext (srv_leases srv) (srv_leases srv'))"

lemma evolves_refl [simp]: "evolves srv srv"
  by (simp add: evolves_def)

lemma evolves_trans: "evolves a b \<Longrightarrow> evolves b c \<Longrightarrow> evolves a c"
  using heap_ext_trans by (auto simp: evolves_def)

lemma evolves_same: "srv_subnets srv' = srv_subnets srv \<Longrightarrow> srv_leases srv' = srv_leases srv \<Longrightarrow> evolves srv srv'"
  by (simp add: evolves_def server_ok_def server_typed_def)

lemma evolves_set_subnet:
  assumes "srv_subnets srv k = Some sn" "same_config sn (snd st)" "heap_ext (srv_leases srv) (fst st)"
    and "subnet_typed (srv_leases srv, sn) \<Longrightarrow> subnet_typed st"
  shows "evolves srv (set_subnet k st srv)"
  unfolding evolves_def server_ok_def
proof (intro impI conjI; (elim conjE)?)
  assume t: "server_typed srv" and f: "finite (dom (srv_subnets srv))"
  note sn = server_typedD [OF t assms(1)]
  show "server_typed (set_subnet k st srv)"
    using server_typed_step [OF t, of "set_subnet k st srv" k "snd st"] assms(3,4) sn same_config_fields(1) [OF assms(2)] by simp
  show "finite (dom (srv_subnets (set_subnet k st srv)))" using f by simp
  show "heap_ext (srv_leases srv) (srv_leases (set_subnet k st srv))" using assms(3) by simp
qed

lemma AddHost_evolves:
  assumes "visits ord (srv_subnets srv)"
  shows "evolves srv (fst (Server_AddHost ord srv x))"
proof (cases "find (\<lambda>k. IPNet_Contains (sn_ipNet (the (srv_subnets srv k))) (host_IP x)) ord")
  case (Some k)
  then obtain sn where sn: "srv_subnets srv k = Some sn" using find_visited [OF assms] by blast
  have "evolves srv (set_subnet k (put_lease (host_lease sn x) (srv_leases srv, sn)) srv)"
    by (rule evolves_set_subnet [OF sn put_lease_config _ put_lease_typed]) (simp add: put_lease_def heap_simps)
  then show ?thesis by (simp add: Server_AddHost_def Some sn AddHost_put)
qed (simp add: Server_AddHost_def)

lemma DeleteHost_evolves:
  assumes "visits ord (srv_subnets srv)"
  shows "evolves srv (fst (Server_DeleteHost ord srv x))"
proof (cases "find (\<lambda>k. IPNet_Contains (sn_ipNet (the (srv_subnets srv k))) (host_IP x)) ord")
  case (Some k)
  then obtain sn where sn: "srv_subnets srv k = Some sn" using find_visited [OF assms] by blast
  have "evolves srv (set_subnet k (srv_leases srv, drop_keys (host_MAC x) (IP_String (host_IP x)) sn) srv)"
    by (rule evolves_set_subnet [OF sn _ _ drop_keys_typed]) simp_all
  then show ?thesis by (simp add: Server_DeleteHost_def Some sn DeleteHost_drop)
qed (simp add: Server_DeleteHost_def)

lemma DeleteSubnet_evolves: "evolves srv (fst (Server_DeleteSubnet srv k))"
  by (auto simp: Server_DeleteSubnet_def evolves_def server_ok_def server_typed_def split: if_splits)

lemma AddSubnet_evolves:
  assumes "sn_currentIP sn = 0"
  shows "evolves srv (fst (Server_AddSubnet ordL ordS srv sn))"
proof (cases "InitializeSubnet sn (in_order ordL (srv_localIpAddresses srv))")
  case (Inr s)
  have "pool_ok s" "sn_leaseCache s = Map.empty"
    by (rule InitializeSubnet_Inr [OF Inr]; simp add: assms pool_ok_def)+
  then have s: "subnet_typed (srv_leases srv, s)" by (simp add: subnet_typed_def refs_ok_def)
  have "server_typed (srv\<lparr>srv_subnets := (srv_subnets srv)(sn_Subnet s \<mapsto> s)\<rparr>)" if "server_typed srv"
    by (rule server_typed_step [OF that, of _ "sn_Subnet s" s]) (use s in simp_all)
  then have "evolves srv (srv\<lparr>srv_subnets := (srv_subnets srv)(sn_Subnet s \<mapsto> s)\<rparr>)"
    by (simp add: evolves_def server_ok_def)
  then show ?thesis by (simp add: Server_AddSubnet_def Inr split: option.split)
qed (simp add: Server_AddSubnet_def)

lemma listener_evolves:
  "evolves srv (fst (Server_AddListen srv l))" "evolves srv (fst (Server_DeleteListen srv name))"
  by (rule evolves_same; simp add: op_simps)+

section \<open>The reconcilers\<close>

lemma AddHost_any: "any_order ordS \<Longrightarrow> evolves srv (fst (Server_AddHost (ordS srv) srv x))"
  using AddHost_evolves [of "ordS srv" srv x] by (auto simp: any_order_def evolves_def server_ok_def)

lemma DeleteHost_any: "any_order ordS \<Longrightarrow> evolves srv (fst (Server_DeleteHost (ordS srv) srv x))"
  using DeleteHost_evolves [of "ordS srv" srv x] by (auto simp: any_order_def evolves_def server_ok_def)

lemma add_hosts_evolves: "any_order ordS \<Longrightarrow> evolves srv (add_hosts ordS hs srv)"
proof (induction hs arbitrary: srv)
  case (Cons h hs)
  show ?case
    using evolves_trans [OF AddHost_any [OF Cons.prems] Cons.IH [OF Cons.prems]] by simp
qed simp

lemma Initialize_evolves: "evolves srv (fst (Initialize ordL ordS subnets srv))"
proof -
  have "evolves srv (fst (Initialize_loop ordL ordS sns srv))" for sns
  proof (induction sns arbitrary: srv)
    case (Cons sn sns)
    let ?r = "Server_AddSubnet (ordL srv) (ordS srv) srv (ToSubnet sn)"
    have "evolves srv (fst ?r)" by (rule AddSubnet_evolves) simp
    with evolves_trans [OF this Cons.IH [of "fst ?r"]] show ?case
      by (cases ?r) (simp split: option.split)
  qed simp
  then show ?thesis by (simp add: Initialize_def split: sum.split)
qed

lemma HostReconcile_evolves:
  assumes "any_order ordS"
  shows "evolves (op_server st) (op_server (fst (HostReconcile ordS get st req)))"
  using AddHost_any [OF assms, of "op_server st"] DeleteHost_any [OF assms, of "op_server st"]
  by (auto simp: HostReconcile_def Let_def case_prod_beta split: sum.split api_error.split option.split)

lemma SubnetReconcile_evolves:
  assumes "any_order ordS"
  shows "evolves (op_server st) (op_server (fst (SubnetReconcile ordL ordS get st req)))"
proof (cases get)
  case (Inl e)
  then show ?thesis
    using DeleteSubnet_evolves by (simp add: SubnetReconcile_def case_prod_beta split: api_error.split option.split)
next
  case (Inr sn)
  let ?r = "Server_AddSubnet (ordL (op_server st)) (ordS (op_server st)) (op_server st) (ToSubnet sn)"
  have "evolves (op_server st) (fst ?r)" by (rule AddSubnet_evolves) simp
  with evolves_trans [OF this add_hosts_evolves [OF assms]] show ?thesis
    by (cases ?r)
      (auto simp: SubnetReconcile_def Inr Let_def AddSubnetIfNotKnown_def PopUnknownHosts_def split: option.split)
qed

lemma ServerReconcile_evolves: "evolves (op_server st) (op_server (fst (ServerReconcile ordL ordS subnets get st req)))"
proof -
  have init: "evolves (op_server st) (op_server (fst (listen_and_initialize ordL ordS subnets sv name st)))" for st sv name
    using evolves_trans [OF listener_evolves(1) Initialize_evolves] listener_evolves(1)
    by (auto simp: listen_and_initialize_def Let_def case_prod_beta split: option.split)
  have del: "evolves (op_server st) (op_server (fst (listen_and_initialize ordL ordS subnets sv name
      (st\<lparr>op_server := fst (Server_DeleteListen (op_server st) name)\<rparr>))))" for sv name
  proof (rule evolves_trans [OF listener_evolves(2)])
    show "evolves (fst (Server_DeleteListen (op_server st) name)) (op_server (fst (listen_and_initialize ordL ordS subnets sv name
      (st\<lparr>op_server := fst (Server_DeleteListen (op_server st) name)\<rparr>))))"
      using init [of "st\<lparr>op_server := fst (Server_DeleteListen (op_server st) name)\<rparr>"] by simp
  qed
  show ?thesis
    using init del listener_evolves(2)
    by (auto simp: ServerReconcile_def Let_def case_prod_beta split: sum.split api_error.split option.split)
qed

section \<open>The accesses a reconciler is made of\<close>

text \<open>
  What a reconciler does under one lock, or to a map of its own, with whatever arguments: a
  reconciliation is a sequence of such accesses. In the system they may interleave freely.
\<close>

inductive reconciler_access :: "Operator \<Rightarrow> Operator \<Rightarrow> bool" where
  remember_host: "reconciler_access st (st\<lparr>op_cache := fst (AddHostIfNotKnown (op_cache st) host)\<rparr>)"
| remember_subnet: "reconciler_access st (st\<lparr>op_cache := fst (AddSubnetIfNotKnown (op_cache st) sn)\<rparr>)"
| pop_hosts: "reconciler_access st (st\<lparr>op_cache := fst (PopUnknownHosts (op_cache st) k)\<rparr>)"
| write_listens: "reconciler_access st (st\<lparr>op_cache := (op_cache st)\<lparr>oc_knownListens := known\<rparr>\<rparr>)"
| write_key: "reconciler_access st (st\<lparr>op_SubnetToObjectKey := (op_SubnetToObjectKey st)(k := key)\<rparr>)"
| write_name: "reconciler_access st (st\<lparr>op_SubnetCache := (op_SubnetCache st)(name \<mapsto> k)\<rparr>)"
| access_add_host: "any_order ordS \<Longrightarrow>
    reconciler_access st (st\<lparr>op_server := fst (Server_AddHost (ordS (op_server st)) (op_server st) x)\<rparr>)"
| access_delete_host: "any_order ordS \<Longrightarrow>
    reconciler_access st (st\<lparr>op_server := fst (Server_DeleteHost (ordS (op_server st)) (op_server st) x)\<rparr>)"
| access_add_subnet: "reconciler_access st (st\<lparr>op_server := fst (Server_AddSubnet ordL ordS' (op_server st) (ToSubnet subnet))\<rparr>)"
| access_delete_subnet: "reconciler_access st (st\<lparr>op_server := fst (Server_DeleteSubnet (op_server st) k)\<rparr>)"
| access_add_listen: "reconciler_access st (st\<lparr>op_server := fst (Server_AddListen (op_server st) l)\<rparr>)"
| access_delete_listen: "reconciler_access st (st\<lparr>op_server := fst (Server_DeleteListen (op_server st) name)\<rparr>)"

lemma access_evolves: "reconciler_access st st' \<Longrightarrow> evolves (op_server st) (op_server st')"
  by (induction rule: reconciler_access.induct)
    (simp_all add: AddHost_any DeleteHost_any AddSubnet_evolves DeleteSubnet_evolves listener_evolves)

lemma add_hosts_accesses: "any_order ordS \<Longrightarrow> reconciler_access\<^sup>*\<^sup>* st (st\<lparr>op_server := add_hosts ordS hs (op_server st)\<rparr>)"
proof (induction hs arbitrary: st)
  case (Cons h hs)
  let ?st = "st\<lparr>op_server := fst (Server_AddHost (ordS (op_server st)) (op_server st) (ToDHCPHost h))\<rparr>"
  have "reconciler_access st ?st" by (rule access_add_host [OF Cons.prems])
  from converse_rtranclp_into_rtranclp [of reconciler_access, OF this Cons.IH [OF Cons.prems, of ?st]] show ?case by simp
qed simp

text \<open>The two reconcilers that run beside each other on the cache are sequences of accesses.\<close>

lemma HostReconcile_accesses:
  assumes "any_order ordS"
  shows "reconciler_access\<^sup>*\<^sup>* st (fst (HostReconcile ordS get st req))"
proof (cases get)
  case (Inl e)
  then show ?thesis
    using access_delete_host [OF assms, of st]
    by (auto simp: HostReconcile_def Let_def case_prod_beta split: api_error.split option.split)
next
  case (Inr host)
  let ?st = "st\<lparr>op_cache := fst (AddHostIfNotKnown (op_cache st) host)\<rparr>"
  have "reconciler_access st ?st" by (rule remember_host)
  moreover have "reconciler_access ?st (?st\<lparr>op_server := fst (Server_AddHost (ordS (op_server st)) (op_server st) (ToDHCPHost host))\<rparr>)"
    using access_add_host [OF assms, of ?st "ToDHCPHost host"] by simp
  ultimately show ?thesis
    by (auto simp: HostReconcile_def Inr Let_def case_prod_beta intro: rtranclp.rtrancl_into_rtrancl)
qed

lemma SubnetReconcile_accesses:
  assumes "any_order ordS"
  shows "reconciler_access\<^sup>*\<^sup>* st (fst (SubnetReconcile ordL ordS get st req))"
proof (cases get)
  case (Inl e)
  have "reconciler_access\<^sup>*\<^sup>* st (st\<lparr>op_SubnetToObjectKey := (op_SubnetToObjectKey st)(k := None),
      op_server := fst (Server_DeleteSubnet (op_server st) k)\<rparr>)" for k
    using write_key [of st k None] access_delete_subnet [of "st\<lparr>op_SubnetToObjectKey := (op_SubnetToObjectKey st)(k := None)\<rparr>" k]
    by (simp add: rtranclp.rtrancl_into_rtrancl)
  then show ?thesis
    by (auto simp: SubnetReconcile_def Inl Let_def case_prod_beta split: api_error.split option.split)
next
  case (Inr sn)
  let ?k = "sspec_Subnet (subnet_Spec sn)"
  let ?s = "ToSubnet sn"
  define st1 where "st1 = st\<lparr>op_SubnetToObjectKey := (op_SubnetToObjectKey st)(?k \<mapsto> subnet_Key sn)\<rparr>"
  define st2 where "st2 = st1\<lparr>op_cache := fst (AddSubnetIfNotKnown (op_cache st1) ?s)\<rparr>"
  define st3 where "st3 = st2\<lparr>op_SubnetCache := (op_SubnetCache st2)(snd req \<mapsto> sn_Subnet ?s)\<rparr>"
  define st4 where "st4 = st3\<lparr>op_server := fst (Server_AddSubnet (ordL (op_server st3)) (ordS (op_server st3)) (op_server st3) ?s)\<rparr>"
  define st5 where "st5 = st4\<lparr>op_cache := fst (PopUnknownHosts (op_cache st4) (sn_Subnet ?s))\<rparr>"
  define st6 where "st6 = st5\<lparr>op_server := add_hosts ordS (snd (PopUnknownHosts (op_cache st4) (sn_Subnet ?s))) (op_server st5)\<rparr>"
  have a: "reconciler_access st st1" "reconciler_access st1 st2" "reconciler_access st2 st3" "reconciler_access st3 st4"
    "reconciler_access st4 st5" "reconciler_access\<^sup>*\<^sup>* st5 st6"
    unfolding st1_def st2_def st3_def st4_def st5_def st6_def
    by (rule write_key remember_subnet write_name access_add_subnet pop_hosts add_hosts_accesses [OF assms])+
  have r2: "reconciler_access\<^sup>*\<^sup>* st st2" using a(1,2) by (meson rtranclp.simps)
  have r4: "reconciler_access\<^sup>*\<^sup>* st st4" using r2 a(3,4) by (meson rtranclp.rtrancl_into_rtrancl)
  have r6: "reconciler_access\<^sup>*\<^sup>* st st6" using rtranclp_trans [OF rtranclp.rtrancl_into_rtrancl [OF r4 a(5)] a(6)] .
  have "fst (SubnetReconcile ordL ordS get st req) \<in> {st2, st4, st6}"
    by (simp add: SubnetReconcile_def Inr Let_def case_prod_beta st1_def st2_def st3_def st4_def st5_def st6_def
        split: bool.split option.split)
  with r2 r4 r6 show ?thesis by auto
qed

section \<open>The system\<close>

text \<open>The worker \<open>i\<close> is the pipeline of the \<open>i\<close>-th listener that was started.\<close>

record System =
  sys_op :: Operator
  sys_cluster :: cluster
  sys_worker :: "nat \<Rightarrow> ResponseWorker"

definition boot :: "Process \<Rightarrow> cluster \<Rightarrow> System" where
  "boot p c = \<lparr>sys_op = new_operator (pr_server p), sys_cluster = c, sys_worker = (\<lambda>i. new_worker)\<rparr>"

text \<open>
  One turn of a response worker whose callback is the \<^verbatim>\<open>CallbackSaveLeases\<close> that \<^verbatim>\<open>main.go\<close> wires
  to the server. The callback is called when the channel is empty and there is a batch.
\<close>

definition saves_now :: "ResponseWorker \<Rightarrow> bool" where
  "saves_now w \<longleftrightarrow> rw_pc w = AtSelect \<and> rw_chan w = [] \<and> \<not> rw_closed w \<and> length (rw_responses w) > 0"

definition saving_turn ::
  "(ObjectKey \<Rightarrow> api_error option) \<Rightarrow> (ObjectKey \<Rightarrow> api_error option) \<Rightarrow> (Lease \<Rightarrow> go_time) \<Rightarrow> SubnetAddrPrefix list \<Rightarrow> nat
   \<Rightarrow> System \<Rightarrow> System" where
  "saving_turn get_err update_err now ord i s =
     (let w = sys_worker s i in
      if saves_now w then
        (case CallbackSaveLeases get_err update_err now ord (sys_op s) (sys_cluster s) (rw_responses w) of
           (c, err) \<Rightarrow> s\<lparr>sys_cluster := c, sys_worker := (sys_worker s)(i := worker_turn (err = None) w)\<rparr>)
      else s\<lparr>sys_worker := (sys_worker s)(i := worker_turn True w)\<rparr>)"

text \<open>
  A request of the listener \<open>i\<close>: the reply is queued on its channel, which has room for 1024
  responses; a full channel blocks the goroutine.
\<close>

definition queue_responses :: "nat \<Rightarrow> Server \<Rightarrow> Response list \<Rightarrow> System \<Rightarrow> System" where
  "queue_responses i srv rs s =
     s\<lparr>sys_op := (sys_op s)\<lparr>op_server := srv\<rparr>,
       sys_worker := (sys_worker s)(i := (sys_worker s i)\<lparr>rw_chan := rw_chan (sys_worker s i) @ rs\<rparr>)\<rparr>"

text \<open>
  The steps of the system: a whole reconciliation, or a single access of one; a request; a
  turn of a worker; the closing of a listener; an edit of the cluster by others.
\<close>

inductive system_step :: "dhcpv4_lib \<Rightarrow> System \<Rightarrow> System \<Rightarrow> bool" for lib where
  host_reconciled: "any_order ordS \<Longrightarrow>
    system_step lib s (s\<lparr>sys_op := fst (HostReconcile ordS get (sys_op s) req)\<rparr>)"
| subnet_reconciled: "any_order ordS \<Longrightarrow>
    system_step lib s (s\<lparr>sys_op := fst (SubnetReconcile ordL ordS get' (sys_op s) req)\<rparr>)"
| listener_reconciled: "system_step lib s (s\<lparr>sys_op := fst (ServerReconcile ordL ordS subnets get'' (sys_op s) req)\<rparr>)"
| accessed: "reconciler_access (sys_op s) op' \<Longrightarrow> system_step lib s (s\<lparr>sys_op := op'\<rparr>)"
| request_served: "\<forall>ip. visits (ords ip) (srv_subnets (op_server (sys_op s))) \<Longrightarrow>
    process_request lib ords t now (op_server (sys_op s)) rq = Some (Returns (srv, rs)) \<Longrightarrow>
    \<not> rw_closed (sys_worker s i) \<Longrightarrow> length (rw_chan (sys_worker s i) @ rs) \<le> 1024 \<Longrightarrow>
    system_step lib s (queue_responses i srv rs s)"
| worker_turned: "system_step lib s (saving_turn get_err update_err now' ord i s)"
| listener_closed: "system_step lib s (s\<lparr>sys_worker := (sys_worker s)(i := worker_event CloseChan (sys_worker s i))\<rparr>)"
| cluster_edited: "system_step lib s (s\<lparr>sys_cluster := c\<rparr>)"

inductive_cases system_stepE: "system_step lib s s'"

lemma process_request_dom:
  assumes "\<forall>ip. visits (ords ip) (srv_subnets srv)" "process_request lib ords t now srv rq = Some (Returns (srv', rs))" "server_typed srv"
  shows "dom (srv_subnets srv') = dom (srv_subnets srv)"
proof -
  obtain srv1 res where g: "GetResponse lib ords t now srv rq = Some (Returns (srv1, res))"
    and rep: "srv1 = srv \<or> (\<exists>k. replied lib t now rq k srv srv1)"
    using GetResponse_replied [OF assms(3,1), of lib t now rq] by blast
  have "dom (srv_subnets srv1) = dom (srv_subnets srv)" if "replied lib t now rq k srv srv1" for k
    using that by cases (simp add: insert_absorb domI)
  with rep have "dom (srv_subnets srv1) = dom (srv_subnets srv)" by blast
  moreover have "srv_subnets srv' = srv_subnets srv1"
    using assms(2) g by (auto simp: process_request_def mark_ack_def split: sum.splits MessageType.splits option.splits)
  ultimately show ?thesis by simp
qed

text \<open>Valid references: in the caches of the server and in every response on its way.\<close>

definition worker_responses :: "ResponseWorker \<Rightarrow> Response set" where
  "worker_responses w = set (rw_responses w) \<union> set (rw_chan w) \<union> set (rw_sent w)"

definition system_ok :: "System \<Rightarrow> bool" where
  "system_ok s \<longleftrightarrow> server_ok (op_server (sys_op s)) \<and>
     (\<forall>i. \<forall>r \<in> worker_responses (sys_worker s i). response_ok (srv_leases (op_server (sys_op s))) r)"

lemma worker_turn_responses: "worker_responses (worker_turn ok w) \<subseteq> worker_responses w"
  by (auto simp: worker_responses_def worker_turn_def split: worker_pc.splits list.splits)

lemma system_ok_op:
  assumes "system_ok s" "evolves (op_server (sys_op s)) (op_server st)"
  shows "system_ok (s\<lparr>sys_op := st\<rparr>)"
proof -
  have e: "server_ok (op_server st)" "heap_ext (srv_leases (op_server (sys_op s))) (srv_leases (op_server st))"
    using assms by (simp_all add: system_ok_def evolves_def)
  then show ?thesis using assms(1) response_ok_ext [OF _ e(2)] by (simp add: system_ok_def)
qed

lemma system_ok_workers:
  assumes "system_ok s" "worker_responses w \<subseteq> worker_responses (sys_worker s i)"
  shows "system_ok (s\<lparr>sys_worker := (sys_worker s)(i := w)\<rparr>)" "system_ok (s\<lparr>sys_cluster := c, sys_worker := (sys_worker s)(i := w)\<rparr>)"
  using assms by (auto simp: system_ok_def)

lemma saving_turn_ok: "system_ok s \<Longrightarrow> system_ok (saving_turn get_err update_err now ord i s)"
  using system_ok_workers [OF _ worker_turn_responses] by (simp add: saving_turn_def Let_def case_prod_beta)

lemma queue_responses_ok:
  assumes "options_only lib" "type_read_back lib" "system_ok s" "\<forall>ip. visits (ords ip) (srv_subnets (op_server (sys_op s)))"
    and "process_request lib ords t now (op_server (sys_op s)) rq = Some (Returns (srv, rs))"
  shows "system_ok (queue_responses i srv rs s)"
proof -
  have ok: "server_typed (op_server (sys_op s))" "finite (dom (srv_subnets (op_server (sys_op s))))"
    using assms(3) by (simp_all add: system_ok_def server_ok_def)
  obtain srv' rs' where r: "process_request lib ords t now (op_server (sys_op s)) rq = Some (Returns (srv', rs'))"
    "server_typed srv'" "heap_ext (srv_leases (op_server (sys_op s))) (srv_leases srv')"
    "\<forall>r \<in> set rs'. response_ok (srv_leases srv') r"
    by (rule process_request_works [OF assms(1,2) ok(1) assms(4), of t now rq]) blast
  have eq: "srv' = srv" "rs' = rs" using r(1) assms(5) by simp_all
  have "dom (srv_subnets srv) = dom (srv_subnets (op_server (sys_op s)))"
    by (rule process_request_dom [OF assms(4,5) ok(1)])
  then have "server_ok srv" using r(2) ok(2) by (simp add: server_ok_def eq)
  moreover have "response_ok (srv_leases srv) q"
    if "q \<in> worker_responses ((sys_worker (queue_responses i srv rs s)) j)" for q j
  proof -
    have "q \<in> worker_responses (sys_worker s j) \<or> q \<in> set rs"
      using that by (auto simp: queue_responses_def worker_responses_def split: if_splits)
    then show ?thesis
      using assms(3) r(4) response_ok_ext [OF _ r(3)] unfolding eq system_ok_def by blast
  qed
  ultimately show ?thesis by (simp add: system_ok_def queue_responses_def)
qed

lemma system_step_ok:
  assumes "system_step lib s s'" "options_only lib" "type_read_back lib" "system_ok s"
  shows "system_ok s'"
  using assms(1)
proof cases
  case (host_reconciled ordS get req)
  then show ?thesis using system_ok_op [OF assms(4) HostReconcile_evolves] by simp
next
  case (subnet_reconciled ordS ordL get req)
  then show ?thesis using system_ok_op [OF assms(4) SubnetReconcile_evolves] by simp
next
  case (listener_reconciled ordL ordS subnets get req)
  then show ?thesis using system_ok_op [OF assms(4) ServerReconcile_evolves] by simp
next
  case (accessed op')
  then show ?thesis using system_ok_op [OF assms(4) access_evolves] by simp
next
  case (request_served ords t now rq srv rs i)
  then show ?thesis using queue_responses_ok [OF assms(2-4)] by blast
next
  case (listener_closed i)
  then show ?thesis
    using system_ok_workers(1) [OF assms(4), of "worker_event CloseChan (sys_worker s i)" i]
    by (simp add: worker_event_def worker_responses_def)
qed (use assms(4) saving_turn_ok in \<open>auto simp: system_ok_def\<close>)

interpretation system: invariant_system "system_step lib" "\<lambda>s. options_only lib \<and> type_read_back lib \<longrightarrow> system_ok s" for lib
  by unfold_locales (auto intro: system_step_ok)

lemma boot_ok: "set_up ord env = Inr p \<Longrightarrow> system_ok (boot p c)"
proof -
  assume "set_up ord env = Inr p"
  note n = set_up_Inr(1) [OF this]
  have "server_typed (pr_server p)" by (rule server_inv_typed [OF NewServer_inv [OF n]])
  moreover have "srv_subnets srv = Map.empty" if "NewServer udp getter ord c = NewServerResult (Some srv) e" for udp getter c srv e
    using that by (auto simp: NewServer_def Let_def split: sum.splits if_splits prod.splits)
  from this [OF n] have "finite (dom (srv_subnets (pr_server p)))" by simp
  ultimately show ?thesis
    by (simp add: system_ok_def server_ok_def boot_def new_operator_def worker_responses_def new_worker_def)
qed

lemma reachable_ok:
  assumes "set_up ord env = Inr p" "(system_step lib)\<^sup>*\<^sup>* (boot p c) s" "options_only lib" "type_read_back lib"
  shows "system_ok s"
  using system.reach_inv [OF assms(2)] boot_ok [OF assms(1)] assms(3,4) by blast

section \<open>Properties\<close>

lemma pool_ok_cursor_iff:
  "pool_ok s \<longleftrightarrow> sn_iPFrom s \<le> sn_iPTo s \<and>
     (sn_iPTo s \<noteq> -1 \<longrightarrow> sn_currentIP s = 0 \<or> sn_iPFrom s \<le> sn_currentIP s \<and> sn_currentIP s \<le> sn_iPTo s)"
  by (cases "sn_iPTo s = -1") (auto simp: pool_ok_def in_ring_def ring_lo_def)

text \<open>C7: in every state that the process reaches, whatever the users create, edit and delete and however the accesses of the reconcilers, the requests and the workers interleave, the references are valid: a subnet is found under its own text, its range is not empty, its cursor is zero, as before the first allocation, or in the range (unless the range ends at 255.255.255.255, where it may be anywhere), its cache refers to leases that exist, and every response that is queued, collected or sent refers to an existing lease with the very address its packet offers.\<close>

theorem references_are_valid:
  assumes "set_up ord env = Inr p" "(system_step lib)\<^sup>*\<^sup>* (boot p c) s" "options_only lib" "type_read_back lib"
  shows "(\<forall>k sn. srv_subnets (op_server (sys_op s)) k = Some sn \<longrightarrow> sn_Subnet sn = k \<and> sn_iPFrom sn \<le> sn_iPTo sn \<and>
        (sn_iPTo sn \<noteq> -1 \<longrightarrow> sn_currentIP sn = 0 \<or> sn_iPFrom sn \<le> sn_currentIP sn \<and> sn_currentIP sn \<le> sn_iPTo sn) \<and>
        (\<forall>x l. sn_leaseCache sn x = Some l \<longrightarrow> l < length (srv_leases (op_server (sys_op s))))) \<and>
    (\<forall>i. \<forall>r \<in> set (rw_responses (sys_worker s i)) \<union> set (rw_chan (sys_worker s i)) \<union> set (rw_sent (sys_worker s i)).
       \<exists>l. resp_Lease r = Some l \<and> l < length (srv_leases (op_server (sys_op s))) \<and>
         YourIPAddr (resp_Response r) = lease_IP (srv_leases (op_server (sys_op s)) ! l))"
  using reachable_ok [OF assms]
  by (simp add: system_ok_def server_ok_def server_typed_def subnet_typed_def refs_ok_def response_ok_def worker_responses_def
      pool_ok_cursor_iff)

text \<open>C4: in every state that the process reaches, every request, of any client, is answered or refused: the computation ends, it stops at no nil pointer, and at most one response is queued.\<close>

theorem every_request_is_answered:
  assumes "set_up ord env = Inr p" "(system_step lib)\<^sup>*\<^sup>* (boot p c) s" "options_only lib" "type_read_back lib"
    and "\<forall>ip. visits (ords ip) (srv_subnets (op_server (sys_op s)))"
  shows "\<exists>srv rs. process_request lib ords t now (op_server (sys_op s)) rq = Some (Returns (srv, rs)) \<and> length rs \<le> 1"
proof -
  have typed: "server_typed (op_server (sys_op s))"
    using reachable_ok [OF assms(1-4)] by (simp add: system_ok_def server_ok_def)
  show ?thesis by (rule process_request_works [OF assms(3,4) typed assms(5), of t now rq]) blast
qed

text \<open>C6: end to end, from the packet to the cluster. When a turn of a response worker sends a reply and the subnet of its lease has an object, the status of that object then has an entry under the hardware address that the lease names. (That is the client of the reply, unless the lease was recycled from another client: then the entry is that of the old owner.) The entry is the address in the packet of a reply of the same batch whose lease names that hardware address; it is the address in the reply's own packet when no other reply of the batch has a lease with that hardware address.\<close>

theorem sent_replies_are_recorded:
  assumes "set_up order env = Inr p" "(system_step lib)\<^sup>*\<^sup>* (boot p c) s" "options_only lib" "type_read_back lib"
    and "s' = saving_turn get_err update_err now ord i s"
    and "visits ord (group_leases (srv_leases (op_server (sys_op s))) (rw_responses (sys_worker s i)))"
    and "rw_sent (sys_worker s' i) = rw_sent (sys_worker s i) @ rs" "r \<in> set rs"
    and "l = resp_lease (srv_leases (op_server (sys_op s))) r" "op_SubnetToObjectKey (sys_op s) (lease_Subnet l) = Some key"
  shows "\<exists>r' \<in> set (rw_responses (sys_worker s i)).
    lease_MAC (resp_lease (srv_leases (op_server (sys_op s))) r') = lease_MAC l \<and>
    saved_ip (sys_cluster s') key (lease_MAC l) = Some (IP_String (YourIPAddr (resp_Response r'))) \<and>
    ((\<forall>q \<in> set (rw_responses (sys_worker s i)).
       lease_MAC (resp_lease (srv_leases (op_server (sys_op s))) q) = lease_MAC l \<longrightarrow> q = r) \<longrightarrow> r' = r)"
proof -
  let ?w = "sys_worker s i"
  let ?h = "srv_leases (op_server (sys_op s))"
  obtain cl err where cb: "CallbackSaveLeases get_err update_err now ord (sys_op s) (sys_cluster s) (rw_responses ?w) = (cl, err)"
    by fastforce
  have sent: "saves_now ?w \<and> err = None \<and> rs = rw_responses ?w"
    using assms(5,7,8) cb
    by (auto simp: saving_turn_def Let_def saves_now_def worker_turn_def split: worker_pc.splits list.splits if_splits)
  then have s': "sys_cluster s' = cl" using assms(5) cb by (simp add: saving_turn_def Let_def)
  have "\<exists>l' \<in> resp_lease ?h ` set (rw_responses ?w). lease_MAC l' = lease_MAC l \<and>
      saved_ip cl key (lease_MAC l) = Some (IP_String (lease_IP l'))"
    using saved_leases_are_in_the_status [OF _ assms(6) _ assms(9,10)] cb sent assms(8) by blast
  then obtain r' where r': "r' \<in> set (rw_responses ?w)" "lease_MAC (resp_lease ?h r') = lease_MAC l"
    "saved_ip cl key (lease_MAC l) = Some (IP_String (lease_IP (resp_lease ?h r')))" by blast
  have "response_ok ?h r'"
    using reachable_ok [OF assms(1-4)] r'(1) by (auto simp: system_ok_def worker_responses_def)
  then have "YourIPAddr (resp_Response r') = lease_IP (resp_lease ?h r')"
    by (auto simp: response_ok_def resp_lease_def)
  with r' s' show ?thesis by auto
qed

section \<open>A run\<close>

text \<open>A subnet is created, a client discovers, the worker collects the offer, saves and sends it.\<close>

definition system_env :: main_env where
  "system_env = sample_env\<lparr>env_Interfaces := Inr [(''eth0'', Inr [''10.1.1.1/24''])], env_UDPSocket := sample_udp\<rparr>"

lemma system_set_up: "\<exists>p. set_up [''eth0''] system_env = Inr p \<and> pr_server p = empty_server"
proof -
  have "Split (CHR ''/'') ''10.1.1.1/24'' = [''10.1.1.1'', ''24'']" by code_simp
  moreover have "ParseIP ''10.1.1.1'' = ip_of 167837953"
    using ParseIP_IPv4_String [of 167837953] by (simp add: sample_text_ip)
  ultimately have "GetLocalAddresses (env_Interfaces system_env) = Inr [''eth0'' \<mapsto> [ip_of 167837953]]"
    by (simp add: GetLocalAddresses_def system_env_def add_local_address_def)
  then show ?thesis
    by (simp add: set_up_def exit_on_def Let_def setup_defs NewServer_def main_config_def empty_server_def server_ids_def in_order_def sample_text_ip)
      (simp add: system_env_def sample_env_def)
qed

definition served_operator :: Operator where
  "served_operator = fst (SubnetReconcile (\<lambda>_. [''eth0'']) some_order (Inr sample_k8s_subnet) (new_operator empty_server) (''default'', ''net''))"

lemma served_operator_fields:
  "op_server served_operator = sample_server" "op_SubnetToObjectKey served_operator = [''10.1.1.0/24'' \<mapsto> (''default'', ''net'')]"
proof -
  have "SubnetReconcile (\<lambda>_. [''eth0'']) some_order (Inr sample_k8s_subnet) (new_operator empty_server) (''default'', ''net'') =
      SubnetReconcile (\<lambda>_. [''eth0'']) (\<lambda>_. []) (Inr sample_k8s_subnet) (new_operator empty_server) (''default'', ''net'')"
    by (simp add: SubnetReconcile_def new_operator_def NewObjectsCache_def AddSubnetIfNotKnown_def PopUnknownHosts_def some_order_empty Let_def)
  then show "op_server served_operator = sample_server" "op_SubnetToObjectKey served_operator = [''10.1.1.0/24'' \<mapsto> (''default'', ''net'')]"
    by (simp_all add: served_operator_def sample_subnet_reconcile)
qed

lemma served_discover:
  "\<exists>srv r. process_request sample_lib (\<lambda>_. [''10.1.1.0/24'']) 1 1 sample_server (sample_request 1 [53 \<mapsto> [1]]) =
     Some (Returns (srv, [r])) \<and> lease_Subnet (resp_lease (srv_leases srv) r) = ''10.1.1.0/24''"
proof -
  obtain srv1 r where g: "GetResponse sample_lib (\<lambda>_. [''10.1.1.0/24'']) 1 1 sample_server (sample_request 1 [53 \<mapsto> [1]]) =
      Some (Returns (srv1, Inr r))"
    using sample_offer by blast
  have v: "\<forall>ip. visits ((\<lambda>_. [''10.1.1.0/24'']) ip) (srv_subnets sample_server)" using sample_visits by simp
  obtain l where l: "resp_Lease r = Some l" "l < length (srv_leases srv1)"
    and mt: "(lib_MessageType sample_lib (req_DHCPv4 (sample_request 1 [53 \<mapsto> [1]])), lib_MessageType sample_lib (resp_Response r)) \<in>
      {(MessageTypeDiscover, MessageTypeOffer), (MessageTypeRequest, MessageTypeAck)}"
    using reply_lease [OF sample_lib_laws server_inv_typed [OF sample_server_inv] v g] by blast
  have "lib_MessageType sample_lib (req_DHCPv4 (sample_request 1 [53 \<mapsto> [1]])) = MessageTypeDiscover"
    by (simp add: code_message_type_def)
  with mt have offer: "lib_MessageType sample_lib (resp_Response r) = MessageTypeOffer" by simp
  have sub: "lease_Subnet (srv_leases srv1 ! l) = ''10.1.1.0/24''"
    using g
  proof (rule GetResponse_success)
    fix k h sn l' base
    assume k: "getSubnet (\<lambda>_. [''10.1.1.0/24'']) sample_server (sample_request 1 [53 \<mapsto> [1]]) = Some k"
      and q: "GetLeaseForRequest sample_lib 1 1 (srv_leases sample_server) (the (srv_subnets sample_server k))
        (req_DHCPv4 (sample_request 1 [53 \<mapsto> [1]])) = Some (h, sn, Some l')"
      and l': "resp_Lease r = Some l'" and srv1: "srv1 = set_subnet k (h[l' := stamped sn (h ! l')], sn) sample_server"
    have "lease_Subnet (h ! l') = ''10.1.1.0/24''"
      using q k [unfolded sample_subnet_of]
      by (simp add: GetLeaseForRequest_def isAddressZero_def advance_pool_def pool_loop.simps Let_def sample_server_def
          empty_server_def NewLease_def sample_subnet_def)
        auto
    then show ?thesis
      using l l' srv1 by (simp add: stamped_def nth_list_update)
  qed
  obtain srv where m: "mark_ack False (Some l) srv1 = Returns srv" by (simp add: mark_ack_def)
  then have "process_request sample_lib (\<lambda>_. [''10.1.1.0/24'']) 1 1 sample_server (sample_request 1 [53 \<mapsto> [1]]) =
      Some (Returns (srv, [r]))"
    using g offer l(1) by (simp add: process_request_def)
  moreover have "lease_Subnet (resp_lease (srv_leases srv) r) = ''10.1.1.0/24''"
    using m l sub by (auto simp: mark_ack_def resp_lease_def)
  ultimately show ?thesis by blast
qed

text \<open>The state in which the worker holds the offer, and the turn that saves and sends it.\<close>

lemma system_run:
  "\<exists>p s srv r. set_up [''eth0''] system_env = Inr p \<and> (system_step sample_lib)\<^sup>*\<^sup>* (boot p sample_cluster) s \<and>
     sys_op s = served_operator\<lparr>op_server := srv\<rparr> \<and> sys_cluster s = sample_cluster \<and>
     sys_worker s 0 = new_worker\<lparr>rw_responses := [r]\<rparr> \<and> lease_Subnet (resp_lease (srv_leases srv) r) = ''10.1.1.0/24''"
proof -
  obtain p where p: "set_up [''eth0''] system_env = Inr p" "pr_server p = empty_server" using system_set_up by blast
  obtain srv r where req: "process_request sample_lib (\<lambda>_. [''10.1.1.0/24'']) 1 1 sample_server (sample_request 1 [53 \<mapsto> [1]]) =
      Some (Returns (srv, [r]))" "lease_Subnet (resp_lease (srv_leases srv) r) = ''10.1.1.0/24''"
    using served_discover by blast
  define s0 where "s0 = boot p sample_cluster"
  define s1 where "s1 = s0\<lparr>sys_op := served_operator\<rparr>"
  define s2 where "s2 = queue_responses 0 srv [r] s1"
  define s3 where "s3 = saving_turn (\<lambda>_. None) (\<lambda>_. None) (\<lambda>_. 0) [] 0 s2"
  have op: "sys_op s0 = new_operator empty_server" by (simp add: s0_def boot_def p(2))
  have "system_step sample_lib s0 s1"
    using system_step.subnet_reconciled [OF any_order_some, of sample_lib s0 "\<lambda>_. [''eth0'']" "Inr sample_k8s_subnet" "(''default'', ''net'')"]
    by (simp add: s1_def served_operator_def op)
  moreover have "system_step sample_lib s1 s2"
    unfolding s2_def
    by (rule system_step.request_served [where ords = "\<lambda>_. [''10.1.1.0/24'']" and t = 1 and now = 1 and rq = "sample_request 1 [53 \<mapsto> [1]]"])
      (use req(1) sample_visits in \<open>simp_all add: s1_def s0_def boot_def served_operator_fields new_worker_def\<close>)
  moreover have "system_step sample_lib s2 s3"
    unfolding s3_def by (rule system_step.worker_turned)
  ultimately have "(system_step sample_lib)\<^sup>*\<^sup>* s0 s3" by (meson rtranclp.rtrancl_into_rtrancl rtranclp.rtrancl_refl)
  moreover have "sys_op s3 = served_operator\<lparr>op_server := srv\<rparr>" "sys_cluster s3 = sample_cluster"
    "sys_worker s3 0 = new_worker\<lparr>rw_responses := [r]\<rparr>"
    by (simp_all add: s3_def saving_turn_def saves_now_def s2_def queue_responses_def s1_def s0_def boot_def worker_turn_def new_worker_def Let_def)
  ultimately show ?thesis using p(1) req(2) unfolding s0_def by blast
qed

theorem references_are_valid_witness:
  "\<exists>p s. set_up [''eth0''] system_env = Inr p \<and> (system_step sample_lib)\<^sup>*\<^sup>* (boot p sample_cluster) s \<and>
     rw_responses (sys_worker s 0) \<noteq> [] \<and>
     (\<forall>r \<in> set (rw_responses (sys_worker s 0)). \<exists>l. resp_Lease r = Some l \<and> l < length (srv_leases (op_server (sys_op s))))"
proof -
  obtain p s srv r where run: "set_up [''eth0''] system_env = Inr p" "(system_step sample_lib)\<^sup>*\<^sup>* (boot p sample_cluster) s"
    "sys_worker s 0 = new_worker\<lparr>rw_responses := [r]\<rparr>"
    using system_run by blast
  have "\<forall>q \<in> set (rw_responses (sys_worker s 0)). \<exists>l. resp_Lease q = Some l \<and> l < length (srv_leases (op_server (sys_op s)))"
    using conjunct2 [OF references_are_valid [OF run(1,2) sample_lib_laws], THEN spec, of 0] by blast
  moreover have "rw_responses (sys_worker s 0) \<noteq> []" by (simp add: run(3))
  ultimately show ?thesis using run(1,2) by blast
qed

theorem every_request_is_answered_witness:
  "\<exists>p s srv rs. set_up [''eth0''] system_env = Inr p \<and> (system_step sample_lib)\<^sup>*\<^sup>* (boot p sample_cluster) s \<and>
     rw_responses (sys_worker s 0) \<noteq> [] \<and>
     process_request sample_lib (\<lambda>_. some_order (op_server (sys_op s))) 2 2 (op_server (sys_op s)) (sample_request 2 [53 \<mapsto> [1]]) =
       Some (Returns (srv, rs))"
proof -
  obtain p s srv r where run: "set_up [''eth0''] system_env = Inr p" "(system_step sample_lib)\<^sup>*\<^sup>* (boot p sample_cluster) s"
    "sys_worker s 0 = new_worker\<lparr>rw_responses := [r]\<rparr>"
    using system_run by blast
  have "finite (dom (srv_subnets (op_server (sys_op s))))"
    using reachable_ok [OF run(1,2) sample_lib_laws] by (simp add: system_ok_def server_ok_def)
  then have "\<forall>ip. visits ((\<lambda>_. some_order (op_server (sys_op s))) ip) (srv_subnets (op_server (sys_op s)))"
    using any_order_some by (simp add: any_order_def)
  from every_request_is_answered [OF run(1,2) sample_lib_laws this] run show ?thesis by fastforce
qed

theorem sent_replies_are_recorded_witness:
  "\<exists>(s' :: System) mac (r :: Response). rw_sent (sys_worker s' 0) = [r] \<and>
     saved_ip (sys_cluster s') (''default'', ''net'') mac = Some (IP_String (YourIPAddr (resp_Response r)))"
proof -
  obtain p s srv r where run: "set_up [''eth0''] system_env = Inr p" "(system_step sample_lib)\<^sup>*\<^sup>* (boot p sample_cluster) s"
    "sys_op s = served_operator\<lparr>op_server := srv\<rparr>" "sys_cluster s = sample_cluster"
    "sys_worker s 0 = new_worker\<lparr>rw_responses := [r]\<rparr>" "lease_Subnet (resp_lease (srv_leases srv) r) = ''10.1.1.0/24''"
    using system_run by blast
  define s' where "s' = saving_turn (\<lambda>_. None) (\<lambda>_. None) (\<lambda>_. 0) [''10.1.1.0/24''] 0 s"
  have h: "srv_leases (op_server (sys_op s)) = srv_leases srv" and w: "rw_responses (sys_worker s 0) = [r]" by (simp_all add: run)
  have key: "op_SubnetToObjectKey (sys_op s) ''10.1.1.0/24'' = Some (''default'', ''net'')"
    by (simp add: run(3) served_operator_fields)
  have v: "visits [''10.1.1.0/24''] (group_leases (srv_leases (op_server (sys_op s))) (rw_responses (sys_worker s 0)))"
    unfolding h w using group_single [of "srv_leases srv" r] run(6) by simp
  have "snd (CallbackSaveLeases (\<lambda>_. None) (\<lambda>_. None) (\<lambda>_. 0) [''10.1.1.0/24''] (sys_op s) sample_cluster [r]) = None"
    by (simp add: CallbackSaveLeases_def key save_group_def sample_cluster_def Let_def)
  then have sent: "rw_sent (sys_worker s' 0) = rw_sent (sys_worker s 0) @ [r]" "rw_sent (sys_worker s 0) = []"
    by (auto simp: s'_def saving_turn_def saves_now_def run(4,5) new_worker_def worker_turn_def Let_def case_prod_beta)
  have "op_SubnetToObjectKey (sys_op s) (lease_Subnet (resp_lease (srv_leases (op_server (sys_op s))) r)) = Some (''default'', ''net'')"
    using key run(6) by (simp add: h)
  from sent_replies_are_recorded [OF run(1,2) sample_lib_laws s'_def v sent(1) list.set_intros(1) refl this]
  have "saved_ip (sys_cluster s') (''default'', ''net'') (lease_MAC (resp_lease (srv_leases (op_server (sys_op s))) r)) =
      Some (IP_String (YourIPAddr (resp_Response r)))" by (simp add: w)
  with sent show ?thesis by (metis append_Nil)
qed

end
