(* ===== verification/K8s_DeepCopy_Props.thy ===== *)
theory K8s_DeepCopy_Props
  imports K8s_DeepCopy
begin

text \<open>
  What the generated deep copies promise. For each struct, the cells it reaches, when they
  are well typed, and the value it denotes: of a specification, the record the reconcilers
  work on. Every copier meets the contract \<^term>\<open>deep_copier\<close>, relative to the same contract
  for the metadata of the Kubernetes library.
\<close>

section \<open>What the objects denote\<close>

record ('x, 't, 'm, 'v) metadata =
  meta_ok :: "('x, 't, 'm) store \<Rightarrow> 'm \<Rightarrow> bool"
  meta_reach :: "('x, 't, 'm) store \<Rightarrow> 'm \<Rightarrow> nat set"
  meta_den :: "('x, 't, 'm) store \<Rightarrow> 'm \<Rightarrow> 'v"

definition library_copies :: "('x, 't, 'm) apimachinery \<Rightarrow> ('x, 't, 'm, 'v) metadata \<Rightarrow> bool" where
  "library_copies lib M \<longleftrightarrow>
     deep_copier (meta_ok M) (meta_reach M) (meta_den M) (ObjectMeta_DeepCopyInto lib) \<and>
     deep_copier (meta_ok M) (meta_reach M) (meta_den M) (ListMeta_DeepCopyInto lib) \<and>
     deep_copier (meta_ok M) (meta_reach M) (meta_den M) (OwnerReference_DeepCopyInto lib) \<and>
     (\<forall>t. Time_DeepCopyInto lib t = t)"

lemma library_copiesD:
  assumes "library_copies lib M"
  shows "deep_copier (meta_ok M) (meta_reach M) (meta_den M) (ObjectMeta_DeepCopyInto lib)"
    and "deep_copier (meta_ok M) (meta_reach M) (meta_den M) (ListMeta_DeepCopyInto lib)"
    and "deep_copier (meta_ok M) (meta_reach M) (meta_den M) (OwnerReference_DeepCopyInto lib)"
    and "Time_DeepCopyInto lib t = t"
  using assms by (simp_all add: library_copies_def)

definition listed :: "'a list option \<Rightarrow> 'a list" where
  "listed v = (case v of None \<Rightarrow> [] | Some xs \<Rightarrow> xs)"

definition host_spec_value ::
  "DHCPHostSpec_obj \<Rightarrow> string list option \<times> ApiOption list option \<Rightarrow>
   DHCPHostSpec \<times> string list option \<times> ApiOption list option" where
  "host_spec_value s v =
     (\<lparr>hspec_Subnet = oh_Subnet s, hspec_MAC = oh_MAC s, hspec_IP = oh_IP s, hspec_Gateway = oh_Gateway s,
       hspec_HostName = oh_HostName s, hspec_DNS = listed (fst v), hspec_Options = listed (snd v),
       hspec_ServerHostName = oh_ServerHostName s, hspec_BootFileName = oh_BootFileName s,
       hspec_LeaseTime = oh_LeaseTime s\<rparr>, v)"

definition subnet_spec_value ::
  "'m DHCPSubnetSpec_obj \<Rightarrow> string list option \<times> ApiOption list option \<times> 'v \<Rightarrow>
   DHCPSubnetSpec \<times> string list option \<times> ApiOption list option \<times> 'v" where
  "subnet_spec_value s v =
     (\<lparr>sspec_Subnet = os_Subnet s, sspec_RangeFrom = os_RangeFrom s, sspec_RangeTo = os_RangeTo s,
       sspec_Gateway = os_Gateway s, sspec_DNS = listed (fst v), sspec_Options = listed (fst (snd v)),
       sspec_ServerHostName = os_ServerHostName s, sspec_BootFileName = os_BootFileName s,
       sspec_LeaseTime = os_LeaseTime s\<rparr>, v)"

definition lease_map_ok :: "('x, 't, 'm) store \<Rightarrow> nat option \<Rightarrow> bool" where
  "lease_map_ok st v =
     (case v of None \<Rightarrow> True
      | Some p \<Rightarrow> p < length st \<and>
          (case leases_of (st ! p) of Some xs \<Rightarrow> distinct (map fst xs) | None \<Rightarrow> False))"

definition lease_map_reach :: "('x, 't, 'm) store \<Rightarrow> nat option \<Rightarrow> nat set" where
  "lease_map_reach st v = (case v of None \<Rightarrow> {} | Some p \<Rightarrow> {p})"

definition lease_map_den :: "('x, 't, 'm) store \<Rightarrow> nat option \<Rightarrow> (string \<rightharpoonup> ApiLease) option" where
  "lease_map_den st v = map_option (\<lambda>p. map_of (map_entries st p)) v"

section \<open>Options, leases and maps of leases\<close>

lemma fill_map:
  assumes "distinct (map fst (acc @ xs))" and "\<And>t. Time_DeepCopyInto lib t = t"
  shows "foldl (\<lambda>st (key, val). let (st, p) = Lease_DeepCopy lib st (Some val) in map_store st (length st0) key (the p))
      (st0 @ [LeaseMap acc]) xs = st0 @ [LeaseMap (acc @ xs)]"
  using assms(1)
proof (induction xs arbitrary: acc)
  case Nil then show ?case by simp
next
  case (Cons x xs)
  obtain k v where x: "x = (k, v)" by fastforce
  have "k \<notin> fst ` set acc" using Cons.prems x by auto
  then have upd: "AList.update k v acc = acc @ [(k, v)]" by (induction acc) auto
  have "foldl (\<lambda>st (key, val). let (st, p) = Lease_DeepCopy lib st (Some val) in map_store st (length st0) key (the p))
      (st0 @ [LeaseMap (acc @ [(k, v)])]) xs = st0 @ [LeaseMap ((acc @ [(k, v)]) @ xs)]"
    by (rule Cons.IH) (use Cons.prems x in auto)
  then show ?case
    by (simp add: x Lease_DeepCopy_def new_copy_def Lease_DeepCopyInto_def assms(2) map_store_def map_entries_def upd)
qed

lemma lease_map_copier:
  assumes "\<And>t. Time_DeepCopyInto lib t = t"
  shows "deep_copier lease_map_ok lease_map_reach lease_map_den (clone_leases lib)"
proof
  fix st :: "('a, 'b, 'c) store" and v p
  assume "lease_map_ok st v" "p \<in> lease_map_reach st v"
  then show "p < length st" by (auto simp: lease_map_ok_def lease_map_reach_def split: option.splits)
next
  fix st st' :: "('a, 'b, 'c) store" and v
  assume "lease_map_ok st v" "length st \<le> length st'" "\<And>p. p \<in> lease_map_reach st v \<Longrightarrow> st' ! p = st ! p"
  then show "lease_map_ok st' v \<and> lease_map_reach st' v = lease_map_reach st v \<and> lease_map_den st' v = lease_map_den st v"
    by (cases v) (auto simp: lease_map_ok_def lease_map_reach_def lease_map_den_def map_entries_def)
next
  fix st :: "('a, 'b, 'c) store" and v
  assume ok: "lease_map_ok st v"
  show "fresh_copy lease_map_ok lease_map_reach lease_map_den st v (clone_leases lib st v)"
  proof (cases v)
    case None
    then show ?thesis
      by (simp add: fresh_copy_def clone_leases_def lease_map_ok_def lease_map_reach_def lease_map_den_def)
  next
    case (Some p)
    with ok obtain xs where xs: "leases_of (st ! p) = Some xs" "distinct (map fst xs)" "p < length st"
      by (auto simp: lease_map_ok_def split: option.splits)
    then have "map_entries (st @ [LeaseMap []]) p = xs" "map_entries st p = xs"
      by (simp_all add: map_entries_def nth_append)
    then show ?thesis
      using fill_map [of "[]" xs lib st] xs(2) assms
      by (simp add: Some clone_leases_def fresh_copy_def lease_map_ok_def lease_map_reach_def lease_map_den_def map_entries_def)
  qed
qed

section \<open>Specifications and statuses\<close>

definition host_spec_ok :: "('x, 't, 'm) store \<Rightarrow> DHCPHostSpec_obj \<Rightarrow> bool" where
  "host_spec_ok st s \<longleftrightarrow> slice_ok strings_of st (oh_DNS s) \<and> slice_ok options_of st (oh_Options s)"

definition host_spec_reach :: "('x, 't, 'm) store \<Rightarrow> DHCPHostSpec_obj \<Rightarrow> nat set" where
  "host_spec_reach st s = slice_reach st (oh_DNS s) \<union> slice_reach st (oh_Options s)"

definition host_spec_den ::
  "('x, 't, 'm) store \<Rightarrow> DHCPHostSpec_obj \<Rightarrow> DHCPHostSpec \<times> string list option \<times> ApiOption list option" where
  "host_spec_den st s = host_spec_value s (slice_den strings_of st (oh_DNS s), slice_den options_of st (oh_Options s))"

interpretation host_spec: deep_copier host_spec_ok host_spec_reach host_spec_den DHCPHostSpec_DeepCopyInto
  unfolding host_spec_ok_def [abs_def] host_spec_reach_def [abs_def] host_spec_den_def [abs_def]
  by (rule copier_view [OF copier_pair [OF strings.slices.deep_copier_axioms options.slices.deep_copier_axioms],
        where view = "\<lambda>s. (oh_DNS s, oh_Options s)" and make = host_spec_value
          and replace = "\<lambda>s v. s\<lparr>oh_DNS := fst v, oh_Options := snd v\<rparr>", simplified])
    (simp_all add: host_spec_value_def DHCPHostSpec_DeepCopyInto_def copy_pair_def case_prod_beta Let_def)

definition subnet_spec_ok :: "('x, 't, 'm, 'v) metadata \<Rightarrow> ('x, 't, 'm) store \<Rightarrow> 'm DHCPSubnetSpec_obj \<Rightarrow> bool" where
  "subnet_spec_ok M st s \<longleftrightarrow>
     slice_ok strings_of st (os_DNS s) \<and> slice_ok options_of st (os_Options s) \<and> meta_ok M st (os_Server s)"

definition subnet_spec_reach :: "('x, 't, 'm, 'v) metadata \<Rightarrow> ('x, 't, 'm) store \<Rightarrow> 'm DHCPSubnetSpec_obj \<Rightarrow> nat set" where
  "subnet_spec_reach M st s =
     slice_reach st (os_DNS s) \<union> (slice_reach st (os_Options s) \<union> meta_reach M st (os_Server s))"

definition subnet_spec_den ::
  "('x, 't, 'm, 'v) metadata \<Rightarrow> ('x, 't, 'm) store \<Rightarrow> 'm DHCPSubnetSpec_obj \<Rightarrow>
   DHCPSubnetSpec \<times> string list option \<times> ApiOption list option \<times> 'v" where
  "subnet_spec_den M st s =
     subnet_spec_value s
       (slice_den strings_of st (os_DNS s), slice_den options_of st (os_Options s), meta_den M st (os_Server s))"

definition subnet_status_den ::
  "('x, 't, 'm) store \<Rightarrow> DHCPSubnetStatus_obj \<Rightarrow> DHCPSubnetStatus" where
  "subnet_status_den st s = \<lparr>sstat_ErrorMessage = os_ErrorMessage s, sstat_Leases = lease_map_den st (os_Leases s)\<rparr>"

lemmas copy_unfold = copy_pair_def case_prod_beta Let_def

lemma subnet_spec_copier:
  assumes "library_copies lib M"
  shows "deep_copier (subnet_spec_ok M) (subnet_spec_reach M) (subnet_spec_den M) (DHCPSubnetSpec_DeepCopyInto lib)"
  unfolding subnet_spec_ok_def [abs_def] subnet_spec_reach_def [abs_def] subnet_spec_den_def [abs_def]
  by (rule copier_view [OF copier_pair [OF strings.slices.deep_copier_axioms
          copier_pair [OF options.slices.deep_copier_axioms library_copiesD(3) [OF assms]]],
        where view = "\<lambda>s. (os_DNS s, os_Options s, os_Server s)" and make = subnet_spec_value
          and replace = "\<lambda>s v. s\<lparr>os_DNS := fst v, os_Options := fst (snd v), os_Server := snd (snd v)\<rparr>", simplified])
    (simp_all add: subnet_spec_value_def DHCPSubnetSpec_DeepCopyInto_def copy_unfold)

lemma subnet_status_copier:
  assumes "library_copies lib M"
  shows "deep_copier (\<lambda>st s. lease_map_ok st (os_Leases s)) (\<lambda>st s. lease_map_reach st (os_Leases s)) subnet_status_den
    (DHCPSubnetStatus_DeepCopyInto lib)"
  unfolding subnet_status_den_def [abs_def]
  by (rule copier_view [OF lease_map_copier [OF library_copiesD(4) [OF assms]], where view = os_Leases
        and make = "\<lambda>s v. \<lparr>sstat_ErrorMessage = os_ErrorMessage s, sstat_Leases = v\<rparr>"
        and replace = "\<lambda>s v. s\<lparr>os_Leases := v\<rparr>"])
    (simp_all add: DHCPSubnetStatus_DeepCopyInto_def copy_unfold)

lemma server_status_copier:
  assumes "library_copies lib M"
  shows "deep_copier (\<lambda>st s. True) (\<lambda>st s. {}) (\<lambda>st s. s) (DHCPServerStatus_DeepCopyInto lib)"
  using copier_plain [of "\<lambda>s. s"] library_copiesD(4) [OF assms]
  by (simp add: DHCPServerStatus_DeepCopyInto_def [abs_def])

section \<open>Objects and lists\<close>

definition host_ok :: "('x, 't, 'm, 'v) metadata \<Rightarrow> ('x, 't, 'm) store \<Rightarrow> ('t, 'm) DHCPHost_obj \<Rightarrow> bool" where
  "host_ok M st h \<longleftrightarrow> meta_ok M st (oh_ObjectMeta h) \<and> host_spec_ok st (oh_Spec h)"

definition host_reach :: "('x, 't, 'm, 'v) metadata \<Rightarrow> ('x, 't, 'm) store \<Rightarrow> ('t, 'm) DHCPHost_obj \<Rightarrow> nat set" where
  "host_reach M st h = meta_reach M st (oh_ObjectMeta h) \<union> host_spec_reach st (oh_Spec h)"

definition host_den where
  "host_den M st h = (oh_TypeMeta h, meta_den M st (oh_ObjectMeta h), host_spec_den st (oh_Spec h), oh_Status h)"

definition server_ok :: "('x, 't, 'm, 'v) metadata \<Rightarrow> ('x, 't, 'm) store \<Rightarrow> ('t, 'm) DHCPServer_obj \<Rightarrow> bool" where
  "server_ok M st v \<longleftrightarrow> meta_ok M st (ov_ObjectMeta v)"

definition server_reach :: "('x, 't, 'm, 'v) metadata \<Rightarrow> ('x, 't, 'm) store \<Rightarrow> ('t, 'm) DHCPServer_obj \<Rightarrow> nat set" where
  "server_reach M st v = meta_reach M st (ov_ObjectMeta v)"

definition server_den where
  "server_den M st v = (ov_TypeMeta v, meta_den M st (ov_ObjectMeta v), ov_Spec v, ov_Status v)"

definition subnet_ok :: "('x, 't, 'm, 'v) metadata \<Rightarrow> ('x, 't, 'm) store \<Rightarrow> ('t, 'm) DHCPSubnet_obj \<Rightarrow> bool" where
  "subnet_ok M st s \<longleftrightarrow>
     meta_ok M st (os_ObjectMeta s) \<and> subnet_spec_ok M st (os_Spec s) \<and> lease_map_ok st (os_Leases (os_Status s))"

definition subnet_reach :: "('x, 't, 'm, 'v) metadata \<Rightarrow> ('x, 't, 'm) store \<Rightarrow> ('t, 'm) DHCPSubnet_obj \<Rightarrow> nat set" where
  "subnet_reach M st s =
     meta_reach M st (os_ObjectMeta s) \<union>
     (subnet_spec_reach M st (os_Spec s) \<union> lease_map_reach st (os_Leases (os_Status s)))"

definition subnet_den where
  "subnet_den M st s =
     (os_TypeMeta s, meta_den M st (os_ObjectMeta s), subnet_spec_den M st (os_Spec s), subnet_status_den st (os_Status s))"

lemma host_copier:
  assumes "library_copies lib M"
  shows "deep_copier (host_ok M) (host_reach M) (host_den M) (DHCPHost_DeepCopyInto lib)"
  unfolding host_ok_def [abs_def] host_reach_def [abs_def] host_den_def [abs_def]
  by (rule copier_view [OF copier_pair [OF library_copiesD(1) [OF assms] host_spec.deep_copier_axioms],
        where view = "\<lambda>h. (oh_ObjectMeta h, oh_Spec h)"
          and make = "\<lambda>h v. (oh_TypeMeta h, fst v, snd v, oh_Status h)"
          and replace = "\<lambda>h v. h\<lparr>oh_ObjectMeta := fst v, oh_Spec := snd v\<rparr>", unfolded fst_conv snd_conv])
    (simp_all add: DHCPHost_DeepCopyInto_def copy_unfold)

lemma server_copier:
  assumes "library_copies lib M"
  shows "deep_copier (server_ok M) (server_reach M) (server_den M) (DHCPServer_DeepCopyInto lib)"
  unfolding server_ok_def [abs_def] server_reach_def [abs_def] server_den_def [abs_def]
  by (rule copier_view [OF copier_pair [OF library_copiesD(1) [OF assms] server_status_copier [OF assms]],
        where view = "\<lambda>v. (ov_ObjectMeta v, ov_Status v)"
          and make = "\<lambda>v d. (ov_TypeMeta v, fst d, ov_Spec v, snd d)"
          and replace = "\<lambda>v d. v\<lparr>ov_ObjectMeta := fst d, ov_Status := snd d\<rparr>", simplified])
    (simp_all add: DHCPServer_DeepCopyInto_def copy_unfold)

lemma subnet_copier:
  assumes "library_copies lib M"
  shows "deep_copier (subnet_ok M) (subnet_reach M) (subnet_den M) (DHCPSubnet_DeepCopyInto lib)"
  unfolding subnet_ok_def [abs_def] subnet_reach_def [abs_def] subnet_den_def [abs_def]
  by (rule copier_view [OF copier_pair [OF library_copiesD(1) [OF assms]
          copier_pair [OF subnet_spec_copier [OF assms] subnet_status_copier [OF assms]]],
        where view = "\<lambda>s. (os_ObjectMeta s, os_Spec s, os_Status s)"
          and make = "\<lambda>s v. (os_TypeMeta s, v)"
          and replace = "\<lambda>s v. s\<lparr>os_ObjectMeta := fst v, os_Spec := fst (snd v), os_Status := snd (snd v)\<rparr>", simplified])
    (simp_all add: DHCPSubnet_DeepCopyInto_def copy_unfold)

lemma host_list_copier:
  assumes "library_copies lib M"
  shows "deep_copier
    (\<lambda>st l. meta_ok M st (ohl_ListMeta l) \<and> items_ok hosts_of (host_ok M) st (ohl_Items l))
    (\<lambda>st l. meta_reach M st (ohl_ListMeta l) \<union> items_reach hosts_of (host_reach M) st (ohl_Items l))
    (\<lambda>st l. (ohl_TypeMeta l, meta_den M st (ohl_ListMeta l), items_den hosts_of (host_den M) st (ohl_Items l)))
    (DHCPHostList_DeepCopyInto lib)"
  by (rule copier_view [OF copier_pair [OF library_copiesD(2) [OF assms]
          hosts.copier_items [OF host_copier [OF assms], of "zero_host lib"]],
        where view = "\<lambda>l. (ohl_ListMeta l, ohl_Items l)" and make = "\<lambda>l v. (ohl_TypeMeta l, v)"
          and replace = "\<lambda>l v. l\<lparr>ohl_ListMeta := fst v, ohl_Items := snd v\<rparr>", simplified])
    (simp_all add: DHCPHostList_DeepCopyInto_def copy_unfold)

lemma server_list_copier:
  assumes "library_copies lib M"
  shows "deep_copier
    (\<lambda>st l. meta_ok M st (ovl_ListMeta l) \<and> items_ok servers_of (server_ok M) st (ovl_Items l))
    (\<lambda>st l. meta_reach M st (ovl_ListMeta l) \<union> items_reach servers_of (server_reach M) st (ovl_Items l))
    (\<lambda>st l. (ovl_TypeMeta l, meta_den M st (ovl_ListMeta l), items_den servers_of (server_den M) st (ovl_Items l)))
    (DHCPServerList_DeepCopyInto lib)"
  by (rule copier_view [OF copier_pair [OF library_copiesD(2) [OF assms]
          servers.copier_items [OF server_copier [OF assms], of "zero_server lib"]],
        where view = "\<lambda>l. (ovl_ListMeta l, ovl_Items l)" and make = "\<lambda>l v. (ovl_TypeMeta l, v)"
          and replace = "\<lambda>l v. l\<lparr>ovl_ListMeta := fst v, ovl_Items := snd v\<rparr>", simplified])
    (simp_all add: DHCPServerList_DeepCopyInto_def copy_unfold)

lemma subnet_list_copier:
  assumes "library_copies lib M"
  shows "deep_copier
    (\<lambda>st l. meta_ok M st (osl_ListMeta l) \<and> items_ok subnets_of (subnet_ok M) st (osl_Items l))
    (\<lambda>st l. meta_reach M st (osl_ListMeta l) \<union> items_reach subnets_of (subnet_reach M) st (osl_Items l))
    (\<lambda>st l. (osl_TypeMeta l, meta_den M st (osl_ListMeta l), items_den subnets_of (subnet_den M) st (osl_Items l)))
    (DHCPSubnetList_DeepCopyInto lib)"
  by (rule copier_view [OF copier_pair [OF library_copiesD(2) [OF assms]
          subnets.copier_items [OF subnet_copier [OF assms], of "zero_subnet lib"]],
        where view = "\<lambda>l. (osl_ListMeta l, osl_Items l)" and make = "\<lambda>l v. (osl_TypeMeta l, v)"
          and replace = "\<lambda>l v. l\<lparr>osl_ListMeta := fst v, osl_Items := snd v\<rparr>", simplified])
    (simp_all add: DHCPSubnetList_DeepCopyInto_def copy_unfold)

section \<open>Runtime objects\<close>

datatype ('t, 'v) object_value =
  HostValue "'t \<times> 'v \<times> (DHCPHostSpec \<times> string list option \<times> ApiOption list option) \<times> DHCPHostStatus"
| HostListValue "'t \<times> 'v \<times> ('t \<times> 'v \<times> (DHCPHostSpec \<times> string list option \<times> ApiOption list option) \<times> DHCPHostStatus) list option"
| ServerValue "'t \<times> 'v \<times> DHCPServerSpec \<times> DHCPServerStatus"
| ServerListValue "'t \<times> 'v \<times> ('t \<times> 'v \<times> DHCPServerSpec \<times> DHCPServerStatus) list option"
| SubnetValue "'t \<times> 'v \<times> (DHCPSubnetSpec \<times> string list option \<times> ApiOption list option \<times> 'v) \<times> DHCPSubnetStatus"
| SubnetListValue "'t \<times> 'v \<times> ('t \<times> 'v \<times> (DHCPSubnetSpec \<times> string list option \<times> ApiOption list option \<times> 'v) \<times> DHCPSubnetStatus) list option"

fun object_ok :: "('x, 't, 'm, 'v) metadata \<Rightarrow> ('x, 't, 'm) store \<Rightarrow> ('t, 'm) runtime_Object \<Rightarrow> bool" where
  "object_ok M st (HostObject x) = host_ok M st x"
| "object_ok M st (HostListObject x) = (meta_ok M st (ohl_ListMeta x) \<and> items_ok hosts_of (host_ok M) st (ohl_Items x))"
| "object_ok M st (ServerObject x) = server_ok M st x"
| "object_ok M st (ServerListObject x) = (meta_ok M st (ovl_ListMeta x) \<and> items_ok servers_of (server_ok M) st (ovl_Items x))"
| "object_ok M st (SubnetObject x) = subnet_ok M st x"
| "object_ok M st (SubnetListObject x) = (meta_ok M st (osl_ListMeta x) \<and> items_ok subnets_of (subnet_ok M) st (osl_Items x))"

fun object_reach :: "('x, 't, 'm, 'v) metadata \<Rightarrow> ('x, 't, 'm) store \<Rightarrow> ('t, 'm) runtime_Object \<Rightarrow> nat set" where
  "object_reach M st (HostObject x) = host_reach M st x"
| "object_reach M st (HostListObject x) = meta_reach M st (ohl_ListMeta x) \<union> items_reach hosts_of (host_reach M) st (ohl_Items x)"
| "object_reach M st (ServerObject x) = server_reach M st x"
| "object_reach M st (ServerListObject x) = meta_reach M st (ovl_ListMeta x) \<union> items_reach servers_of (server_reach M) st (ovl_Items x)"
| "object_reach M st (SubnetObject x) = subnet_reach M st x"
| "object_reach M st (SubnetListObject x) = meta_reach M st (osl_ListMeta x) \<union> items_reach subnets_of (subnet_reach M) st (osl_Items x)"

fun object_den :: "('x, 't, 'm, 'v) metadata \<Rightarrow> ('x, 't, 'm) store \<Rightarrow> ('t, 'm) runtime_Object \<Rightarrow> ('t, 'v) object_value" where
  "object_den M st (HostObject x) = HostValue (host_den M st x)"
| "object_den M st (HostListObject x) =
     HostListValue (ohl_TypeMeta x, meta_den M st (ohl_ListMeta x), items_den hosts_of (host_den M) st (ohl_Items x))"
| "object_den M st (ServerObject x) = ServerValue (server_den M st x)"
| "object_den M st (ServerListObject x) =
     ServerListValue (ovl_TypeMeta x, meta_den M st (ovl_ListMeta x), items_den servers_of (server_den M) st (ovl_Items x))"
| "object_den M st (SubnetObject x) = SubnetValue (subnet_den M st x)"
| "object_den M st (SubnetListObject x) =
     SubnetListValue (osl_TypeMeta x, meta_den M st (osl_ListMeta x), items_den subnets_of (subnet_den M) st (osl_Items x))"

definition copied_object :: "('x, 't, 'm) apimachinery \<Rightarrow> ('x, 't, 'm) store \<Rightarrow> ('t, 'm) runtime_Object \<Rightarrow>
   ('x, 't, 'm) store \<times> ('t, 'm) runtime_Object" where
  "copied_object lib st x = (let r = DeepCopyObject lib st x in (fst r, the (snd r)))"

lemmas DeepCopyObject_unfold =
  DHCPHost_DeepCopyObject_def DHCPHost_DeepCopy_def DHCPHostList_DeepCopyObject_def DHCPHostList_DeepCopy_def
  DHCPServer_DeepCopyObject_def DHCPServer_DeepCopy_def DHCPServerList_DeepCopyObject_def DHCPServerList_DeepCopy_def
  DHCPSubnet_DeepCopyObject_def DHCPSubnet_DeepCopy_def DHCPSubnetList_DeepCopyObject_def DHCPSubnetList_DeepCopy_def
  new_copy_def as_object_def

lemma DeepCopyObject_not_nil: "DeepCopyObject lib st x = (fst (copied_object lib st x), Some (snd (copied_object lib st x)))"
  by (cases x) (simp_all add: copied_object_def DeepCopyObject_unfold case_prod_beta)

text \<open>The contract of a struct's copier is that of the object it is wrapped into.\<close>

lemma wrapped_copy:
  assumes c: "deep_copier ok reach den copier" and x: "ok st x"
    and C: "\<And>st x. ok' st (C x) = ok st x" "\<And>st x. reach' st (C x) = reach st x" "\<And>st x. den' st (C x) = D (den st x)"
    and r: "copier' st (C x) = (fst (copier st x), C (snd (copier st x)))"
  shows "fresh_copy ok' reach' den' st (C x) (copier' st (C x))"
  using deep_copier.copies [OF c x] by (simp add: fresh_copy_def C r)

lemma object_copier:
  assumes lib: "library_copies lib M"
  shows "deep_copier (object_ok M) (object_reach M) (object_den M) (copied_object lib)"
proof -
  note copiers = host_copier [OF lib] host_list_copier [OF lib] server_copier [OF lib] server_list_copier [OF lib]
    subnet_copier [OF lib] subnet_list_copier [OF lib]
  note frames = copiers [THEN deep_copier.axioms(1), THEN heap_value.frame]
  show ?thesis
  proof
    fix st x p
    assume "object_ok M st x" "p \<in> object_reach M st x"
    then show "p < length st"
      using copiers [THEN deep_copier.axioms(1), THEN heap_value.reach_bound] by (cases x) simp_all
  next
    fix st st' :: "('a, 'b, 'c) store" and x
    assume h: "object_ok M st x" "length st \<le> length st'" "\<And>p. p \<in> object_reach M st x \<Longrightarrow> st' ! p = st ! p"
    show "object_ok M st' x \<and> object_reach M st' x = object_reach M st x \<and> object_den M st' x = object_den M st x"
    proof (cases x)
      case (HostObject y)
      then show ?thesis using frames(1) [of st y st'] h by simp
    next
      case (HostListObject y)
      then show ?thesis using frames(2) [of st y st'] h by simp
    next
      case (ServerObject y)
      then show ?thesis using frames(3) [of st y st'] h by simp
    next
      case (ServerListObject y)
      then show ?thesis using frames(4) [of st y st'] h by simp
    next
      case (SubnetObject y)
      then show ?thesis using frames(5) [of st y st'] h by simp
    next
      case (SubnetListObject y)
      then show ?thesis using frames(6) [of st y st'] h by simp
    qed
  next
    fix st x
    assume "object_ok M st x"
    then show "fresh_copy (object_ok M) (object_reach M) (object_den M) st x (copied_object lib st x)"
      by (cases x; simp only:)
        (rule copiers [THEN wrapped_copy]; simp add: copied_object_def DeepCopyObject_unfold case_prod_beta)+
  qed
qed

text \<open>A nil pointer is copied to nil, as an untyped nil interface.\<close>

lemma nil_copies:
  "DHCPHost_DeepCopyObject lib st None = (st, None)" "DHCPHostList_DeepCopyObject lib st None = (st, None)"
  "DHCPServer_DeepCopyObject lib st None = (st, None)" "DHCPServerList_DeepCopyObject lib st None = (st, None)"
  "DHCPSubnet_DeepCopyObject lib st None = (st, None)" "DHCPSubnetList_DeepCopyObject lib st None = (st, None)"
  by (simp_all add: DeepCopyObject_unfold)

text \<open>C12: for every kind of object and list of the API, the generated \<^verbatim>\<open>DeepCopyObject\<close> returns an object (never nil) that is well typed in the grown store and denotes the same value as the original, specification, status, leases and metadata included; original and copy share no cell, so no write through one of them (a lease stored into the status map of the copy, say) changes what the other denotes, provided the metadata copies of the Kubernetes library promise the same of the metadata.\<close>

theorem deep_copy_is_independent:
  assumes "library_copies lib M" and "object_ok M st x"
  shows "\<exists>st' y. DeepCopyObject lib st x = (st', Some y) \<and> object_ok M st' y \<and>
    object_den M st' y = object_den M st x \<and> object_den M st' x = object_den M st x \<and>
    object_reach M st' x \<inter> object_reach M st' y = {} \<and>
    (\<forall>p c. p \<in> object_reach M st' y \<longrightarrow> object_den M (st'[p := c]) x = object_den M st x) \<and>
    (\<forall>p c. p \<in> object_reach M st' x \<longrightarrow> object_den M (st'[p := c]) y = object_den M st x)"
proof -
  note c = object_copier [OF assms(1)]
  obtain st' y where y: "copied_object lib st x = (st', y)" by fastforce
  have "DeepCopyObject lib st x = (st', Some y)" by (simp add: DeepCopyObject_not_nil y)
  moreover have "object_ok M st' y" "object_den M st' y = object_den M st x"
    using deep_copier.copyE [OF c assms(2) y] by metis+
  ultimately show ?thesis
    using deep_copier.original_kept(3) [OF c assms(2) y] deep_copier.copy_disjoint [OF c assms(2) y]
      deep_copier.independent [OF c assms(2) y] by blast
qed

section \<open>A subnet and its copy\<close>

text \<open>A metadata library whose metadata is one slice of labels.\<close>

fun library_of :: "('x list, 't, 'm) cell \<Rightarrow> 'x list option" where
  "library_of (LibraryCell xs) = Some xs" | "library_of _ = None"

interpretation labels: cell_kind LibraryCell library_of by unfold_locales simp

definition labels_lib :: "(string list, string, slice option) apimachinery" where
  "labels_lib =
     \<lparr>ObjectMeta_DeepCopyInto = clone_slice LibraryCell library_of [], ListMeta_DeepCopyInto = clone_slice LibraryCell library_of [],
      OwnerReference_DeepCopyInto = clone_slice LibraryCell library_of [], Time_DeepCopyInto = (\<lambda>t. t),
      zero_TypeMeta = [], zero_ObjectMeta = None, zero_OwnerReference = None, zero_Time = 0\<rparr>"

definition labels_view :: "(string list, string, slice option, string list option) metadata" where
  "labels_view = \<lparr>meta_ok = slice_ok library_of, meta_reach = slice_reach, meta_den = slice_den library_of\<rparr>"

lemma labels_copies: "library_copies labels_lib labels_view"
  using labels.slices.deep_copier_axioms by (simp add: library_copies_def labels_lib_def labels_view_def)

definition copy_store :: "(string list, string, slice option) store" where
  "copy_store = [LibraryCell [''app''], StringArray [''192.0.2.1'', ''192.0.2.2''], LeaseMap [(''02:00'', \<lparr>alease_IP = ''192.0.2.9'', alease_UpdatedAt = 7\<rparr>)]]"

definition copy_subnet :: "(string, slice option) DHCPSubnet_obj" where
  "copy_subnet =
     \<lparr>os_TypeMeta = ''DHCPSubnet'', os_ObjectMeta = Some \<lparr>sl_arr = 0, sl_off = 0, sl_len = 1\<rparr>,
      os_Spec = \<lparr>os_Subnet = ''192.0.2.0/24'', os_RangeFrom = ''192.0.2.8'', os_RangeTo = ''192.0.2.9'', os_Gateway = [],
        os_DNS = Some \<lparr>sl_arr = 1, sl_off = 1, sl_len = 1\<rparr>, os_Options = None, os_ServerHostName = [],
        os_BootFileName = [], os_LeaseTime = 60, os_Server = None\<rparr>,
      os_Status = \<lparr>os_ErrorMessage = [], os_Leases = Some 2\<rparr>\<rparr>"

lemma copy_subnet_ok: "object_ok labels_view copy_store (SubnetObject copy_subnet)"
  by (simp add: subnet_ok_def subnet_spec_ok_def labels_view_def copy_subnet_def copy_store_def slice_ok_def
      window_ok_def lease_map_ok_def)

theorem deep_copy_is_independent_witness:
  "\<exists>st' y. DeepCopyObject labels_lib copy_store (SubnetObject copy_subnet) = (st', Some y) \<and>
    object_den labels_view st' y = object_den labels_view copy_store (SubnetObject copy_subnet) \<and>
    object_reach labels_view st' (SubnetObject copy_subnet) \<inter> object_reach labels_view st' y = {}"
  using deep_copy_is_independent [OF labels_copies copy_subnet_ok] by blast

end
