(* ===== verification/Dhcp_Client.thy ===== *)
theory Dhcp_Client
  imports Dhcp_Sample
begin

text \<open>
  \<^verbatim>\<open>dhcp/client/client.go\<close>: the load generator, its receiving side: the hardware addresses it
  makes, the state of a client and the loop that hands received frames to the clients until
  all of them are acknowledged.
\<close>

section \<open>Hardware addresses\<close>

definition incMac :: "byte list \<Rightarrow> byte list" where
  "incMac addr =
     (let addr = addr[5 := addr ! 5 + 1] in
      if addr ! 5 = 0 then
        let addr = addr[4 := addr ! 4 + 1] in
        if addr ! 4 = 0 then
          let addr = addr[3 := addr ! 3 + 1] in
          if addr ! 3 = 0 then
            let addr = addr[2 := addr ! 2 + 1] in
            if addr ! 2 = 0 then
              let addr = addr[1 := addr ! 1 + 1] in
              if addr ! 1 = 0 then addr[0 := addr ! 0 + 1] else addr
            else addr
          else addr
        else addr
      else addr)"

section \<open>Clients\<close>

record Client =
  cl_MAC :: "byte list"
  cl_Offers :: "DHCPv4 list"
  cl_Ack :: "DHCPv4 option"

datatype client_error = InvalidOpcode | UnknownMessageType

definition ProcessResponse :: "dhcpv4_lib \<Rightarrow> Client \<Rightarrow> DHCPv4 \<Rightarrow> Client \<times> client_error option" where
  "ProcessResponse lib c resp =
     (if OpCode resp \<noteq> 2 then (c, Some InvalidOpcode)
      else case lib_MessageType lib resp of
        MessageTypeOffer \<Rightarrow> (c\<lparr>cl_Offers := cl_Offers c @ [resp]\<rparr>, None)
      | MessageTypeAck \<Rightarrow> (if cl_Ack c \<noteq> None then (c, None) else (c\<lparr>cl_Ack := Some resp\<rparr>, None))
      | _ \<Rightarrow> (c, Some UnknownMessageType))"

text \<open>
  The receiver's loop over the frames of the channel; \<open>parse\<close> is the parser of the
  package and \<open>ord\<close> the order in which the clients are visited. A frame is indexed at the
  six bytes of its target and sliced behind its 42 bytes of headers.
\<close>

datatype receive_end = ReceiverClosed | AllAcked | FramePanics

fun GetDHCPAddrs ::
  "dhcpv4_lib \<Rightarrow> (byte list \<Rightarrow> (string, DHCPv4) result) \<Rightarrow> string list \<Rightarrow> (string \<rightharpoonup> Client) \<Rightarrow> byte list list
   \<Rightarrow> (string \<rightharpoonup> Client) \<times> receive_end" where
  "GetDHCPAddrs lib parse ord clients [] = (clients, ReceiverClosed)"
| "GetDHCPAddrs lib parse ord clients (buf # bufs) =
     (if length buf < 6 then (clients, FramePanics)
      else
        let key = HardwareAddr_String (take 6 buf) in
        case clients key of
          None \<Rightarrow> GetDHCPAddrs lib parse ord clients bufs
        | Some client \<Rightarrow>
            if length buf < 42 then (clients, FramePanics)
            else case parse (drop 42 buf) of
              Inl e \<Rightarrow> GetDHCPAddrs lib parse ord clients bufs
            | Inr packet \<Rightarrow>
                (let client' = fst (ProcessResponse lib client packet);
                     clients' = clients(key \<mapsto> client')
                 in if cl_Ack client' \<noteq> None \<and> list_all (\<lambda>k. cl_Ack (the (clients' k)) \<noteq> None) ord
                    then (clients', AllAcked)
                    else GetDHCPAddrs lib parse ord clients' bufs))"

section \<open>Lemmas and properties\<close>

definition mac_value :: "byte list \<Rightarrow> nat" where
  "mac_value bs = foldl (\<lambda>n b. 256 * n + unat b) 0 bs"

lemma unat_byte_inc: "unat ((b :: byte) + 1) = (if b + 1 = 0 then 0 else unat b + 1)"
  by (metis Suc_eq_plus1 add.commute unatSuc unat_0)

lemma byte_max: "(b :: byte) + 1 = 0 \<Longrightarrow> unat b = 255"
proof -
  assume "b + 1 = 0"
  then have "b = -1" by (simp add: add_eq_0_iff2)
  then show ?thesis by (simp add: unsigned_minus_1_eq_mask mask_eq_exp_minus_1)
qed

lemma mac_bytes: "length a = 6 \<Longrightarrow> \<exists>x0 x1 x2 x3 x4 x5. a = [x0, x1, x2, x3, x4, x5]"
  by (auto simp: eval_nat_numeral length_Suc_conv)

lemma mac_value_bytes:
  "mac_value [x0, x1, x2, x3, x4, x5] =
     1099511627776 * unat x0 + 4294967296 * unat x1 + 16777216 * unat x2 + 65536 * unat x3 + 256 * unat x4 + unat x5"
  by (simp add: mac_value_def)

lemma mac_value_less: "length a = 6 \<Longrightarrow> mac_value a < 2 ^ 48"
proof -
  assume "length a = 6"
  then obtain x0 x1 x2 x3 x4 x5 where a: "a = [x0, x1, x2, x3, x4, x5]" using mac_bytes by blast
  show ?thesis
    unfolding a mac_value_bytes
    using byte_less [of x0] byte_less [of x1] byte_less [of x2] byte_less [of x3] byte_less [of x4] byte_less [of x5] by simp
qed

lemma length_incMac [simp]: "length (incMac a) = length a"
  by (simp add: incMac_def Let_def)

lemma mac_value_inc: "length a = 6 \<Longrightarrow> mac_value (incMac a) = (mac_value a + 1) mod 2 ^ 48"
proof -
  assume l: "length a = 6"
  then obtain x0 x1 x2 x3 x4 x5 where a: "a = [x0, x1, x2, x3, x4, x5]" using mac_bytes by blast
  have bound: "mac_value (incMac a) < 2 ^ 48" using mac_value_less [of "incMac a"] l by simp
  have "mac_value (incMac a) = mac_value a + 1 \<or> mac_value (incMac a) = 0 \<and> mac_value a + 1 = 2 ^ 48"
    unfolding a incMac_def
    using byte_max [of x0] byte_max [of x1] byte_max [of x2] byte_max [of x3] byte_max [of x4] byte_max [of x5]
    by (simp add: Let_def mac_value_bytes unat_byte_inc)
  with bound show ?thesis by auto
qed

lemma mac_value_iter: "length a = 6 \<Longrightarrow> mac_value ((incMac ^^ i) a) = (mac_value a + i) mod 2 ^ 48 \<and> length ((incMac ^^ i) a) = 6"
proof (induction i)
  case 0
  then show ?case using mac_value_less [of a] by simp
next
  case (Suc i)
  then show ?case using mac_value_inc [of "(incMac ^^ i) a"] by (simp add: mod_Suc_eq)
qed

lemma shifted_mod_inj:
  fixes v m :: nat
  assumes "(v + i) mod m = (v + j) mod m" "i \<le> j" "j - i < m"
  shows "i = j"
proof -
  have "m dvd (v + j) - (v + i)"
    using assms(1,2) mod_eq_dvd_iff_nat [of "v + i" "v + j" m] by simp
  then have "m dvd j - i" by simp
  then have "j - i = 0" using assms(3) by (metis dvd_imp_le leD neq0_conv)
  with assms(2) show ?thesis by simp
qed

lemma macs_inj:
  assumes "length a = 6" "n \<le> 2 ^ 48"
  shows "inj_on (\<lambda>i. (incMac ^^ i) a) {1..n}"
proof (rule linorder_inj_onI')
  fix i j
  assume ij: "i \<in> {1..n}" "j \<in> {1..n}" "i < j"
  show "(incMac ^^ i) a \<noteq> (incMac ^^ j) a"
  proof
    assume eq: "(incMac ^^ i) a = (incMac ^^ j) a"
    have "(mac_value a + i) mod 2 ^ 48 = (mac_value a + j) mod 2 ^ 48"
      using mac_value_iter [OF assms(1), of i] mac_value_iter [OF assms(1), of j] eq by simp
    moreover have "j - i < 2 ^ 48" using ij assms(2) by auto
    ultimately have "i = j" using shifted_mod_inj ij(3) less_imp_le by blast
    with ij(3) show False by simp
  qed
qed

text \<open>A client keeps its first acknowledgement.\<close>

lemma ProcessResponse_keeps_ack: "cl_Ack c = Some p \<Longrightarrow> cl_Ack (fst (ProcessResponse lib c resp)) = Some p"
  by (simp add: ProcessResponse_def split: MessageType.split)

text \<open>C37: the receiver reports that it is done only when every client has been acknowledged, and no
  client loses an acknowledgement on the way.\<close>

theorem done_means_all_acknowledged:
  assumes "GetDHCPAddrs lib parse ord clients bufs = (clients', AllAcked)" "visits ord clients"
  shows "(\<forall>c \<in> ran clients'. cl_Ack c \<noteq> None) \<and>
    (\<forall>k c p. clients k = Some c \<longrightarrow> cl_Ack c = Some p \<longrightarrow> (\<exists>c'. clients' k = Some c' \<and> cl_Ack c' = Some p))"
  using assms
proof (induction lib parse ord clients bufs rule: GetDHCPAddrs.induct)
  case (2 lib parse ord clients buf bufs)
  let ?key = "HardwareAddr_String (take 6 buf)"
  show ?case
  proof (cases "clients ?key")
    case None
    with 2 show ?thesis by (simp split: if_splits)
  next
    case (Some c)
    have len: "\<not> length buf < 6" "\<not> length buf < 42" using "2.prems"(1) Some by (auto split: if_splits)
    show ?thesis
    proof (cases "parse (drop 42 buf)")
      case (Inl e)
      with 2 Some len show ?thesis by simp
    next
      case (Inr p)
      let ?c = "fst (ProcessResponse lib c p)"
      let ?cs = "clients(?key \<mapsto> ?c)"
      have v: "visits ord ?cs" using "2.prems"(2) Some by (auto simp: visits_def)
      have kept: "\<exists>c'. ?cs k = Some c' \<and> cl_Ack c' = Some q" if "clients k = Some d" "cl_Ack d = Some q" for k d q
        using that Some ProcessResponse_keeps_ack by (cases "k = ?key") auto
      have step: "(if cl_Ack ?c \<noteq> None \<and> list_all (\<lambda>k. cl_Ack (the (?cs k)) \<noteq> None) ord then (?cs, AllAcked)
          else GetDHCPAddrs lib parse ord ?cs bufs) = (clients', AllAcked)"
        using "2.prems"(1) Some len Inr by (simp add: Let_def)
      show ?thesis
      proof (cases "cl_Ack ?c \<noteq> None \<and> list_all (\<lambda>k. cl_Ack (the (?cs k)) \<noteq> None) ord")
        case True
        have "clients' = ?cs" using step unfolding if_P [OF True] by simp
        moreover have "cl_Ack d \<noteq> None" if "?cs k = Some d" for k d
        proof -
          have "k \<in> set ord" using v that by (auto simp: visits_def)
          then have "cl_Ack (the (?cs k)) \<noteq> None" using True unfolding list_all_iff by blast
          then show ?thesis unfolding that option.sel .
        qed
        ultimately show ?thesis using kept unfolding ran_def by blast
      next
        case False
        have rest: "GetDHCPAddrs lib parse ord ?cs bufs = (clients', AllAcked)"
          using step unfolding if_not_P [OF False] .
        show ?thesis
          using "2.IH"(3) [OF len(1) refl Some len(2) Inr refl refl False rest v] kept by metis
      qed
    qed
  qed
qed simp

definition sample_frame :: "byte list" where
  "sample_frame = [0, 0, 0, 0, 0, 1] @ replicate 36 0"

definition sample_ack :: DHCPv4 where
  "sample_ack = (sample_packet 1 [53 \<mapsto> [5]])\<lparr>OpCode := 2\<rparr>"

definition sample_clients :: "string \<rightharpoonup> Client" where
  "sample_clients = [''00:00:00:00:00:01'' \<mapsto> \<lparr>cl_MAC = [0, 0, 0, 0, 0, 1], cl_Offers = [], cl_Ack = None\<rparr>]"

theorem done_means_all_acknowledged_witness:
  "\<exists>clients'. GetDHCPAddrs sample_lib (\<lambda>_. Inr sample_ack) [''00:00:00:00:00:01''] sample_clients [sample_frame] = (clients', AllAcked) \<and>
     (\<forall>c \<in> ran clients'. cl_Ack c \<noteq> None)"
proof -
  have key: "HardwareAddr_String [0, 0, 0, 0, 0, 1] = ''00:00:00:00:00:01''" by code_simp
  obtain clients' where r: "GetDHCPAddrs sample_lib (\<lambda>_. Inr sample_ack) [''00:00:00:00:00:01''] sample_clients [sample_frame] =
      (clients', AllAcked)"
    by (simp add: sample_frame_def sample_clients_def key ProcessResponse_def sample_ack_def code_message_type_def)
  moreover have "visits [''00:00:00:00:00:01''] sample_clients" by (simp add: visits_def sample_clients_def)
  ultimately show ?thesis using done_means_all_acknowledged by blast
qed

end
