(* ===== verification/Dhcp_Client_Send.thy ===== *)
theory Dhcp_Client_Send
  imports Dhcp_Client Raw_Packets
begin

text \<open>
  \<^verbatim>\<open>dhcp/client/client.go\<close>: the load generator, its sending side and its main program. The
  packet libraries and the system calls are parameters. The goroutine of a client runs beside
  the receiver: what it sees of its own record, each time it looks after a pause, is the
  parameter \<open>seen\<close>.
\<close>

section \<open>Raw sockets\<close>

text \<open>
  The system calls made, in order, and the result. The deferred close of the socket runs on
  every way out behind it, a panic included; its own error is only logged.
\<close>

definition sendEthernet ::
  "'l packet_lib \<Rightarrow> raw_syscalls \<Rightarrow> NetInterface \<Rightarrow> byte list \<Rightarrow> net_IP \<Rightarrow> 16 word \<Rightarrow> byte list \<Rightarrow> net_IP \<Rightarrow> 16 word \<Rightarrow>
   DHCPv4 option \<Rightarrow> raw_event list \<times> string option outcome" where
  "sendEthernet pk sys iface srcMAC srcIP srcPort dstMAC dstIP dstPort dhcPv4 =
     (let eth = \<lparr>eth_EthernetType = 0x0800, eth_SrcMAC = srcMAC, eth_DstMAC = dstMAC\<rparr>;
          ip = \<lparr>ipl_Version = 4, ipl_TTL = 64, ipl_SrcIP = srcIP, ipl_DstIP = dstIP, ipl_Protocol = 17,
            ipl_DontFragment = True\<rparr>;
          udp = \<lparr>udp_SrcPort = srcPort, udp_DstPort = dstPort\<rparr> in
      case pk_SetNetworkLayer pk udp ip of
        Some e \<Rightarrow> ([], Returns (Some (''send Ethernet: couldn'' @ [CHR 0x27] @ ''t set network layer: '' @ e)))
      | None \<Rightarrow>
          case dhcPv4 of
            None \<Rightarrow> ([], Panics)
          | Some packet \<Rightarrow>
              case build_frame pk (''can'' @ [CHR 0x27] @ ''t serialize layer: '') eth ip udp packet of
                FramePanic \<Rightarrow> ([], Panics)
              | FrameError e \<Rightarrow> ([], Returns (Some e))
              | Frame bytes \<Rightarrow>
                  case sys_Socket sys of
                    Inl e \<Rightarrow> ([], Returns (Some (''send Ethernet: can'' @ [CHR 0x27] @ ''t open socket: '' @ e)))
                  | Inr fd \<Rightarrow>
                      case sys_SetsockoptInt sys fd of
                        Some e \<Rightarrow> ([Opened fd, Closed fd], Returns (Some (''send Ethernet: can'' @ [CHR 0x27] @ ''t set option for socket: '' @ e)))
                      | None \<Rightarrow>
                          if length (pk_HWBytes pk packet) < 6 then ([Opened fd, Closed fd], Panics)
                          else
                            let hwAddr = take 6 (pk_HWBytes pk packet) @ [0, 0];
                                ethAddr = \<lparr>sa_Protocol = 0, sa_Ifindex = if_Index iface, sa_Hatype = 0,
                                  sa_Pkttype = 0, sa_Halen = 6, sa_Addr = hwAddr\<rparr> in
                            ([Opened fd, Sendto fd bytes ethAddr, Closed fd],
                             Returns (map_option (\<lambda>e. ''can'' @ [CHR 0x27] @ ''t send frame via socket: '' @ e) (sys_Sendto sys fd bytes ethAddr))))"

definition IPv4bcast :: net_IP where
  "IPv4bcast = net_IPv4 255 255 255 255"

definition broadcast_packet ::
  "'l packet_lib \<Rightarrow> raw_syscalls \<Rightarrow> NetInterface \<Rightarrow> Client \<Rightarrow> DHCPv4 option \<Rightarrow> raw_event list \<times> string option outcome" where
  "broadcast_packet pk sys iface c d =
     sendEthernet pk sys iface (cl_MAC c) IPv4zero 68 [255, 255, 255, 255, 255, 255] IPv4bcast 67 d"

text \<open>
  The receiver: each read has a buffer of 1500 bytes, a failed read ends the goroutine. The
  channel is not closed then. A failed bind leaves the socket open.
\<close>

datatype receiver = ReceiverFailed "int option" string | Receiving int SockaddrLinklayer

definition getEthernetReceiver ::
  "(string, int) result \<Rightarrow> (int \<Rightarrow> SockaddrLinklayer \<Rightarrow> string option) \<Rightarrow> NetInterface \<Rightarrow> receiver" where
  "getEthernetReceiver socket bind_call iface =
     (case socket of
        Inl e \<Rightarrow> ReceiverFailed None e
      | Inr fd \<Rightarrow>
          let sa = \<lparr>sa_Protocol = 0x0300, sa_Ifindex = if_Index iface, sa_Hatype = 1, sa_Pkttype = 3, sa_Halen = 6,
            sa_Addr = replicate 8 0\<rparr> in
          case bind_call fd sa of Some e \<Rightarrow> ReceiverFailed (Some fd) e | None \<Rightarrow> Receiving fd sa)"

fun receive_loop :: "(string, byte list) result list \<Rightarrow> byte list list \<times> bool" where
  "receive_loop [] = ([], True)"
| "receive_loop (Inl e # rs) = ([], False)"
| "receive_loop (Inr msg # rs) = (let r = receive_loop rs in (take 1500 msg # fst r, snd r))"

section \<open>The goroutine of a client\<close>

definition sendRequest ::
  "'l packet_lib \<Rightarrow> raw_syscalls \<Rightarrow> (DHCPv4 \<Rightarrow> (string, DHCPv4) result) \<Rightarrow> NetInterface \<Rightarrow> Client \<Rightarrow>
   raw_event list \<times> unit outcome" where
  "sendRequest pk sys mk iface c =
     (if length (cl_Offers c) < 1 then ([], Returns ())
      else
        let offer = cl_Offers c ! (length (cl_Offers c) - 1);
            req = (case mk offer of Inl e \<Rightarrow> None | Inr p \<Rightarrow> Some p);
            r = broadcast_packet pk sys iface c req in
        (fst r, case snd r of Panics \<Rightarrow> Panics | Returns err \<Rightarrow> Returns ()))"

text \<open>
  \<open>seen t\<close> is the record of the client after the \<open>t\<close>-th pause of its goroutine, \<open>sys t\<close> the
  system calls before the pause \<open>t\<close>. A loop returns the number of the last pause, the packets
  it sent and whether it panicked.
\<close>

fun discover_loop ::
  "'l packet_lib \<Rightarrow> (nat \<Rightarrow> raw_syscalls) \<Rightarrow> NetInterface \<Rightarrow> (nat \<Rightarrow> Client) \<Rightarrow> DHCPv4 option \<Rightarrow> nat \<Rightarrow> nat list \<Rightarrow>
   raw_event list \<times> nat outcome" where
  "discover_loop pk sys iface seen d t [] = ([], Returns t)"
| "discover_loop pk sys iface seen d t (i # is) =
     (let r = broadcast_packet pk (sys t) iface (seen t) d in
      case snd r of
        Panics \<Rightarrow> (fst r, Panics)
      | Returns err \<Rightarrow>
          if i > 2 \<and> length (cl_Offers (seen (t + 1))) > 0 then (fst r, Returns (t + 1))
          else let q = discover_loop pk sys iface seen d (t + 1) is in (fst r @ fst q, snd q))"

partial_function (option) request_loop ::
  "'l packet_lib \<Rightarrow> (nat \<Rightarrow> raw_syscalls) \<Rightarrow> (DHCPv4 \<Rightarrow> (string, DHCPv4) result) \<Rightarrow> NetInterface \<Rightarrow> (nat \<Rightarrow> Client) \<Rightarrow> nat \<Rightarrow>
   raw_event list \<Rightarrow> (raw_event list \<times> nat outcome) option" where
  "request_loop pk sys mk iface seen t sent =
     (let r = sendRequest pk (sys t) mk iface (seen t) in
      case snd r of
        Panics \<Rightarrow> Some (sent @ fst r, Panics)
      | Returns u \<Rightarrow>
          if cl_Ack (seen (t + 1)) \<noteq> None then Some (sent @ fst r, Returns (t + 1))
          else request_loop pk sys mk iface seen (t + 1) (sent @ fst r))"

definition SendDiscovers ::
  "'l packet_lib \<Rightarrow> (nat \<Rightarrow> raw_syscalls) \<Rightarrow> (byte list \<Rightarrow> (string, DHCPv4) result) \<Rightarrow> (DHCPv4 \<Rightarrow> (string, DHCPv4) result) \<Rightarrow>
   NetInterface \<Rightarrow> (nat \<Rightarrow> Client) \<Rightarrow> (raw_event list \<times> nat outcome) option" where
  "SendDiscovers pk sys mk_discovery mk_request iface seen =
     (let d = (case mk_discovery (cl_MAC (seen 0)) of Inl e \<Rightarrow> None | Inr p \<Rightarrow> Some p);
          r = discover_loop pk sys iface seen d 0 [0..<13] in
      case snd r of
        Panics \<Rightarrow> Some (fst r, Panics)
      | Returns t \<Rightarrow> request_loop pk sys mk_request iface seen t (fst r))"

section \<open>The main program\<close>

text \<open>The loop that makes the clients of a run, and the count behind the timeout.\<close>

fun make_clients :: "nat \<Rightarrow> byte list \<Rightarrow> (string \<rightharpoonup> Client) \<Rightarrow> (string \<rightharpoonup> Client)" where
  "make_clients 0 cm clients = clients"
| "make_clients (Suc n) cm clients =
     (let cm = incMac cm;
          client = \<lparr>cl_MAC = [cm ! 0, cm ! 1, cm ! 2, cm ! 3, cm ! 4, cm ! 5], cl_Offers = [], cl_Ack = None\<rparr> in
      make_clients n cm (clients(HardwareAddr_String cm \<mapsto> client)))"

definition count_success :: "string list \<Rightarrow> (string \<rightharpoonup> Client) \<Rightarrow> nat" where
  "count_success ord clients =
     foldl (\<lambda>success k.
        if length (cl_Offers (the (clients k))) = 0 then success
        else if cl_Ack (the (clients k)) = None then success
        else success + 1) 0 ord"

record client_flags =
  fl_timeout :: int
  fl_numClients :: int
  fl_ifName :: string
  fl_startMac :: string

datatype client_exit = ClientFatal string | ClientReport nat nat

text \<open>
  \<open>receive\<close> is what the goroutines do to the clients until the receiver reports that it is
  done or the timeout passes.
\<close>

definition client_main ::
  "client_flags \<Rightarrow> (string \<Rightarrow> (string, NetInterface) result) \<Rightarrow> (string \<Rightarrow> (string, byte list) result) \<Rightarrow>
   (NetInterface \<Rightarrow> receiver) \<Rightarrow> string list \<Rightarrow> ((string \<rightharpoonup> Client) \<Rightarrow> (string \<rightharpoonup> Client)) \<Rightarrow> client_exit" where
  "client_main fl InterfaceByName ParseMAC receiver ord receive =
     (case InterfaceByName (fl_ifName fl) of
        Inl e \<Rightarrow> ClientFatal e
      | Inr iface \<Rightarrow>
          case ParseMAC (fl_startMac fl) of
            Inl e \<Rightarrow> ClientFatal e
          | Inr cm \<Rightarrow>
              let clients = make_clients (nat (fl_numClients fl)) cm Map.empty in
              case receiver iface of
                ReceiverFailed fd e \<Rightarrow> ClientFatal e
              | Receiving fd sa \<Rightarrow>
                  let clients = receive clients in
                  ClientReport (count_success ord clients) (card (dom clients)))"

section \<open>Properties\<close>

text \<open>C39: on every way out of \<^verbatim>\<open>sendEthernet\<close>, its errors and its panics included, the raw socket it opened is closed again; it returns without an error only when it has handed the kernel one frame, built from the packet and the addresses and ports it was given, with the first six bytes of the client's hardware address as the link-layer address.\<close>

theorem send_ethernet_releases_its_socket:
  assumes "\<And>fd. sys_Socket sys = Inr fd \<Longrightarrow> fd \<notin> fds"
    and "sendEthernet pk sys iface srcMAC srcIP srcPort dstMAC dstIP dstPort dhcPv4 = (es, r)"
  shows "open_fds fds es = fds \<and>
    (r = Returns None \<longrightarrow>
      (\<exists>packet fd bytes sa dhcp. dhcPv4 = Some packet \<and> es = [Opened fd, Sendto fd bytes sa, Closed fd] \<and>
         pk_Layer pk (pk_ToBytes pk packet) = SerializableLayer dhcp \<and>
         pk_SerializeLayers pk \<lparr>eth_EthernetType = 0x0800, eth_SrcMAC = srcMAC, eth_DstMAC = dstMAC\<rparr>
           \<lparr>ipl_Version = 4, ipl_TTL = 64, ipl_SrcIP = srcIP, ipl_DstIP = dstIP, ipl_Protocol = 17, ipl_DontFragment = True\<rparr>
           \<lparr>udp_SrcPort = srcPort, udp_DstPort = dstPort\<rparr> dhcp = Inr bytes \<and> sa_Ifindex sa = if_Index iface \<and>
         take 6 (sa_Addr sa) = take 6 (pk_HWBytes pk packet) \<and> sys_Sendto sys fd bytes sa = None))"
  using assms(2) unfolding sendEthernet_def Let_def
  by (auto simp: assms(1) build_frame_bytes split: option.splits frame.splits sum.splits if_splits)

text \<open>
  What the goroutine relies on. Of the packet libraries: a packet whose client has a hardware
  address of six bytes prints to bytes that decode as a layer, and the address has those six
  bytes. Of the constructor of requests: it succeeds for the offers the client has and makes
  such packets.
\<close>

definition packets_ok :: "'l packet_lib \<Rightarrow> bool" where
  "packets_ok pk \<longleftrightarrow>
     (\<forall>p. length (ClientHWAddr p) = 6 \<longrightarrow> pk_Layer pk (pk_ToBytes pk p) \<noteq> NilLayer \<and> 6 \<le> length (pk_HWBytes pk p))"

definition offers_ok :: "(DHCPv4 \<Rightarrow> (string, DHCPv4) result) \<Rightarrow> (nat \<Rightarrow> Client) \<Rightarrow> bool" where
  "offers_ok mk seen \<longleftrightarrow>
     (\<forall>t. \<forall>offer \<in> set (cl_Offers (seen t)). \<exists>p. mk offer = Inr p \<and> length (ClientHWAddr p) = 6)"

text \<open>
  The system calls of one broadcast of a packet before the pause \<open>t\<close>, from the client's own
  address and port 68 to everybody at port 67, and of the request for the last offer.
\<close>

definition broadcast_events ::
  "'l packet_lib \<Rightarrow> (nat \<Rightarrow> raw_syscalls) \<Rightarrow> NetInterface \<Rightarrow> (nat \<Rightarrow> Client) \<Rightarrow> DHCPv4 \<Rightarrow> nat \<Rightarrow> raw_event list" where
  "broadcast_events pk sys iface seen p t =
     fst (sendEthernet pk (sys t) iface (cl_MAC (seen t)) IPv4zero 68 [255, 255, 255, 255, 255, 255] IPv4bcast 67 (Some p))"

definition request_events ::
  "'l packet_lib \<Rightarrow> (nat \<Rightarrow> raw_syscalls) \<Rightarrow> (DHCPv4 \<Rightarrow> (string, DHCPv4) result) \<Rightarrow> NetInterface \<Rightarrow> (nat \<Rightarrow> Client) \<Rightarrow> nat \<Rightarrow>
   raw_event list" where
  "request_events pk sys mk iface seen t =
     (if cl_Offers (seen t) = [] then []
      else broadcast_events pk sys iface seen (projr (mk (last (cl_Offers (seen t))))) t)"

lemma broadcast_returns:
  assumes "packets_ok pk" "length (ClientHWAddr p) = 6"
  shows "\<exists>err. broadcast_packet pk (sys t) iface (seen t) (Some p) = (broadcast_events pk sys iface seen p t, Returns err)"
proof -
  have "build_frame pk what eth ip udp p \<noteq> FramePanic" for what eth ip udp
    using assms by (auto simp: packets_ok_def build_frame_def split: DecodedLayer.splits sum.splits)
  moreover have "\<not> length (pk_HWBytes pk p) < 6" using assms by (simp add: packets_ok_def not_less)
  ultimately have "snd (sendEthernet pk sys' iface srcMAC srcIP srcPort dstMAC dstIP dstPort (Some p)) \<noteq> Panics"
    for sys' srcMAC srcIP srcPort dstMAC dstIP dstPort
    by (simp add: sendEthernet_def Let_def split: option.split frame.split sum.split)
  then show ?thesis
    unfolding broadcast_packet_def broadcast_events_def by (metis outcome.exhaust prod.collapse)
qed

lemma sendRequest_returns:
  assumes "packets_ok pk" "offers_ok mk seen"
  shows "sendRequest pk (sys t) mk iface (seen t) = (request_events pk sys mk iface seen t, Returns ())"
proof (cases "cl_Offers (seen t) = []")
  case False
  then obtain p where p: "mk (last (cl_Offers (seen t))) = Inr p" "length (ClientHWAddr p) = 6"
    using assms(2) last_in_set [OF False] unfolding offers_ok_def by blast
  obtain err where "broadcast_packet pk (sys t) iface (seen t) (Some p) = (broadcast_events pk sys iface seen p t, Returns err)"
    using broadcast_returns [OF assms(1) p(2)] by blast
  with False p(1) show ?thesis
    by (simp add: sendRequest_def request_events_def last_conv_nth Let_def Suc_le_eq)
qed (simp add: sendRequest_def request_events_def)

lemma discover_loop_bounds:
  assumes "packets_ok pk" "length (ClientHWAddr d) = 6" and "i \<le> 13"
  shows "\<exists>k. discover_loop pk sys iface seen (Some d) i [i..<13] =
      (concat (map (broadcast_events pk sys iface seen d) [i..<k]), Returns k) \<and> i \<le> k \<and> k \<le> 13 \<and>
    (k < 13 \<longrightarrow> 4 \<le> k \<and> cl_Offers (seen k) \<noteq> []) \<and> (\<forall>m. i < m \<longrightarrow> 4 \<le> m \<longrightarrow> m < k \<longrightarrow> cl_Offers (seen m) = [])"
  using assms(3)
proof (induction "13 - i" arbitrary: i)
  case 0
  then show ?case by simp
next
  case (Suc n)
  then have upt: "[i..<13] = i # [Suc i..<13]" and le: "Suc i \<le> 13" "n = 13 - Suc i" by (simp_all add: upt_conv_Cons)
  obtain err where r: "broadcast_packet pk (sys i) iface (seen i) (Some d) = (broadcast_events pk sys iface seen d i, Returns err)"
    using broadcast_returns [OF assms(1,2)] by blast
  from Suc.hyps(1) [OF le(2,1)] obtain k where
    q: "discover_loop pk sys iface seen (Some d) (Suc i) [Suc i..<13] =
        (concat (map (broadcast_events pk sys iface seen d) [Suc i..<k]), Returns k)" "Suc i \<le> k" "k \<le> 13"
      "k < 13 \<longrightarrow> 4 \<le> k \<and> cl_Offers (seen k) \<noteq> []" "\<forall>m. Suc i < m \<longrightarrow> 4 \<le> m \<longrightarrow> m < k \<longrightarrow> cl_Offers (seen m) = []" by blast
  show ?case
  proof (cases "i > 2 \<and> cl_Offers (seen (Suc i)) \<noteq> []")
    case True
    have "discover_loop pk sys iface seen (Some d) i [i..<13] =
        (concat (map (broadcast_events pk sys iface seen d) [i..<Suc i]), Returns (Suc i))"
      using True r by (simp add: upt Let_def)
    with True le show ?thesis by (intro exI [of _ "Suc i"]) auto
  next
    case False
    have "discover_loop pk sys iface seen (Some d) i [i..<13] =
        (concat (map (broadcast_events pk sys iface seen d) [i..<k]), Returns k)"
      using False r q(1,2) by (auto simp: upt Let_def upt_conv_Cons)
    moreover have "\<forall>m. i < m \<longrightarrow> 4 \<le> m \<longrightarrow> m < k \<longrightarrow> cl_Offers (seen m) = []"
    proof (intro allI impI)
      fix m
      assume m: "i < m" "4 \<le> m" "m < k"
      show "cl_Offers (seen m) = []"
      proof (cases "m = Suc i")
        case True
        then show ?thesis using False m(2) by auto
      next
        case False
        then show ?thesis using q(5) m by auto
      qed
    qed
    ultimately show ?thesis using q by (intro exI [of _ k]) auto
  qed
qed

lemma request_loop_ends:
  assumes ok: "packets_ok pk" "offers_ok mk seen"
    and first: "cl_Ack (seen n) \<noteq> None" "t < n" "\<And>m. t < m \<Longrightarrow> m < n \<Longrightarrow> cl_Ack (seen m) = None"
  shows "request_loop pk sys mk iface seen t sent = Some (sent @ concat (map (request_events pk sys mk iface seen) [t..<n]), Returns n)"
  using first(2,3)
proof (induction "n - t" arbitrary: t sent)
  case 0
  then show ?case by simp
next
  case (Suc k)
  note r = sendRequest_returns [OF ok]
  have upt: "[t..<n] = t # [Suc t..<n]" using Suc.prems(1) by (simp add: upt_conv_Cons)
  show ?case
  proof (cases "Suc t = n")
    case True
    then show ?thesis using first(1) by (subst request_loop.simps) (simp add: Let_def r upt)
  next
    case False
    then have less: "Suc t < n" "k = n - Suc t" using Suc.prems(1) Suc.hyps(2) by simp_all
    then have ih: "request_loop pk sys mk iface seen (Suc t) sent' =
        Some (sent' @ concat (map (request_events pk sys mk iface seen) [Suc t..<n]), Returns n)" for sent'
      using Suc.hyps(1) [of "Suc t"] Suc.prems(2) by simp
    then show ?thesis
      using Suc.prems(2) [of "Suc t"] less by (subst request_loop.simps) (simp add: Let_def r upt)
  qed
qed

lemma request_loop_acked:
  assumes ok: "packets_ok pk" "offers_ok mk seen"
    and "request_loop pk sys mk iface seen t sent = Some res"
  shows "\<exists>n>t. cl_Ack (seen n) \<noteq> None"
proof -
  have "packets_ok pk \<longrightarrow> offers_ok mk seen \<longrightarrow> (\<exists>n>t. cl_Ack (seen n) \<noteq> None)"
  proof (rule request_loop.raw_induct [where P = "\<lambda>pk sys mk iface seen t sent res. packets_ok pk \<longrightarrow>
        offers_ok mk seen \<longrightarrow> (\<exists>n>t. cl_Ack (seen n) \<noteq> None)", OF _ assms(3)], intro impI)
    fix loop :: "'a packet_lib \<Rightarrow> (nat \<Rightarrow> raw_syscalls) \<Rightarrow> (DHCPv4 \<Rightarrow> (string, DHCPv4) result) \<Rightarrow> NetInterface \<Rightarrow>
        (nat \<Rightarrow> Client) \<Rightarrow> nat \<Rightarrow> raw_event list \<Rightarrow> (raw_event list \<times> nat outcome) option"
      and pk :: "'a packet_lib" and sys mk iface seen t sent res
    assume IH: "\<And>pk sys mk iface seen t sent res. loop pk sys mk iface seen t sent = Some res \<Longrightarrow>
        packets_ok pk \<longrightarrow> offers_ok mk seen \<longrightarrow> (\<exists>n>t. cl_Ack (seen n) \<noteq> None)"
      and body: "(let r = sendRequest pk (sys t) mk iface (seen t) in
          case snd r of Panics \<Rightarrow> Some (sent @ fst r, Panics)
          | Returns u \<Rightarrow> if cl_Ack (seen (t + 1)) \<noteq> None then Some (sent @ fst r, Returns (t + 1))
              else loop pk sys mk iface seen (t + 1) (sent @ fst r)) = Some res"
      and a: "packets_ok pk" "offers_ok mk seen"
    have r: "snd (sendRequest pk (sys t) mk iface (seen t)) = Returns ()"
      using sendRequest_returns [OF a] by simp
    show "\<exists>n>t. cl_Ack (seen n) \<noteq> None"
    proof (cases "cl_Ack (seen (t + 1))")
      case (Some p)
      then show ?thesis by (intro exI [of _ "t + 1"]) simp
    next
      case None
      then have "loop pk sys mk iface seen (t + 1) (sent @ fst (sendRequest pk (sys t) mk iface (seen t))) = Some res"
        using body r by (simp add: Let_def)
      from IH [OF this] a show ?thesis by (meson less_add_one less_trans)
    qed
  qed
  then show ?thesis using ok by blast
qed

text \<open>C38: the goroutine of a client, when its packets can be built: the discover and the requests for the offers it has are made without an error and have a hardware address of six bytes, and the packet libraries decode such packets (\<open>packets_ok\<close>, \<open>offers_ok\<close>). It broadcasts the discover \<open>k\<close> times, between four and thirteen, and stops before thirteen exactly at the first pause from the fourth on that sees an offer. Then before every pause it broadcasts the request for its last offer, or nothing while it has none. It returns at the first pause after the discovers that sees an acknowledgement, having made exactly these system calls, and never returns when there is none; it does not panic.\<close>

theorem goroutine_ends_with_the_ack:
  assumes ok: "packets_ok pk" "offers_ok mk_request seen"
    and d: "mk_discovery (cl_MAC (seen 0)) = Inr d" "length (ClientHWAddr d) = 6"
  shows "\<exists>k. 4 \<le> k \<and> k \<le> 13 \<and> (k < 13 \<longrightarrow> cl_Offers (seen k) \<noteq> []) \<and> (\<forall>m. 4 \<le> m \<longrightarrow> m < k \<longrightarrow> cl_Offers (seen m) = []) \<and>
    (\<forall>es n. SendDiscovers pk sys mk_discovery mk_request iface seen = Some (es, Returns n) \<longleftrightarrow>
       k < n \<and> cl_Ack (seen n) \<noteq> None \<and> (\<forall>m. k < m \<longrightarrow> m < n \<longrightarrow> cl_Ack (seen m) = None) \<and>
       es = concat (map (broadcast_events pk sys iface seen d) [0..<k]) @
            concat (map (request_events pk sys mk_request iface seen) [k..<n])) \<and>
    (SendDiscovers pk sys mk_discovery mk_request iface seen = None \<longleftrightarrow> (\<forall>n>k. cl_Ack (seen n) = None)) \<and>
    (\<forall>es. SendDiscovers pk sys mk_discovery mk_request iface seen \<noteq> Some (es, Panics))"
proof -
  obtain k where k: "discover_loop pk sys iface seen (Some d) 0 [0..<13] =
        (concat (map (broadcast_events pk sys iface seen d) [0..<k]), Returns k)" "k \<le> 13"
      "k < 13 \<longrightarrow> 4 \<le> k \<and> cl_Offers (seen k) \<noteq> []" "\<forall>m. 0 < m \<longrightarrow> 4 \<le> m \<longrightarrow> m < k \<longrightarrow> cl_Offers (seen m) = []"
    using discover_loop_bounds [OF ok(1) d(2), of 0 sys iface seen] by auto
  let ?run = "SendDiscovers pk sys mk_discovery mk_request iface seen"
  let ?first = "\<lambda>n. k < n \<and> cl_Ack (seen n) \<noteq> None \<and> (\<forall>m. k < m \<longrightarrow> m < n \<longrightarrow> cl_Ack (seen m) = None)"
  let ?trace = "\<lambda>n. concat (map (broadcast_events pk sys iface seen d) [0..<k]) @
    concat (map (request_events pk sys mk_request iface seen) [k..<n])"
  have run: "?run = request_loop pk sys mk_request iface seen k (concat (map (broadcast_events pk sys iface seen d) [0..<k]))"
    using k(1) d(1) by (simp add: SendDiscovers_def)
  have ends: "?run = Some (?trace n, Returns n)" if "?first n" for n
    unfolding run by (rule request_loop_ends [where seen = seen, OF ok]) (use that in auto)
  have first: "\<exists>n. ?first n" if "m > k" "cl_Ack (seen m) \<noteq> None" for m
  proof -
    define n where "n = (LEAST n. n > k \<and> cl_Ack (seen n) \<noteq> None)"
    have "n > k \<and> cl_Ack (seen n) \<noteq> None" unfolding n_def by (rule LeastI [of _ m]) (use that in simp)
    moreover have "cl_Ack (seen j) = None" if "k < j" "j < n" for j
      using not_less_Least [of j "\<lambda>n. n > k \<and> cl_Ack (seen n) \<noteq> None"] that by (auto simp: n_def)
    ultimately show ?thesis by blast
  qed
  have acked: "\<exists>n. ?first n \<and> res = (?trace n, Returns n)" if res: "?run = Some res" for res
  proof -
    obtain n where "?first n" using request_loop_acked [OF ok res [unfolded run]] first by blast
    then show ?thesis using ends [of n] res by (intro exI [of _ n]) simp
  qed
  have iff: "\<forall>es n. ?run = Some (es, Returns n) \<longleftrightarrow>
      k < n \<and> cl_Ack (seen n) \<noteq> None \<and> (\<forall>m. k < m \<longrightarrow> m < n \<longrightarrow> cl_Ack (seen m) = None) \<and> es = ?trace n"
    using acked ends by blast
  have never: "?run = None \<longleftrightarrow> (\<forall>n>k. cl_Ack (seen n) = None)"
  proof
    assume none: "?run = None"
    show "\<forall>n>k. cl_Ack (seen n) = None"
    proof (intro allI impI, rule ccontr)
      fix n assume "k < n" "cl_Ack (seen n) \<noteq> None"
      then show False using first ends none by fastforce
    qed
  next
    assume none: "\<forall>n>k. cl_Ack (seen n) = None"
    show "?run = None"
    proof (cases ?run)
      case (Some res)
      then obtain n where "k < n" "cl_Ack (seen n) \<noteq> None" using acked by blast
      with none show ?thesis by simp
    qed
  qed
  have quiet: "\<forall>es. ?run \<noteq> Some (es, Panics)" using acked by blast
  have four: "4 \<le> k" and offers: "k < 13 \<longrightarrow> cl_Offers (seen k) \<noteq> []" using k(2,3) by auto
  have early: "\<forall>m. 4 \<le> m \<longrightarrow> m < k \<longrightarrow> cl_Offers (seen m) = []" using k(4) by auto
  show ?thesis
    by (rule exI [of _ k], intro conjI) (fact four k(2) offers early iff never quiet)+
qed

section \<open>The clients of a run\<close>

lemma hex_char_inj: "i < 16 \<Longrightarrow> j < 16 \<Longrightarrow> hex_char i = hex_char j \<Longrightarrow> i = j"
proof -
  assume ij: "i < 16" "j < 16" and eq: "hex_char i = hex_char j"
  have code: "of_char (hex_char d) = (if d < 10 then 48 + d else 87 + d)" if "d < 16" for d :: nat
    using that by (simp add: hex_char_def)
  from eq have "of_char (hex_char i) = (of_char (hex_char j) :: nat)" by simp
  then show ?thesis using ij by (simp add: code split: if_splits)
qed

lemma hex_byte_inj: "hex_byte a = hex_byte b \<Longrightarrow> a = b"
proof -
  assume eq: "hex_byte a = hex_byte b"
  have "unat a div 16 = unat b div 16" "unat a mod 16 = unat b mod 16"
    using eq byte_less [of a] byte_less [of b] by (auto simp: hex_byte_def intro!: hex_char_inj)
  then have "unat a = unat b" by (metis div_mult_mod_eq)
  then show ?thesis by (simp add: unsigned_word_eqI)
qed

lemma HardwareAddr_String_inj:
  assumes "length a = 6" "length b = 6" "HardwareAddr_String a = HardwareAddr_String b"
  shows "a = b"
proof -
  obtain x0 x1 x2 x3 x4 x5 where a: "a = [x0, x1, x2, x3, x4, x5]" using mac_bytes [OF assms(1)] by blast
  obtain y0 y1 y2 y3 y4 y5 where b: "b = [y0, y1, y2, y3, y4, y5]" using mac_bytes [OF assms(2)] by blast
  have "hex_byte x0 = hex_byte y0 \<and> hex_byte x1 = hex_byte y1 \<and> hex_byte x2 = hex_byte y2 \<and>
      hex_byte x3 = hex_byte y3 \<and> hex_byte x4 = hex_byte y4 \<and> hex_byte x5 = hex_byte y5"
    using assms(3) by (simp add: a b HardwareAddr_String_def hex_byte_def)
  then show ?thesis using hex_byte_inj by (simp add: a b)
qed

lemma dom_make_clients:
  "dom (make_clients n a m) = dom m \<union> (\<lambda>i. HardwareAddr_String ((incMac ^^ i) a)) ` {1..n}"
proof (induction n arbitrary: a m)
  case 0
  then show ?case by simp
next
  case (Suc n)
  have "{1..Suc n} = insert 1 (Suc ` {1..n})" by (auto simp: image_Suc_atLeastAtMost)
  then have "(\<lambda>i. HardwareAddr_String ((incMac ^^ i) a)) ` {1..Suc n} =
      insert (HardwareAddr_String (incMac a)) ((\<lambda>i. HardwareAddr_String ((incMac ^^ i) (incMac a))) ` {1..n})"
    by (simp add: image_image funpow_swap1 del: image_Suc_atLeastAtMost)
  then show ?case
    unfolding make_clients.simps Let_def Suc dom_fun_upd by auto
qed

definition fresh_client :: "string \<Rightarrow> Client \<Rightarrow> bool" where
  "fresh_client k c \<longleftrightarrow> k = HardwareAddr_String (cl_MAC c) \<and> length (cl_MAC c) = 6 \<and> cl_Offers c = [] \<and> cl_Ack c = None"

lemma make_clients_fresh:
  assumes "length a = 6" "make_clients n a m k = Some c"
  shows "m k = Some c \<or> fresh_client k c"
  using assms
proof (induction n arbitrary: a m)
  case 0
  then show ?case by simp
next
  case (Suc n)
  have "length (incMac a) = 6" using Suc.prems(1) by simp
  moreover from mac_bytes [OF this] have
    "[incMac a ! 0, incMac a ! 1, incMac a ! 2, incMac a ! 3, incMac a ! 4, incMac a ! 5] = incMac a" by auto
  ultimately show ?case
    using Suc.IH [of "incMac a"] Suc.prems(2) by (fastforce simp: Let_def fresh_client_def split: if_splits)
qed

lemma count_success_filter:
  "count_success ord clients =
     length (filter (\<lambda>k. cl_Offers (the (clients k)) \<noteq> [] \<and> cl_Ack (the (clients k)) \<noteq> None) ord)"
proof -
  have "foldl (\<lambda>success k.
        if length (cl_Offers (the (clients k))) = 0 then success
        else if cl_Ack (the (clients k)) = None then success
        else success + 1) n ord =
      n + length (filter (\<lambda>k. cl_Offers (the (clients k)) \<noteq> [] \<and> cl_Ack (the (clients k)) \<noteq> None) ord)" for n
    by (induction ord arbitrary: n) simp_all
  then show ?thesis by (simp add: count_success_def)
qed

text \<open>C40: with a start address of six bytes the load generator makes as many clients as it is asked for, up to \<open>2 ^ 48\<close>: the increment of the address carries through all bytes, so that the addresses differ and every client has its own entry, under the text of its own address, with no offers and no acknowledgement; the report at the end counts the clients that have both.\<close>

theorem every_client_has_its_own_address:
  assumes "length a = 6" "n \<le> 2 ^ 48"
  shows "card (dom (make_clients n a Map.empty)) = n \<and>
    (\<forall>k c. make_clients n a Map.empty k = Some c \<longrightarrow> fresh_client k c) \<and>
    (distinct ord \<longrightarrow> visits ord clients \<longrightarrow>
       count_success ord clients = card {k. \<exists>c. clients k = Some c \<and> cl_Offers c \<noteq> [] \<and> cl_Ack c \<noteq> None})"
proof -
  have "inj_on (\<lambda>i. HardwareAddr_String ((incMac ^^ i) a)) {1..n}"
    using macs_inj [OF assms] mac_value_iter [OF assms(1)] HardwareAddr_String_inj
    by (intro inj_onI) (metis inj_onD)
  then have "card (dom (make_clients n a Map.empty)) = n"
    by (simp add: dom_make_clients card_image)
  moreover have "count_success ord clients = card {k. \<exists>c. clients k = Some c \<and> cl_Offers c \<noteq> [] \<and> cl_Ack c \<noteq> None}"
    if ord: "distinct ord" "visits ord clients"
  proof -
    have "{k. \<exists>c. clients k = Some c \<and> cl_Offers c \<noteq> [] \<and> cl_Ack c \<noteq> None} =
        set (filter (\<lambda>k. cl_Offers (the (clients k)) \<noteq> [] \<and> cl_Ack (the (clients k)) \<noteq> None) ord)"
      using ord(2) by (auto simp: visits_def dom_def)
    moreover have "distinct (filter (\<lambda>k. cl_Offers (the (clients k)) \<noteq> [] \<and> cl_Ack (the (clients k)) \<noteq> None) ord)"
      using ord(1) by simp
    ultimately show ?thesis unfolding count_success_filter by (simp only: distinct_card)
  qed
  ultimately show ?thesis using make_clients_fresh [OF assms(1)] by fastforce
qed

theorem every_client_has_its_own_address_witness:
  "card (dom (make_clients 1000 [0, 1, 0, 0, 255, 255] Map.empty)) = 1000 \<and>
   count_success [''00:00:00:00:00:01''] sample_clients = 0"
  using every_client_has_its_own_address [of "[0, 1, 0, 0, 255, 255]" 1000 "[''00:00:00:00:00:01'']" sample_clients]
  by (simp add: visits_def sample_clients_def)

definition client_packets :: "byte list packet_lib" where
  "client_packets =
     \<lparr>pk_ToBytes = (\<lambda>p. [OpCode p]), pk_HWBytes = ClientHWAddr, pk_SetNetworkLayer = (\<lambda>udp ip. None),
      pk_Layer = SerializableLayer, pk_SerializeLayers = (\<lambda>eth ip udp dhcp. Inr (eth_DstMAC eth @ dhcp))\<rparr>"

definition client_calls :: raw_syscalls where
  "client_calls =
     \<lparr>sys_InterfaceByName = (\<lambda>name. Inl ''no such interface''), sys_Socket = Inr 11, sys_SetsockoptInt = (\<lambda>fd. None),
      sys_Sendto = (\<lambda>fd bytes sa. None)\<rparr>"

definition client_iface :: NetInterface where
  "client_iface = \<lparr>if_Name = ''br0'', if_Index = 2, if_HardwareAddr = [2, 0, 0, 0, 0, 9]\<rparr>"

theorem send_ethernet_releases_its_socket_witness:
  "open_fds {4} (fst (sendEthernet client_packets client_calls client_iface [1] None 68 [2] None 67 (Some sample_ack))) = {4}"
  using send_ethernet_releases_its_socket [of client_calls "{4}" client_packets client_iface "[1]" None 68 "[2]" None 67 "Some sample_ack"]
  by (simp add: client_calls_def prod_eq_iff)

definition late_client :: "nat \<Rightarrow> Client" where
  "late_client t = \<lparr>cl_MAC = [0, 0, 0, 0, 0, 1], cl_Offers = (if t < 7 then [] else [sample_ack]),
     cl_Ack = (if t < 20 then None else Some sample_ack)\<rparr>"

theorem goroutine_ends_with_the_ack_witness:
  "\<exists>k. SendDiscovers client_packets (\<lambda>t. client_calls) (\<lambda>mac. Inr sample_ack) Inr client_iface late_client =
     Some (concat (map (broadcast_events client_packets (\<lambda>t. client_calls) client_iface late_client sample_ack) [0..<k]) @
           concat (map (request_events client_packets (\<lambda>t. client_calls) Inr client_iface late_client) [k..<20]), Returns 20)"
proof -
  have hw: "length (ClientHWAddr sample_ack) = 6" by (simp add: sample_ack_def sample_packet_def)
  have "packets_ok client_packets" by (simp add: packets_ok_def client_packets_def)
  moreover have "offers_ok Inr late_client" using hw by (simp add: offers_ok_def late_client_def)
  ultimately obtain k where k: "k \<le> 13"
    "\<forall>es n. SendDiscovers client_packets (\<lambda>t. client_calls) (\<lambda>mac. Inr sample_ack) Inr client_iface late_client = Some (es, Returns n) \<longleftrightarrow>
       k < n \<and> cl_Ack (late_client n) \<noteq> None \<and> (\<forall>m. k < m \<longrightarrow> m < n \<longrightarrow> cl_Ack (late_client m) = None) \<and>
       es = concat (map (broadcast_events client_packets (\<lambda>t. client_calls) client_iface late_client sample_ack) [0..<k]) @
            concat (map (request_events client_packets (\<lambda>t. client_calls) Inr client_iface late_client) [k..<n])"
    using goroutine_ends_with_the_ack [of client_packets Inr late_client "\<lambda>mac. Inr sample_ack" sample_ack "\<lambda>t. client_calls" client_iface] hw
    by blast
  from k(1) have "k < 20 \<and> cl_Ack (late_client 20) \<noteq> None \<and> (\<forall>m. k < m \<longrightarrow> m < 20 \<longrightarrow> cl_Ack (late_client m) = None)"
    by (simp add: late_client_def)
  with k(2) show ?thesis by blast
qed

end
