(* ===== verification/Spec2Isabelle.thy ===== *)
theory Spec2Isabelle
  imports K8s_System K8s_DeepCopy_Props Dhcp_Client_Send
begin

text \<open>
  A verification of \<^verbatim>\<open>k8s-dhcp\<close>, a DHCP server that is configured by Kubernetes objects.

  \<^bold>\<open>The program.\<close> The package \<^verbatim>\<open>dhcp\<close> is the server: it keeps subnets, each with a pool of
  addresses and a cache of leases (\<^verbatim>\<open>dhcp/subnet.go\<close>), finds the subnet of a request,
  takes a lease and builds the reply (\<^verbatim>\<open>dhcp/server.go\<close>). For every listener a request
  processor reads requests from a socket, asks the server for replies, has the leases
  saved and sends the replies (\<^verbatim>\<open>dhcp/request_processor.go\<close>, \<^verbatim>\<open>dhcp/socket.go\<close>,
  \<^verbatim>\<open>dhcp/broadcast_responder.go\<close>). The package \<^verbatim>\<open>controllers\<close> turns changes of Kubernetes
  objects (\<^verbatim>\<open>api/v1alpha1\<close>) into calls of the server and writes leases to the status of
  the subnet objects; the client library copies these objects with the generated deep
  copies. \<^verbatim>\<open>main.go\<close> creates the reconcilers and the server and starts them.
  \<^verbatim>\<open>dhcp/client\<close> is a load generator: a goroutine for each client sends, one loop receives.

  \<^bold>\<open>The theories.\<close>
  \<^item> \<open>Dhcp_Prelude\<close>: results and panics, iteration over Go maps, and the shared locales
    \<open>text_codec\<close>, \<open>stepper\<close>, \<open>invariant_system\<close> and \<open>address_book\<close>.
  \<^item> \<open>Go_Std\<close>: the parts of \<^verbatim>\<open>strings\<close>, \<^verbatim>\<open>strconv\<close>, \<^verbatim>\<open>net\<close> and \<^verbatim>\<open>time\<close> the source uses.
  \<^item> \<open>Dhcp_IPv4\<close>: \<^verbatim>\<open>dhcp/ipv4.go\<close>; addresses are words of 32 bits.
  \<^item> \<open>Dhcp_Api\<close>: \<^verbatim>\<open>dhcp/api.go\<close>; the structs as records, and the dhcpv4 package as the
    record \<open>dhcpv4_lib\<close> of the functions the source calls, a parameter of the model.
  \<^item> \<open>Dhcp_Subnet\<close>: \<^verbatim>\<open>dhcp/subnet.go\<close> and the helpers of \<^verbatim>\<open>dhcp/util.go\<close>, one definition for
    each function. \<open>Dhcp_Pool\<close>: the search loop equals a scan once around a ring of
    addresses. \<open>Dhcp_Leases\<close>: the cache is an address book; what a request does to it.
    \<open>Dhcp_Subnet_Props\<close>: exhausted pools, requested addresses, static hosts.
    \<open>Dhcp_Subnet_Init\<close>: initialisation and the addresses a subnet contains.
  \<^item> \<open>Dhcp_Server\<close>: \<^verbatim>\<open>dhcp/server.go\<close>. \<open>Dhcp_Server_Inv\<close>: the operations as a step relation
    and the invariant they keep. \<open>Dhcp_Server_Props\<close>: reachable states, the content of
    replies, errors, the choice of the subnet, and the handshake of discover and request.
  \<^item> \<open>Raw_Packets\<close>: the layers of a raw frame, the packet libraries that build it, and raw
    sockets as a trace of system calls. \<open>Dhcp_Socket\<close>: \<^verbatim>\<open>dhcp/socket.go\<close> and \<^verbatim>\<open>dhcp/broadcast_responder.go\<close> around the system
    calls. \<open>Dhcp_Processor\<close>: \<^verbatim>\<open>dhcp/request_processor.go\<close>, the loop that reads, the worker
    that replies and the worker that saves and sends, as a machine with its channel.
  \<^item> \<open>K8s_Types\<close>, \<open>K8s_Cache\<close>, \<open>K8s_Controllers\<close>: \<^verbatim>\<open>api/v1alpha1\<close>, \<^verbatim>\<open>controllers/storage.go\<close> and
    the reconcilers with the callback that saves leases. \<open>K8s_Props\<close>: their properties.
  \<^item> \<open>Deep_Copy\<close>: a store of cells behind slices and maps, and the contract of a copy
    (locales \<open>heap_value\<close>, \<open>deep_copier\<close>, \<open>cell_kind\<close>). \<open>K8s_DeepCopy\<close>:
    \<^verbatim>\<open>zz_generated.deepcopy.go\<close>, one definition for each copy. \<open>K8s_DeepCopy_Props\<close>: each
    of them meets the contract.
  \<^item> \<open>Dhcp_Logger\<close>: both loggers behind the interface \<^verbatim>\<open>RLogger\<close> (locale \<open>r_logger\<close>).
    \<open>K8s_Main\<close>: \<^verbatim>\<open>main.go\<close>, the constructors and registrations of the reconcilers and of
    the API group.
  \<^item> \<open>K8s_System\<close>: the operator as a whole, the relation \<open>system_step\<close> of reconcilers,
    listeners and their workers over one server and one cluster.
  \<^item> \<open>Dhcp_Client\<close>, \<open>Dhcp_Client_Send\<close>: \<^verbatim>\<open>dhcp/client/client.go\<close>, the receiving side and the
    sending side with the main program.
  \<^item> \<open>Dhcp_Sample\<close>: concrete values for the witnesses.

  \<^bold>\<open>How the state corresponds.\<close> A pointer to a lease is an index into one store of leases
  (\<open>srv_leases\<close>): the cache of a subnet holds it under the text of the address and under
  the hardware address, a reply carries it, and both the server and the worker write
  through it. A pointer to a subnet is the key of the server's map. A Go map is a map; an
  operation that ranges over one takes the order of the iteration as an argument, and the
  theorems hold for every order that visits each key once (\<open>visits\<close>). A nil map is \<open>None\<close>.
  An error is the left side of a sum or the last component of the result, and a
  nil-pointer dereference is \<open>Panics\<close>. Clock readings are arguments. A call that takes a
  lock is one step; goroutines interleave such steps (\<open>server_step\<close>, \<open>worker_step\<close>,
  \<open>system_step\<close>). None of these relations has a guard that the source does not have: a
  sender to a full channel waits, and any caller may call any operation of the server. In
  \<open>system_step\<close> a reconciler takes its step as a whole or as single accesses to the cache and
  to the server, in any order (\<open>reconciler_access\<close>). The reconcilers work on the values of objects; only the deep copies need
  the aliasing of slices and maps, so there a slice or map is an address in a store of
  cells, and the value an object denotes is the record the reconcilers use. In \<^verbatim>\<open>main.go\<close>
  a pointer field is an option, \<open>None\<close> for nil. The loops of a load generator's client have
  no bound in the source; they are \<open>partial_function\<close>s over what the goroutine sees of its
  record at each look (\<open>seen\<close>).

  \<^bold>\<open>What is shown.\<close> The text of an address round-trips and is its key. A subnet that
  initialises satisfies its invariant and contains the addresses of its prefix. The search
  for an address is a loop without a bound in the source; it is a \<open>partial_function\<close> whose
  \<open>None\<close> is a search that never ends, and in every reachable state it ends, finds the first
  free address from the cursor on, or the oldest expired lease when the pool is full. Two
  clients in the cache of a subnet never have the same address as long as the callers that
  add and delete hosts and leases respect obligations the source does not check (\<open>admitted\<close>:
  a hardware address is not moved to a second address, a deletion names the two keys of one
  lease); \<open>foreign_delete_books_twice\<close> shows a run that breaks them and books an address
  twice. Under the same obligations a request binds at most its own client and takes no
  binding away. A client that is offered an address and requests it is acknowledged with it.
  Replies are sent only after their leases were saved; every reply the channel accepts is
  handed to the callback in order. A host and its subnet end in the same state in whichever
  order the two appear, and a successful save puts every lease into the status of its object.

  Of the operator as a whole, from the process that \<^verbatim>\<open>main.go\<close> sets up and under every
  interleaving: all references to leases in caches and in responses under way are valid,
  every request ends without a panic, and a turn of a worker that sends a reply leaves, in the
  status of the subnet's object and under the hardware address that the lease names, the
  address of the reply (or of another reply of the batch whose lease names the same one).
  For a recycled lease that is the old owner's hardware address, not the client's. A deep copy
  denotes the value of its original and shares no cell with it, so later writes to either
  leave the other alone. A broadcast reply is sent as one frame that carries its addresses.
  The load generator gives its clients distinct hardware addresses, closes every raw socket
  it opens to send, and the goroutine of a client makes exactly the
  system calls of its discovers and requests and ends exactly if it gets to see an
  acknowledgement after its discovers. Where the
  code does something else than it means to, a theorem states what it does: recycled
  offers, requested addresses, moved hosts, overlapping subnets, prefix lengths, ports,
  malformed packets, the second reconciler of hosts that \<^verbatim>\<open>main.go\<close> registers without its
  fields, objects that are deleted, corrected or updated.

  \<^bold>\<open>Hypotheses on other packages.\<close> Of dhcpv4, \<open>options_only\<close> (updating an option changes no fixed
  field), \<open>type_read_back\<close> (the message type set last is the one that is read) and
  \<open>writes_options\<close> (an option is written under its code) are used for the content of
  replies; \<open>Dhcp_Sample\<close> has an instance that satisfies them. \<open>packets_ok\<close> says that a packet
  with a hardware address of six bytes, once printed, decodes to a layer and has at least six bytes to copy;
  \<open>offers_ok\<close> says that the requests for the offers of a client are made without an error and have
  such an address.
  \<open>library_copies\<close> says that the Kubernetes library's copies of object metadata are deep; its
  instance copies a slice of strings. The witnesses instantiate each of them.

  \<^bold>\<open>What is not modelled.\<close> The effects of system calls beyond what they return, the byte
  format of packets (the dhcpv4 and gopacket packages), the framework that calls the
  reconcilers, the parsing of flags, and the calls that log: no theorem depends on a log.
  Data races between operations that do not take the same lock are outside of the model:
  \<^verbatim>\<open>GetResponse\<close> is one step, so that the deletion of a subnet between the choice of the
  subnet and the choice of the lease is not represented, and so is the callback that saves
  the leases of a batch.
  To do next: that no address is booked twice for the operator as a whole, which needs
  conditions on the hosts that users create.
\<close>

end
